(* ===== verification/Protocol_Message.thy ===== *)
theory Protocol_Message
  imports Prelude "HOL-Library.List_Lexorder"
begin

section \<open>Wire messages and their payload codec\<close>

text \<open>
  \<open>core/src/protocol/message.rs\<close> and \<open>core/src/protocol/error.rs\<close>: the data types that travel
  on the wire, the library error with its map to a wire code, and the functions that encode
  and decode a payload. The encoder itself is the third-party crate \<open>postcard\<close>; it is the
  parameter \<open>'a codec\<close> of the functions that call it, with what they rely on as the laws of
  the locale \<open>payload_codec\<close>. \<open>Postcard_Wire\<close> discharges these laws for the wire format the
  repository fixes in its known-answer tests.
\<close>

subsection \<open>Identities\<close>

datatype SpkiHash = SpkiHash (spki_bytes: bytes)

text \<open>A Rust \<open>[u8; 32]\<close> has 32 elements by its type.\<close>

definition wf_spki :: "SpkiHash \<Rightarrow> bool" where
  "wf_spki h \<longleftrightarrow> length (spki_bytes h) = 32"

text \<open>The derived \<open>Ord\<close> of \<open>SpkiHash\<close> is the lexicographic order of its bytes.\<close>

instantiation SpkiHash :: linorder
begin

definition less_eq_SpkiHash :: "SpkiHash \<Rightarrow> SpkiHash \<Rightarrow> bool" where
  "less_eq_SpkiHash a b \<longleftrightarrow> spki_bytes a \<le> spki_bytes b"

definition less_SpkiHash :: "SpkiHash \<Rightarrow> SpkiHash \<Rightarrow> bool" where
  "less_SpkiHash a b \<longleftrightarrow> spki_bytes a < spki_bytes b"

instance
  by standard (auto simp: less_eq_SpkiHash_def less_SpkiHash_def SpkiHash.expand)

end

definition hex_digit :: "nat \<Rightarrow> char" where
  "hex_digit n = (if n < 10 then char_of (48 + n) else char_of (87 + n))"

definition hex_byte :: "u8 \<Rightarrow> string" where
  "hex_byte b = [hex_digit (unat b div 16), hex_digit (unat b mod 16)]"

definition to_hex :: "SpkiHash \<Rightarrow> string" where
  "to_hex h = concat (map hex_byte (spki_bytes h))"

subsection \<open>Message types\<close>

datatype PcState = Off | Sleeping | OnLoggedOut | OnLocked | OnLoggedIn

datatype ReauthInterval = Off | OneDay | SevenDays | ThirtyDays

datatype ProtocolError =
    NotPaired
  | Revoked
  | RequiresReauth
  | VersionMismatch
  | MalformedFrame
  | NonceReplay
  | Unsupported
  | Internal

datatype ClientFrame =
    Pair string u32
  | Sleep
  | Lock
  | PowerOff
  | StateProbe
  | ReauthStatus
  | ReauthConfig ReauthInterval
  | RevokeAck

datatype DaemonFrame =
    Ack u64
  | StateReport PcState
  | Revoke SpkiHash u64
  | Error u64 ProtocolError
  | ReauthInfo u64 ReauthInterval u64

subsection \<open>Library errors\<close>

text \<open>\<open>postcard::Error\<close> is foreign; the source only ever formats it, so it is its text.\<close>

type_synonym postcard_error = string

datatype Error =
    Encoding postcard_error
  | Decoding postcard_error
  | OversizedFrame usize usize
  | UndersizedFrame usize usize
  | VersionMismatch u8 u8
  | TrailingBytes usize
  | LengthOverflow

fun to_wire_code :: "Error \<Rightarrow> ProtocolError" where
  "to_wire_code (Error.VersionMismatch _ _) = ProtocolError.VersionMismatch"
| "to_wire_code (Encoding _) = MalformedFrame"
| "to_wire_code (Decoding _) = MalformedFrame"
| "to_wire_code (OversizedFrame _ _) = MalformedFrame"
| "to_wire_code (UndersizedFrame _ _) = MalformedFrame"
| "to_wire_code (TrailingBytes _) = MalformedFrame"
| "to_wire_code LengthOverflow = MalformedFrame"

subsection \<open>Payload codec\<close>

text \<open>
  The two \<open>postcard\<close> entry points the wire code calls, at one type: \<open>to_allocvec\<close> and
  \<open>take_from_bytes\<close>, which returns the value and the unread tail.
\<close>

record 'a codec =
  to_allocvec :: "'a \<Rightarrow> postcard_error + bytes"
  take_from_bytes :: "bytes \<Rightarrow> postcard_error + ('a \<times> bytes)"

definition encode_client_frame :: "ClientFrame codec \<Rightarrow> ClientFrame \<Rightarrow> Error + bytes" where
  "encode_client_frame c frame = map_err Encoding (to_allocvec c frame)"

definition encode_daemon_frame :: "DaemonFrame codec \<Rightarrow> DaemonFrame \<Rightarrow> Error + bytes" where
  "encode_daemon_frame c frame = map_err Encoding (to_allocvec c frame)"

definition decode_payload :: "'a codec \<Rightarrow> bytes \<Rightarrow> Error + 'a" where
  "decode_payload c payload =
     (case map_err Decoding (take_from_bytes c payload) of
        Inl e \<Rightarrow> Inl e
      | Inr (frame, rest) \<Rightarrow>
          if rest \<noteq> [] then Inl (TrailingBytes (length rest)) else Inr frame)"

definition decode_client_frame :: "ClientFrame codec \<Rightarrow> bytes \<Rightarrow> Error + ClientFrame" where
  "decode_client_frame c payload = decode_payload c payload"

definition decode_daemon_frame :: "DaemonFrame codec \<Rightarrow> bytes \<Rightarrow> Error + DaemonFrame" where
  "decode_daemon_frame c payload = decode_payload c payload"

text \<open>
  What the source relies on of the encoder: encoding a value of the type succeeds with at
  least one byte (the variant tag), and reading it back, whatever follows, returns the value
  and exactly what followed.
\<close>

locale payload_codec =
  fixes c :: "'a codec" and wf :: "'a \<Rightarrow> bool"
  assumes enc_total: "wf x \<Longrightarrow> \<exists>b. to_allocvec c x = Inr b"
    and enc_nonempty: "wf x \<Longrightarrow> to_allocvec c x = Inr b \<Longrightarrow> b \<noteq> []"
    and take_enc: "wf x \<Longrightarrow> to_allocvec c x = Inr b \<Longrightarrow> take_from_bytes c (b @ rest) = Inr (x, rest)"
begin

lemma decode_enc: "wf x \<Longrightarrow> to_allocvec c x = Inr b \<Longrightarrow> decode_payload c b = Inr x"
  using take_enc [of x b "[]"] by (simp add: decode_payload_def)

lemma decode_trailing:
  "wf x \<Longrightarrow> to_allocvec c x = Inr b \<Longrightarrow> rest \<noteq> [] \<Longrightarrow>
     decode_payload c (b @ rest) = Inl (TrailingBytes (length rest))"
  by (simp add: decode_payload_def take_enc)

lemma enc_inj:
  "wf x \<Longrightarrow> wf y \<Longrightarrow> to_allocvec c x = Inr b \<Longrightarrow> to_allocvec c y = Inr b \<Longrightarrow> x = y"
  using take_enc [of x b "[]"] take_enc [of y b "[]"] by simp

lemma enc_prefix_free:
  assumes "wf x" "wf y" "to_allocvec c x = Inr b" "to_allocvec c y = Inr (b @ extra)"
  shows "extra = [] \<and> x = y"
  using take_enc [OF assms(1,3), of extra] take_enc [OF assms(2,4), of "[]"] by simp

end

subsection \<open>Facts about decoding that hold for every encoder\<close>

lemma decode_payload_Inr:
  "decode_payload c b = Inr x \<longleftrightarrow> take_from_bytes c b = Inr (x, [])"
  by (auto simp: decode_payload_def map_err_def split: sum.splits)

lemma decode_payload_error:
  "decode_payload c b = Inl e \<Longrightarrow>
     to_wire_code e = MalformedFrame"
  by (auto simp: decode_payload_def map_err_def split: sum.splits if_splits)

lemma to_wire_code_range:
  "to_wire_code e = ProtocolError.VersionMismatch \<or> to_wire_code e = MalformedFrame"
  by (cases e) simp_all

lemma length_hex_byte [simp]: "length (hex_byte b) = 2"
  by (simp add: hex_byte_def)

lemma length_to_hex [simp]: "length (to_hex h) = 2 * length (spki_bytes h)"
  by (cases h) (simp add: to_hex_def length_concat o_def sum_list_triv)

lemma hex_digit_inj: "m < 16 \<Longrightarrow> n < 16 \<Longrightarrow> hex_digit m = hex_digit n \<Longrightarrow> m = n"
proof -
  assume "m < 16" "n < 16" "hex_digit m = hex_digit n"
  then have "of_char (hex_digit m) = (of_char (hex_digit n) :: nat)" by simp
  with \<open>m < 16\<close> \<open>n < 16\<close> show "m = n"
    by (auto simp: hex_digit_def split: if_splits)
qed

lemma hex_byte_inj: "hex_byte a = hex_byte b \<Longrightarrow> a = b"
proof -
  assume eq: "hex_byte a = hex_byte b"
  have lt: "unat a < 256" "unat b < 256"
    using unsigned_less [of a, where ?'a = nat] unsigned_less [of b, where ?'a = nat] by simp_all
  then have "unat a div 16 = unat b div 16" "unat a mod 16 = unat b mod 16"
    using eq by (auto simp: hex_byte_def intro!: hex_digit_inj)
  then have "unat a = unat b"
    by (metis div_mult_mod_eq)
  then show "a = b" by (simp only: word_unat_eq_iff)
qed

lemma concat_hex_inj:
  "concat (map hex_byte xs) = concat (map hex_byte ys) \<Longrightarrow> xs = ys"
proof (induction xs arbitrary: ys)
  case Nil
  then show ?case by (cases ys) (simp_all add: hex_byte_def)
next
  case (Cons x xs)
  then obtain y ys' where ys: "ys = y # ys'" by (cases ys) (simp_all add: hex_byte_def)
  with Cons.prems have "hex_byte x = hex_byte y"
    "concat (map hex_byte xs) = concat (map hex_byte ys')"
    by simp_all
  with Cons.IH ys show ?case by (simp add: hex_byte_inj)
qed

lemma to_hex_inj: "to_hex a = to_hex b \<Longrightarrow> a = b"
  by (cases a; cases b) (auto simp: to_hex_def dest: concat_hex_inj)

end
