(* ===== verification/Crypto_Nonce.thy ===== *)
theory Crypto_Nonce
  imports Prelude
begin

section \<open>Per-direction nonce counters\<close>

text \<open>
  \<open>core/src/crypto/nonce.rs\<close>. The sender pre-increments with a checked addition; the receiver
  accepts a nonce only above the last one. Nonces are \<open>64 word\<close>, so the overflow of the sender is
  a branch. The locale \<open>replay_window\<close> is the contract a protocol loop relies on.
\<close>

record NonceSender =
  send_next :: u64

record NonceReceiver =
  recv_last_seen :: u64

record NonceCounter =
  send :: NonceSender
  recv :: NonceReceiver

datatype NonceError = Replay (incoming: u64) (last_seen: u64)

definition sender_new :: NonceSender where
  "sender_new = \<lparr>send_next = 0\<rparr>"

definition issue :: "NonceSender \<Rightarrow> u64 option \<times> NonceSender" where
  "issue s =
     (case checked_add (send_next s) 1 of
        None \<Rightarrow> (None, s)
      | Some v \<Rightarrow> (Some v, s\<lparr>send_next := v\<rparr>))"

definition last_issued :: "NonceSender \<Rightarrow> u64" where
  "last_issued s = send_next s"

definition receiver_new :: NonceReceiver where
  "receiver_new = \<lparr>recv_last_seen = 0\<rparr>"

definition accept :: "NonceReceiver \<Rightarrow> u64 \<Rightarrow> (NonceError + unit) \<times> NonceReceiver" where
  "accept r n =
     (if n \<le> recv_last_seen r then (Inl (Replay n (recv_last_seen r)), r)
      else (Inr (), r\<lparr>recv_last_seen := n\<rparr>))"

definition counter_new :: NonceCounter where
  "counter_new = \<lparr>send = sender_new, recv = receiver_new\<rparr>"

subsection \<open>The contract of a replay window\<close>

text \<open>The nonces of a sequence that a window lets through, in order.\<close>

primrec passed :: "('w \<Rightarrow> u64 \<Rightarrow> ('e + unit) \<times> 'w) \<Rightarrow> 'w \<Rightarrow> u64 list \<Rightarrow> u64 list" where
  "passed acc w [] = []"
| "passed acc w (n # ns) =
     (case acc w n of
        (Inl _, w') \<Rightarrow> passed acc w' ns
      | (Inr _, w') \<Rightarrow> n # passed acc w' ns)"

text \<open>
  \<open>acc w n\<close> offers a nonce to a window; \<open>high w\<close> is the highest nonce it has let through. A loop
  that stops at the first refusal, and one that goes on, both get the lemmas of this locale.
\<close>

locale replay_window =
  fixes acc :: "'w \<Rightarrow> u64 \<Rightarrow> ('e + unit) \<times> 'w" and high :: "'w \<Rightarrow> u64"
  assumes acc_ok: "is_ok (fst (acc w n)) \<longleftrightarrow> high w < n"
    and high_ok: "is_ok (fst (acc w n)) \<Longrightarrow> high (snd (acc w n)) = n"
    and high_rej: "\<not> is_ok (fst (acc w n)) \<Longrightarrow> snd (acc w n) = w"
begin

lemma passed_Cons:
  "passed acc w (n # ns) =
     (if is_ok (fst (acc w n)) then n # passed acc (snd (acc w n)) ns
      else passed acc (snd (acc w n)) ns)"
  by (cases "acc w n") (simp split: sum.split)

lemma passed_above: "n \<in> set (passed acc w ns) \<Longrightarrow> high w < n"
proof (induction ns arbitrary: w)
  case Nil
  then show ?case by simp
next
  case (Cons m ns)
  show ?case
  proof (cases "is_ok (fst (acc w m))")
    case True
    then have "high w < m" "high (snd (acc w m)) = m" by (simp_all add: acc_ok high_ok)
    then show ?thesis using Cons True by (fastforce simp: passed_Cons simp del: passed.simps(2) dest: less_trans)
  next
    case False
    then show ?thesis using Cons by (simp add: passed_Cons high_rej del: passed.simps(2))
  qed
qed

lemma passed_sorted: "sorted_wrt (<) (passed acc w ns)"
proof (induction ns arbitrary: w)
  case Nil
  then show ?case by simp
next
  case (Cons m ns)
  show ?case
    using Cons.IH passed_above [of _ "snd (acc w m)" ns] by (auto simp: passed_Cons high_ok simp del: passed.simps(2))
qed

lemma passed_all: "sorted_wrt (<) (high w # ns) \<Longrightarrow> passed acc w ns = ns"
  by (induction ns arbitrary: w) (auto simp: passed_Cons acc_ok high_ok simp del: passed.simps(2))

lemma replayed_rejected:
  "is_ok (fst (acc w n)) \<Longrightarrow> m \<le> n \<Longrightarrow> \<not> is_ok (fst (acc (snd (acc w n)) m))"
  by (auto simp: acc_ok high_ok not_less)

end

interpretation receiver: replay_window accept recv_last_seen
  by unfold_locales (auto simp: accept_def)

subsection \<open>The sender\<close>

primrec issue_many :: "nat \<Rightarrow> NonceSender \<Rightarrow> u64 option list \<times> NonceSender" where
  "issue_many 0 s = ([], s)"
| "issue_many (Suc k) s =
     (let (v, s1) = issue s; (vs, s2) = issue_many k s1 in (v # vs, s2))"

lemma issue_succ:
  "unat (send_next s) + 1 < 2 ^ 64 \<Longrightarrow>
     issue s = (Some (send_next s + 1), s\<lparr>send_next := send_next s + 1\<rparr>)"
  by (simp add: issue_def checked_add_def)

lemma issue_full: "send_next s = - 1 \<Longrightarrow> issue s = (None, s)"
  by (simp add: issue_def checked_add_def unat_max_word)

lemma issue_many_run:
  "n + k < 2 ^ 64 \<Longrightarrow> send_next s = of_nat n \<Longrightarrow>
     issue_many k s = (map (\<lambda>i. Some (of_nat i)) [n + 1 ..< n + 1 + k],
                       s\<lparr>send_next := of_nat (n + k)\<rparr>)"
proof (induction k arbitrary: n s)
  case 0
  then show ?case by simp
next
  case (Suc k)
  have "unat (of_nat n :: u64) = n" using Suc.prems by (simp add: unat_of_nat)
  then have step: "issue s = (Some (of_nat (n + 1)), s\<lparr>send_next := of_nat (n + 1)\<rparr>)"
    using Suc.prems by (simp add: issue_succ add.commute)
  have "issue_many k (s\<lparr>send_next := of_nat (n + 1)\<rparr>)
        = (map (\<lambda>i. Some (of_nat i)) [n + 1 + 1 ..< n + 1 + 1 + k],
           s\<lparr>send_next := of_nat (n + 1 + k)\<rparr>)"
    using Suc.IH [of "n + 1" "s\<lparr>send_next := of_nat (n + 1)\<rparr>"] Suc.prems by simp
  with step show ?case by (simp add: upt_conv_Cons del: upt_Suc of_nat_add of_nat_Suc)
qed

subsection \<open>Properties\<close>

text \<open>
  C29: Of any sequence of frames offered to a fresh receiver, the nonces that pass are strictly
  increasing and all at least one; in particular no nonce passes twice, so a captured frame sent
  again in the same session is refused, and a zero nonce never passes.
\<close>
theorem receiver_replay_safe:
  "sorted_wrt (<) (passed accept receiver_new ns)
   \<and> distinct (passed accept receiver_new ns)
   \<and> 0 \<notin> set (passed accept receiver_new ns)"
  using receiver.passed_sorted [of receiver_new ns] receiver.passed_above [of 0 receiver_new ns]
  by (auto simp: strict_sorted_iff receiver_new_def)

text \<open>
  A sender issues exactly \<open>1, 2, ..., k\<close> for its first \<open>k\<close> frames as long as the counter
  fits 64 bits, a fresh receiver at the other end accepts every one of them in order, and once
  the counter is exhausted \<open>issue\<close> returns \<open>None\<close> and leaves the counter alone instead of wrapping
  to a nonce that was already used.
\<close>
lemma sender_receiver_agree:
  assumes "k < 2 ^ 64"
  shows "fst (issue_many k sender_new) = map (\<lambda>i. Some (of_nat i)) [1 ..< Suc k]
     \<and> passed accept receiver_new (map of_nat [1 ..< Suc k]) = map of_nat [1 ..< Suc k]
     \<and> issue \<lparr>send_next = - 1\<rparr> = (None, \<lparr>send_next = - 1\<rparr>)"
proof -
  have "fst (issue_many k sender_new) = map (\<lambda>i. Some (of_nat i)) [1 ..< Suc k]"
    using issue_many_run [of 0 k sender_new] assms by (simp add: sender_new_def)
  moreover have "sorted_wrt (<) (recv_last_seen receiver_new # map of_nat [1 ..< Suc k])"
  proof -
    have "sorted_wrt (\<lambda>i j. (of_nat i :: u64) < of_nat j) [1 ..< Suc k]"
      using assms
      by (intro sorted_wrt_mono_rel [OF _ sorted_wrt_upt])
        (auto simp: word_less_nat_alt unat_of_nat)
    moreover have "(0 :: u64) < of_nat i" if "i \<in> set [1 ..< Suc k]" for i
      using that assms by (auto simp: word_less_nat_alt unat_of_nat simp del: upt_Suc)
    ultimately show ?thesis
      by (auto simp: receiver_new_def sorted_wrt_map simp del: upt_Suc)
  qed
  ultimately show ?thesis by (auto intro: receiver.passed_all issue_full)
qed

lemma sender_receiver_agree_example:
  "fst (issue_many 2 sender_new) = [Some 1, Some 2]
   \<and> passed accept receiver_new [1, 2] = [1, 2]"
  using sender_receiver_agree [of 2] by (simp add: upt_rec)

end
