(* ===== verification/Crypto_Error.thy ===== *)
theory Crypto_Error
  imports Protocol_Message Crypto_Nonce
begin

section \<open>Errors of the core crate\<close>

text \<open>
  The error enum of \<open>core/src/crypto/mod.rs\<close> and the crate-wide error of \<open>core/src/error.rs\<close>. A
  \<open>String\<close> payload is the text of a foreign error.
\<close>

datatype CryptoError =
    CertGeneration string
  | IdentityLoad string
  | X509Parse string
  | RustlsConfig string
  | Nonce NonceError
  | PairingState string
  | OsRng string

datatype CoreError =
    Protocol Error
  | Crypto CryptoError

end
