(* ===== verification/Std_Fs.thy ===== *)
theory Std_Fs
  imports Prelude
begin

section \<open>The file system\<close>

text \<open>
  The operations of \<open>tokio::fs\<close> (those of \<open>std::fs\<close>) that the daemon calls. A path is the list of
  its components: \<open>join\<close> appends one, \<open>parent\<close> drops the last. A file is its bytes. Every call takes
  the next entry of \<open>io_script\<close>: it is carried out, or it fails with a text of the operating
  system. A failing write may have created or truncated the file and written a prefix of the
  data; a failing directory creation may have created some of the ancestors; a failing rename has
  changed nothing. After the script every call is carried out. Theorems quantify over the script,
  so they hold for every combination of failures.
\<close>

type_synonym path = "string list"

datatype io_error = NotFound | OtherIo string

datatype io_outcome = IoOk | IoFail string "nat option"

record fs =
  files :: "path \<Rightarrow> bytes option"
  dirs :: "path list"
  io_script :: "io_outcome list"

definition join :: "path \<Rightarrow> string \<Rightarrow> path" where
  "join p name = p @ [name]"

definition parent :: "path \<Rightarrow> path option" where
  "parent p = (if p = [] then None else Some (butlast p))"

fun next_outcome :: "fs \<Rightarrow> io_outcome \<times> fs" where
  "next_outcome s =
     (case io_script s of
        [] \<Rightarrow> (IoOk, s)
      | x # xs \<Rightarrow> (x, s\<lparr>io_script := xs\<rparr>))"

declare next_outcome.simps [simp del]

definition fs_read :: "path \<Rightarrow> fs \<Rightarrow> (io_error + bytes) \<times> fs" where
  "fs_read p s =
     (case next_outcome s of
        (IoFail m _, s') \<Rightarrow> (Inl (OtherIo m), s')
      | (IoOk, s') \<Rightarrow>
          ((case files s p of
              Some b \<Rightarrow> Inr b
            | None \<Rightarrow> if p \<in> set (dirs s) then Inl (OtherIo ''is a directory'') else Inl NotFound), s'))"

definition can_create :: "path \<Rightarrow> fs \<Rightarrow> bool" where
  "can_create p s \<longleftrightarrow> p \<noteq> [] \<and> p \<notin> set (dirs s) \<and> butlast p \<in> set (dirs s)"

definition fs_write :: "path \<Rightarrow> bytes \<Rightarrow> fs \<Rightarrow> (io_error + unit) \<times> fs" where
  "fs_write p b s =
     (case next_outcome s of
        (IoFail m n, s') \<Rightarrow>
          (Inl (OtherIo m),
           (case n of
              None \<Rightarrow> s'
            | Some k \<Rightarrow> if can_create p s then s'\<lparr>files := (files s)(p \<mapsto> take k b)\<rparr> else s'))
      | (IoOk, s') \<Rightarrow>
          if can_create p s then (Inr (), s'\<lparr>files := (files s)(p \<mapsto> b)\<rparr>)
          else if p \<in> set (dirs s) then (Inl (OtherIo ''is a directory''), s')
          else (Inl NotFound, s'))"

definition fs_rename :: "path \<Rightarrow> path \<Rightarrow> fs \<Rightarrow> (io_error + unit) \<times> fs" where
  "fs_rename a p s =
     (case next_outcome s of
        (IoFail m _, s') \<Rightarrow> (Inl (OtherIo m), s')
      | (IoOk, s') \<Rightarrow>
          (case files s a of
             None \<Rightarrow> (Inl NotFound, s')
           | Some b \<Rightarrow>
               if can_create p s then (Inr (), s'\<lparr>files := (files s)(a := None, p \<mapsto> b)\<rparr>)
               else if p \<in> set (dirs s) then (Inl (OtherIo ''is a directory''), s')
               else (Inl NotFound, s')))"

definition ancestors :: "path \<Rightarrow> path list" where
  "ancestors p = map (\<lambda>n. take n p) [0..<Suc (length p)]"

definition fs_create_dir_all :: "path \<Rightarrow> fs \<Rightarrow> (io_error + unit) \<times> fs" where
  "fs_create_dir_all p s =
     (case next_outcome s of
        (IoFail m n, s') \<Rightarrow>
          (Inl (OtherIo m),
           (case n of
              None \<Rightarrow> s'
            | Some k \<Rightarrow>
                s'\<lparr>dirs := dirs s @ filter (\<lambda>q. files s q = None) (take k (ancestors p))\<rparr>))
      | (IoOk, s') \<Rightarrow>
          if list_all (\<lambda>q. files s q = None) (ancestors p)
          then (Inr (), s'\<lparr>dirs := dirs s @ ancestors p\<rparr>)
          else (Inl (OtherIo ''not a directory''), s'))"

text \<open>Decimal digits, as \<open>format!\<close> writes a process id.\<close>

fun decimal :: "nat \<Rightarrow> string" where
  "decimal n = (if n < 10 then [char_of (48 + n)] else decimal (n div 10) @ [char_of (48 + n mod 10)])"

declare decimal.simps [simp del]

definition digit_value :: "string \<Rightarrow> nat" where
  "digit_value = foldl (\<lambda>a d. 10 * a + (of_char d - 48)) 0"

lemma digit_value_decimal: "digit_value (decimal n) = n"
proof (induction n rule: decimal.induct)
  case (1 n)
  have "of_char (char_of (48 + m) :: char) = 48 + m" if "m < 10" for m :: nat
    using that by simp
  note d = this [of n] this [of "n mod 10"]
  show ?case
  proof (cases "n < 10")
    case True
    with d show ?thesis by (subst decimal.simps) (simp add: digit_value_def)
  next
    case False
    with 1 d show ?thesis by (subst decimal.simps) (simp add: digit_value_def)
  qed
qed

lemma decimal_inj [simp]: "decimal m = decimal n \<longleftrightarrow> m = n"
  using digit_value_decimal by metis

subsection \<open>What the operations keep\<close>

text \<open>No path is a file and a directory at once, so what is not a directory can be created.\<close>

definition fs_inv :: "fs \<Rightarrow> bool" where
  "fs_inv s \<longleftrightarrow> list_all (\<lambda>d. files s d = None) (dirs s)"

named_theorems fs_ops

lemma next_outcome_same [simp]:
  "next_outcome s = (x, s') \<Longrightarrow> files s' = files s"
  "next_outcome s = (x, s') \<Longrightarrow> dirs s' = dirs s"
  by (auto simp: next_outcome.simps split: list.splits)

lemma next_outcome_calm: "io_script s = [] \<Longrightarrow> next_outcome s = (IoOk, s)"
  by (simp add: next_outcome.simps)

lemma fs_read_same [simp]:
  "files (snd (fs_read p s)) = files s"
  "dirs (snd (fs_read p s)) = dirs s"
  by (auto simp: fs_read_def split: prod.splits io_outcome.splits)

lemma fs_read_Inr: "fst (fs_read p s) = Inr b \<Longrightarrow> files s p = Some b"
  by (auto simp: fs_read_def split: prod.splits io_outcome.splits option.splits if_splits)

lemma fs_read_NotFound: "fst (fs_read p s) = Inl NotFound \<Longrightarrow> files s p = None"
  by (auto simp: fs_read_def split: prod.splits io_outcome.splits option.splits if_splits)

lemma fs_write_same [simp]: "dirs (snd (fs_write p b s)) = dirs s"
  by (auto simp: fs_write_def split: prod.splits io_outcome.splits option.splits)

lemma fs_write_other: "q \<noteq> p \<Longrightarrow> files (snd (fs_write p b s)) q = files s q"
  by (auto simp: fs_write_def split: prod.splits io_outcome.splits option.splits)

lemma fs_write_Inr: "fst (fs_write p b s) = Inr u \<Longrightarrow> files (snd (fs_write p b s)) = (files s)(p \<mapsto> b)"
  by (auto simp: fs_write_def split: prod.splits io_outcome.splits if_splits)

lemma fs_rename_same [simp]: "dirs (snd (fs_rename a p s)) = dirs s"
  by (auto simp: fs_rename_def split: prod.splits io_outcome.splits option.splits)

lemma fs_rename_Inl: "fst (fs_rename a p s) = Inl e \<Longrightarrow> files (snd (fs_rename a p s)) = files s"
  by (auto simp: fs_rename_def split: prod.splits io_outcome.splits option.splits if_splits)

lemma fs_rename_Inr:
  "fst (fs_rename a p s) = Inr u \<Longrightarrow>
     \<exists>b. files s a = Some b \<and> files (snd (fs_rename a p s)) = (files s)(a := None, p \<mapsto> b)"
  by (auto simp: fs_rename_def split: prod.splits io_outcome.splits option.splits if_splits)

lemma fs_create_dir_all_same [simp]: "files (snd (fs_create_dir_all p s)) = files s"
  by (auto simp: fs_create_dir_all_def split: prod.splits io_outcome.splits option.splits)

lemma fs_create_dir_all_Inr:
  "fst (fs_create_dir_all p s) = Inr u \<Longrightarrow> p \<in> set (dirs (snd (fs_create_dir_all p s)))"
  by (auto simp: fs_create_dir_all_def ancestors_def split: prod.splits io_outcome.splits if_splits)

lemma fs_inv_ops [fs_ops]:
  assumes "fs_inv s"
  shows "fs_inv (snd (fs_read p s))"
    and "fs_inv (snd (fs_write p b s))"
    and "fs_inv (snd (fs_rename a p s))"
    and "fs_inv (snd (fs_create_dir_all p s))"
  using assms
  by (auto simp: fs_inv_def list_all_iff fs_write_def fs_rename_def fs_create_dir_all_def can_create_def
      dest: in_set_takeD split: prod.splits io_outcome.splits option.splits if_splits)

end
