(* ===== verification/Daemon_Error.thy ===== *)
theory Daemon_Error
  imports Protocol_Message Crypto_Error Std_Fs
begin

section \<open>The daemon's errors\<close>

text \<open>
  \<open>daemon/src/error.rs\<close>, and the errors that reach a command's caller. \<open>anyhow::Error\<close> erases the
  type of what it wraps and adds texts of context; the model keeps the wrapped error as a
  constructor of \<open>anyhow_error\<close>.
\<close>

datatype OsHandlerError =
    OsApi (detail: string)
  | NotPermitted (detail: string)

definition os_to_wire_code :: "OsHandlerError \<Rightarrow> ProtocolError" where
  "os_to_wire_code e = Internal"

datatype KeystoreError =
    Io io_error
  | Encryption string
  | Decode string
  | FormatVersion u8 u8
  | Identity CryptoError

datatype anyhow_error =
    Anyhow string
  | FromProtocol Error
  | FromCrypto CryptoError
  | FromIo io_error
  | FromKeystore KeystoreError
  | Context string anyhow_error

end
