(* ===== verification/Daemon_Config.thy ===== *)
theory Daemon_Config
  imports Daemon_Error
begin

section \<open>Configuration\<close>

text \<open>
  \<open>daemon/src/config.rs\<close>. The compilation target (\<open>cfg(windows)\<close>) is an argument. The \<open>ProgramData\<close>
  environment variable and the \<open>directories\<close> crate are foreign: \<open>os_paths\<close> holds their answers.
\<close>

datatype target = Windows | OtherTarget

record os_paths =
  env_ProgramData :: "path option"
  project_data_dir :: "path option"

datatype IpAddr = IpV4 bytes | IpV6 bytes

datatype SocketAddr =
    V4 (v4_octets: bytes) (v4_port: u16)
  | V6 (v6_octets: bytes) (v6_port: u16) (flowinfo: u32) (scope_id: u32)

fun socket_addr_new :: "IpAddr \<Rightarrow> u16 \<Rightarrow> SocketAddr" where
  "socket_addr_new (IpV4 o4) p = V4 o4 p"
| "socket_addr_new (IpV6 o6) p = V6 o6 p 0 0"

definition DEFAULT_PORT :: u16 where "DEFAULT_PORT = 51820"

record ConfigArgs =
  arg_data_dir :: "path option"
  arg_port :: u16
  arg_bind :: IpAddr

record Config =
  data_dir :: path
  bind_addr :: SocketAddr

definition default_data_dir :: "target \<Rightarrow> os_paths \<Rightarrow> anyhow_error + path" where
  "default_data_dir t env =
     (case t of
        Windows \<Rightarrow>
          (case env_ProgramData env of
             None \<Rightarrow> Inl (Anyhow ''PROGRAMDATA env var not set; cannot resolve data dir'')
           | Some program_data \<Rightarrow> Inr (join program_data ''wake-my-pc''))
      | OtherTarget \<Rightarrow>
          (case project_data_dir env of
             None \<Rightarrow> Inl (Anyhow ''could not resolve OS data directory'')
           | Some d \<Rightarrow> Inr d))"

definition from_args :: "target \<Rightarrow> os_paths \<Rightarrow> ConfigArgs \<Rightarrow> anyhow_error + Config" where
  "from_args t env args =
     (case (case arg_data_dir args of Some p \<Rightarrow> Inr p | None \<Rightarrow> default_data_dir t env) of
        Inl e \<Rightarrow> Inl e
      | Inr d \<Rightarrow> Inr \<lparr>data_dir = d, bind_addr = socket_addr_new (arg_bind args) (arg_port args)\<rparr>)"

definition keystore_path :: "Config \<Rightarrow> path" where
  "keystore_path cfg = join (data_dir cfg) ''keystore.bin''"

definition for_test :: "path \<Rightarrow> Config" where
  "for_test d = \<lparr>data_dir = d, bind_addr = socket_addr_new (IpV4 [127, 0, 0, 1]) 0\<rparr>"

text \<open>\<open>--data-dir\<close> is never overridden, and without it the error is the platform's.\<close>

lemma from_args_given [simp]:
  "arg_data_dir args = Some d \<Longrightarrow>
     from_args t env args = Inr \<lparr>data_dir = d, bind_addr = socket_addr_new (arg_bind args) (arg_port args)\<rparr>"
  by (simp add: from_args_def)

lemma keystore_path_parent [simp]: "parent (keystore_path cfg) = Some (data_dir cfg)"
  by (simp add: keystore_path_def join_def parent_def)

lemma last_keystore_path [simp]: "last (keystore_path cfg) = ''keystore.bin''"
  by (simp add: keystore_path_def join_def)

end
