(* ===== verification/Crypto_Pairing.thy ===== *)
theory Crypto_Pairing
  imports Crypto_Error
begin

section \<open>The pairing handshake\<close>

text \<open>
  \<open>core/src/crypto/pairing.rs\<close>: the state machine of one pairing window. The operating system's
  random source is a parameter: \<open>rng i\<close> is the outcome of the \<open>i\<close>-th call of \<open>getrandom\<close> on a four
  byte buffer, an error text or the bytes. The rejection sampling loop may run forever for a
  source that only ever returns large values, so it is a \<open>partial_function\<close> whose \<open>None\<close> is "does
  not return". The clock is an argument, as in the source.
\<close>

type_synonym rng = "nat \<Rightarrow> string + bytes"

definition PAIRING_WINDOW_DEFAULT_MS :: u64 where "PAIRING_WINDOW_DEFAULT_MS = 5 * 60 * 1000"

definition MAX_PAIRING_ATTEMPTS :: u8 where "MAX_PAIRING_ATTEMPTS = 5"

definition PAIRING_CODE_MODULUS :: u32 where "PAIRING_CODE_MODULUS = 1000000"

definition RESAMPLE_THRESHOLD :: u32 where
  "RESAMPLE_THRESHOLD = ((- 1) div PAIRING_CODE_MODULUS) * PAIRING_CODE_MODULUS"

record PairingRecord =
  pr_phone_name :: string
  pr_client_spki :: SpkiHash
  pr_paired_at_unix_ms :: u64

datatype PairingState =
    Idle
  | Awaiting u32 u64 u8
  | Paired PairingRecord

datatype PairingRejection =
    NotInWindow
  | WrongCode
  | Expired
  | TooManyAttempts
  | OutOfRange

datatype PairingTransition =
    Started u32
  | Expired
  | Succeeded PairingRecord
  | Rejected PairingRejection
  | NoOp

record PairingHandshake =
  state :: PairingState

definition handshake_new :: PairingHandshake where
  "handshake_new = \<lparr>state = Idle\<rparr>"

partial_function (option) random_pairing_code ::
    "rng \<Rightarrow> nat \<Rightarrow> ((CryptoError + u32) \<times> nat) option" where
  "random_pairing_code rng i =
     (case rng i of
        Inl e \<Rightarrow> Some (Inl (OsRng e), Suc i)
      | Inr buf \<Rightarrow>
          let raw = u32_from_le_bytes buf in
          if raw < RESAMPLE_THRESHOLD
          then Some (Inr (raw mod PAIRING_CODE_MODULUS), Suc i)
          else random_pairing_code rng (Suc i))"

definition start ::
    "rng \<Rightarrow> nat \<Rightarrow> PairingHandshake \<Rightarrow> u64 \<Rightarrow> u64
       \<Rightarrow> ((CryptoError + PairingTransition) \<times> PairingHandshake \<times> nat) option" where
  "start rng i h now_unix_ms ttl_ms =
     (if state h \<noteq> Idle then Some (Inr NoOp, h, i)
      else
        (case random_pairing_code rng i of
           None \<Rightarrow> None
         | Some (Inl e, j) \<Rightarrow> Some (Inl e, h, j)
         | Some (Inr code, j) \<Rightarrow>
             let expires_at_unix_ms = saturating_add now_unix_ms ttl_ms in
             Some (Inr (Started code), h\<lparr>state := Awaiting code expires_at_unix_ms 0\<rparr>, j)))"

definition accept_pair ::
    "PairingHandshake \<Rightarrow> u64 \<Rightarrow> u32 \<Rightarrow> string \<Rightarrow> SpkiHash
       \<Rightarrow> PairingTransition \<times> PairingHandshake" where
  "accept_pair h now_unix_ms offered_code phone_name client_spki =
     (case state h of
        Idle \<Rightarrow> (Rejected NotInWindow, h)
      | Paired _ \<Rightarrow> (Rejected NotInWindow, h)
      | Awaiting code expires_at_unix_ms prior_failures \<Rightarrow>
          if now_unix_ms \<ge> expires_at_unix_ms
          then (Rejected PairingRejection.Expired, h\<lparr>state := Idle\<rparr>)
          else
            let out_of_range = offered_code \<ge> PAIRING_CODE_MODULUS in
            if out_of_range \<or> offered_code \<noteq> code then
              let new_failures = saturating_add prior_failures 1 in
              if new_failures \<ge> MAX_PAIRING_ATTEMPTS
              then (Rejected TooManyAttempts, h\<lparr>state := Idle\<rparr>)
              else (Rejected (if out_of_range then OutOfRange else WrongCode),
                    h\<lparr>state := Awaiting code expires_at_unix_ms new_failures\<rparr>)
            else
              let r = \<lparr>pr_phone_name = phone_name, pr_client_spki = client_spki,
                       pr_paired_at_unix_ms = now_unix_ms\<rparr>
              in (Succeeded r, h\<lparr>state := Paired r\<rparr>))"

definition tick :: "PairingHandshake \<Rightarrow> u64 \<Rightarrow> PairingTransition \<times> PairingHandshake" where
  "tick h now_unix_ms =
     (case state h of
        Awaiting _ expires_at_unix_ms _ \<Rightarrow>
          if now_unix_ms \<ge> expires_at_unix_ms
          then (PairingTransition.Expired, h\<lparr>state := Idle\<rparr>)
          else (NoOp, h)
      | _ \<Rightarrow> (NoOp, h))"

definition reset :: "PairingHandshake \<Rightarrow> PairingHandshake" where
  "reset h = h\<lparr>state := Idle\<rparr>"

lemmas pairing_consts = PAIRING_CODE_MODULUS_def MAX_PAIRING_ATTEMPTS_def


subsection \<open>The random code\<close>

lemma RESAMPLE_THRESHOLD_eq: "RESAMPLE_THRESHOLD = 4294000000"
  by (simp add: RESAMPLE_THRESHOLD_def PAIRING_CODE_MODULUS_def)

definition draw_ends :: "string + bytes \<Rightarrow> bool" where
  "draw_ends r = (case r of Inl _ \<Rightarrow> True | Inr buf \<Rightarrow> u32_from_le_bytes buf < RESAMPLE_THRESHOLD)"

lemma random_code_stop:
  "draw_ends (rng i) \<Longrightarrow> random_pairing_code rng i =
     (case rng i of
        Inl e \<Rightarrow> Some (Inl (OsRng e), Suc i)
      | Inr buf \<Rightarrow> Some (Inr (u32_from_le_bytes buf mod PAIRING_CODE_MODULUS), Suc i))"
  by (subst random_pairing_code.simps) (simp add: draw_ends_def Let_def split: sum.splits)

lemma random_code_again:
  "\<not> draw_ends (rng i) \<Longrightarrow> random_pairing_code rng i = random_pairing_code rng (Suc i)"
  by (subst random_pairing_code.simps) (simp add: draw_ends_def Let_def split: sum.splits)

lemma random_code_skip:
  "(\<forall>m < k. \<not> draw_ends (rng (i + m))) \<Longrightarrow> random_pairing_code rng i = random_pairing_code rng (i + k)"
proof (induction k)
  case 0
  then show ?case by simp
next
  case (Suc k)
  then have "random_pairing_code rng i = random_pairing_code rng (i + k)"
    and "\<not> draw_ends (rng (i + k))" by simp_all
  then show ?case by (simp add: random_code_again)
qed

lemma random_code_returned:
  assumes "random_pairing_code rng i = Some r"
  shows "\<exists>k \<ge> i. draw_ends (rng k) \<and> random_pairing_code rng k = Some r"
proof (rule random_pairing_code.raw_induct
    [where P = "\<lambda>rng i r. \<exists>k \<ge> i. draw_ends (rng k) \<and> random_pairing_code rng k = Some r",
      OF _ assms])
  fix f rng i r
  assume IH: "\<And>rng i r. f rng i = Some r \<Longrightarrow>
      \<exists>k \<ge> i. draw_ends (rng k) \<and> random_pairing_code rng k = Some r"
    and eq: "(case rng i of
        Inl e \<Rightarrow> Some (Inl (OsRng e), Suc i)
      | Inr buf \<Rightarrow>
          let raw = u32_from_le_bytes buf in
          if raw < RESAMPLE_THRESHOLD
          then Some (Inr (raw mod PAIRING_CODE_MODULUS), Suc i)
          else f rng (Suc i)) = Some r"
  show "\<exists>k \<ge> i. draw_ends (rng k) \<and> random_pairing_code rng k = Some r"
  proof (cases "draw_ends (rng i)")
    case True
    then have "random_pairing_code rng i = Some r"
      using eq random_code_stop [of rng i]
      by (simp add: draw_ends_def Let_def split: sum.splits)
    with True show ?thesis by blast
  next
    case False
    then have "f rng (Suc i) = Some r"
      using eq by (simp add: draw_ends_def Let_def split: sum.splits if_splits)
    then show ?thesis using IH [of rng "Suc i" r] Suc_leD by blast
  qed
qed

lemma code_in_range: "raw mod PAIRING_CODE_MODULUS < PAIRING_CODE_MODULUS"
  by (rule word_mod_less_divisor) (simp add: PAIRING_CODE_MODULUS_def)

lemma random_code_range:
  "random_pairing_code rng i = Some (Inr c, j) \<Longrightarrow> c < PAIRING_CODE_MODULUS"
proof -
  assume "random_pairing_code rng i = Some (Inr c, j)"
  then obtain k where k: "draw_ends (rng k)" "random_pairing_code rng k = Some (Inr c, j)"
    by (blast dest: random_code_returned)
  then show ?thesis
    unfolding random_code_stop [of rng k, OF k(1)] by (cases "rng k") (auto simp: code_in_range)
qed

lemma random_code_terminates_iff:
  "(\<exists>r. random_pairing_code rng i = Some r) \<longleftrightarrow> (\<exists>k \<ge> i. draw_ends (rng k))"
proof
  assume "\<exists>k \<ge> i. draw_ends (rng k)"
  then have ex: "\<exists>m. draw_ends (rng (i + m))" by (auto simp: le_iff_add)
  define m where "m = (LEAST m. draw_ends (rng (i + m)))"
  have "draw_ends (rng (i + m))" and "\<forall>l < m. \<not> draw_ends (rng (i + l))"
    using ex by (auto simp: m_def intro: LeastI dest: not_less_Least)
  then show "\<exists>r. random_pairing_code rng i = Some r"
    by (simp add: random_code_skip random_code_stop split: sum.split)
qed (auto dest: random_code_returned)

subsection \<open>Runs of a window\<close>

text \<open>Events between two calls of \<open>start\<close>: a \<open>Pair\<close> frame that arrives, or a tick of the loop.\<close>

datatype PairEvent = Offer u64 u32 string SpkiHash | Tick u64

fun pair_step :: "PairingHandshake \<Rightarrow> PairEvent \<Rightarrow> PairingTransition \<times> PairingHandshake" where
  "pair_step h (Offer now code name spki) = accept_pair h now code name spki"
| "pair_step h (Tick now) = tick h now"

primrec pair_run :: "PairingHandshake \<Rightarrow> PairEvent list \<Rightarrow> PairingTransition list \<times> PairingHandshake" where
  "pair_run h [] = ([], h)"
| "pair_run h (ev # evs) =
     (let (t, h1) = pair_step h ev; (ts, h2) = pair_run h1 evs in (t # ts, h2))"

fun event_time :: "PairEvent \<Rightarrow> u64" where
  "event_time (Offer now _ _ _) = now"
| "event_time (Tick now) = now"

fun offered :: "PairEvent list \<Rightarrow> u32 list" where
  "offered [] = []"
| "offered (Offer _ code _ _ # evs) = code # offered evs"
| "offered (Tick _ # evs) = offered evs"

text \<open>
  The declarative view of an open window: nothing has come at or after the expiry, no offer had
  the code, and fewer than \<open>MAX_PAIRING_ATTEMPTS\<close> offers have been made.
\<close>

definition window_open :: "u32 \<Rightarrow> u64 \<Rightarrow> nat \<Rightarrow> PairEvent list \<Rightarrow> bool" where
  "window_open c e k evs \<longleftrightarrow>
     (\<forall>ev \<in> set evs. event_time ev < e) \<and> c \<notin> set (offered evs)
     \<and> k + length (offered evs) < unat MAX_PAIRING_ATTEMPTS"

definition handshake_inv :: "PairingHandshake \<Rightarrow> bool" where
  "handshake_inv h =
     (case state h of
        Awaiting c e k \<Rightarrow> c < PAIRING_CODE_MODULUS \<and> k < MAX_PAIRING_ATTEMPTS
      | _ \<Rightarrow> True)"

definition is_awaiting :: "PairingHandshake \<Rightarrow> bool" where
  "is_awaiting h = (case state h of Awaiting _ _ _ \<Rightarrow> True | _ \<Rightarrow> False)"

lemma closed_step:
  "\<not> is_awaiting h \<Longrightarrow> pair_step h ev =
     (case ev of Offer _ _ _ _ \<Rightarrow> (Rejected NotInWindow, h) | Tick _ \<Rightarrow> (NoOp, h))"
  by (cases ev) (auto simp: is_awaiting_def accept_pair_def tick_def split: PairingState.splits)

lemma closed_run: "\<not> is_awaiting h \<Longrightarrow> snd (pair_run h evs) = h"
  by (induction evs) (auto simp: closed_step split: PairEvent.split prod.split)

lemma closed_run_no_success:
  "\<not> is_awaiting h \<Longrightarrow> Succeeded r \<notin> set (fst (pair_run h evs))"
  by (induction evs) (auto simp: closed_step split: PairEvent.split prod.splits)

lemma next_failure:
  "k < MAX_PAIRING_ATTEMPTS \<Longrightarrow> saturating_add k 1 = k + 1 \<and> unat (k + 1) = unat k + 1"
  for k :: u8
  by (simp add: saturating_add_def word_less_nat_alt MAX_PAIRING_ATTEMPTS_def unat_word_ariths)

text \<open>One step of an open window, by what the event is.\<close>

lemma open_step_late:
  "state h = Awaiting c e k \<Longrightarrow> e \<le> event_time ev \<Longrightarrow>
     pair_step h ev =
       (case ev of Offer _ _ _ _ \<Rightarrow> Rejected PairingRejection.Expired
                 | Tick _ \<Rightarrow> PairingTransition.Expired,
        h\<lparr>state := Idle\<rparr>)"
  by (cases ev) (simp_all add: accept_pair_def tick_def)

lemma open_step_tick:
  "state h = Awaiting c e k \<Longrightarrow> now < e \<Longrightarrow> pair_step h (Tick now) = (NoOp, h)"
  by (simp add: tick_def less_not_le)

lemma open_step_match:
  "state h = Awaiting c e k \<Longrightarrow> c < PAIRING_CODE_MODULUS \<Longrightarrow> now < e \<Longrightarrow>
     pair_step h (Offer now c name spki) =
       (let r = \<lparr>pr_phone_name = name, pr_client_spki = spki, pr_paired_at_unix_ms = now\<rparr>
        in (Succeeded r, h\<lparr>state := Paired r\<rparr>))"
  by (simp add: accept_pair_def less_not_le)

lemma open_step_wrong:
  assumes "state h = Awaiting c e k" "k < MAX_PAIRING_ATTEMPTS" "now < e" "code \<noteq> c"
  shows "pair_step h (Offer now code name spki) =
     (if unat k + 1 < unat MAX_PAIRING_ATTEMPTS
      then (Rejected (if code \<ge> PAIRING_CODE_MODULUS then OutOfRange else WrongCode),
            h\<lparr>state := Awaiting c e (k + 1)\<rparr>)
      else (Rejected TooManyAttempts, h\<lparr>state := Idle\<rparr>))"
proof -
  have "MAX_PAIRING_ATTEMPTS \<le> k + 1 \<longleftrightarrow> \<not> unat k + 1 < unat MAX_PAIRING_ATTEMPTS"
    using next_failure [OF assms(2)] by (simp only: word_le_nat_alt not_less)
  then show ?thesis
    using assms next_failure [OF assms(2)] by (simp add: accept_pair_def Let_def less_not_le)
qed


lemma window_open_Cons:
  "window_open c e k (ev # evs) \<longleftrightarrow>
     window_open c e k [ev] \<and> window_open c e (k + length (offered [ev])) evs"
  by (cases ev) (auto simp: window_open_def)

text \<open>An open window is open exactly as long as the declarative view says so.\<close>

lemma step_awaiting:
  assumes h: "state h = Awaiting c e k" "c < PAIRING_CODE_MODULUS" "k < MAX_PAIRING_ATTEMPTS"
  shows "if window_open c e (unat k) [ev]
     then \<exists>k'. state (snd (pair_step h ev)) = Awaiting c e k' \<and> k' < MAX_PAIRING_ATTEMPTS
            \<and> unat k' = unat k + length (offered [ev])
     else \<not> is_awaiting (snd (pair_step h ev))"
proof (cases "event_time ev < e")
  case False
  then show ?thesis
    using open_step_late [OF h(1), of ev] by (simp add: window_open_def is_awaiting_def)
next
  case time: True
  show ?thesis
  proof (cases ev)
    case (Tick now)
    then show ?thesis
      using h time open_step_tick [OF h(1), of now]
      by (simp add: window_open_def word_less_nat_alt)
  next
    case (Offer now code name spki)
    show ?thesis
    proof (cases "code = c")
      case True
      then show ?thesis
        using time open_step_match [OF h(1,2), of now name spki] Offer
        by (simp add: Let_def window_open_def is_awaiting_def)
    next
      case False
      then show ?thesis
        using time open_step_wrong [OF h(1,3) _ False, of now name spki] next_failure [OF h(3)] Offer
        by (auto simp: window_open_def is_awaiting_def word_less_nat_alt)
    qed
  qed
qed

lemma run_awaiting:
  assumes "state h = Awaiting c e k" "c < PAIRING_CODE_MODULUS" "k < MAX_PAIRING_ATTEMPTS"
  shows "if window_open c e (unat k) evs
     then \<exists>k'. state (snd (pair_run h evs)) = Awaiting c e k' \<and> k' < MAX_PAIRING_ATTEMPTS
     else \<not> is_awaiting (snd (pair_run h evs))"
  using assms
proof (induction evs arbitrary: h k)
  case Nil
  then show ?case by (simp add: window_open_def word_less_nat_alt)
next
  case (Cons ev evs)
  define h1 where "h1 = snd (pair_step h ev)"
  have run: "snd (pair_run h (ev # evs)) = snd (pair_run h1 evs)"
    by (simp add: h1_def split: prod.split)
  note step = step_awaiting [OF Cons.prems, of ev, folded h1_def]
  show ?case
  proof (cases "window_open c e (unat k) [ev]")
    case True
    then obtain k' where "state h1 = Awaiting c e k'" "k' < MAX_PAIRING_ATTEMPTS"
      "unat k' = unat k + length (offered [ev])" using step by auto
    with Cons.IH [of h1 k'] Cons.prems(2) True show ?thesis
      by (simp add: run window_open_Cons [of c e _ ev evs] del: pair_run.simps)
  next
    case False
    then have "\<not> is_awaiting h1" using step by simp
    with False show ?thesis
      by (simp add: run closed_run window_open_Cons [of c e _ ev evs] del: pair_run.simps)
  qed
qed

lemma accept_closed: "\<not> is_awaiting h \<Longrightarrow> accept_pair h now code name spki = (Rejected NotInWindow, h)"
  using closed_step [of h "Offer now code name spki"] by simp

lemma handshake_inv_step:
  "handshake_inv h \<Longrightarrow> handshake_inv (snd (pair_step h ev))"
  by (cases ev)
    (auto simp: handshake_inv_def accept_pair_def tick_def Let_def not_le
      split: PairingState.splits if_splits)

lemma success_within_budget:
  assumes "state h = Awaiting c e k" "c < PAIRING_CODE_MODULUS" "k < MAX_PAIRING_ATTEMPTS"
    and "Succeeded r \<in> set (fst (pair_run h evs))"
  shows "c \<in> set (take (unat MAX_PAIRING_ATTEMPTS - unat k) (offered evs))"
  using assms
proof (induction evs arbitrary: h k)
  case Nil
  then show ?case by simp
next
  case (Cons ev evs)
  define h1 where "h1 = snd (pair_step h ev)"
  have room: "unat k < unat MAX_PAIRING_ATTEMPTS" using Cons.prems(3) by (simp add: word_less_nat_alt)
  have cases: "Succeeded r = fst (pair_step h ev) \<or> Succeeded r \<in> set (fst (pair_run h1 evs))"
    using Cons.prems(4) by (auto simp: h1_def split: prod.splits)
  show ?case
  proof (cases "window_open c e (unat k) [ev]")
    case True
    then obtain k' where h1: "state h1 = Awaiting c e k'" "k' < MAX_PAIRING_ATTEMPTS"
      "unat k' = unat k + length (offered [ev])"
      using step_awaiting [OF Cons.prems(1-3), of ev] by (auto simp: h1_def)
    have "Succeeded r \<noteq> fst (pair_step h ev)"
      using h1(1) by (cases ev) (auto simp: h1_def accept_pair_def tick_def Let_def
          split: PairingState.splits if_splits)
    with cases have "Succeeded r \<in> set (fst (pair_run h1 evs))" by blast
    from Cons.IH [OF h1(1) Cons.prems(2) h1(2) this] h1(3) room show ?thesis
      by (cases ev) (auto simp: take_Cons' )
  next
    case False
    then have "\<not> is_awaiting h1"
      using step_awaiting [OF Cons.prems(1-3), of ev] by (simp add: h1_def)
    then have "Succeeded r = fst (pair_step h ev)" using cases closed_run_no_success by blast
    then obtain now name spki where "ev = Offer now c name spki"
      using Cons.prems(1) by (cases ev) (auto simp: accept_pair_def tick_def Let_def split: if_splits)
    then show ?thesis using room by (simp add: take_Cons')
  qed
qed

lemma uniform_preimage:
  assumes "c < PAIRING_CODE_MODULUS"
  shows "card {raw. raw < RESAMPLE_THRESHOLD \<and> raw mod PAIRING_CODE_MODULUS = c} = 4294"
proof -
  let ?f = "\<lambda>q. of_nat (q * 1000000 + unat c) :: u32"
  have c: "unat c < 1000000" using assms by (simp add: PAIRING_CODE_MODULUS_def word_less_nat_alt)
  have f: "unat (?f q) = q * 1000000 + unat c" if "q < 4294" for q
    unfolding unat_of_nat using that c by simp
  have "{raw. raw < RESAMPLE_THRESHOLD \<and> raw mod PAIRING_CODE_MODULUS = c} = ?f ` {..<4294}"
  proof (intro equalityI subsetI)
    fix raw assume "raw \<in> {raw. raw < RESAMPLE_THRESHOLD \<and> raw mod PAIRING_CODE_MODULUS = c}"
    then have lt: "unat raw < 4294000000" and m: "unat raw mod 1000000 = unat c"
      by (auto simp: RESAMPLE_THRESHOLD_eq PAIRING_CODE_MODULUS_def word_less_nat_alt unat_mod)
    have "raw = ?f (unat raw div 1000000)"
      using m div_mult_mod_eq [of "unat raw" 1000000] by simp
    moreover have "unat raw div 1000000 < 4294" using lt by (simp add: less_mult_imp_div_less)
    ultimately show "raw \<in> ?f ` {..<4294}" by blast
  next
    fix raw assume "raw \<in> ?f ` {..<4294}"
    then obtain q where q: "q < 4294" "raw = ?f q" by blast
    then have "unat raw = q * 1000000 + unat c" using f by simp
    then show "raw \<in> {raw. raw < RESAMPLE_THRESHOLD \<and> raw mod PAIRING_CODE_MODULUS = c}"
      using q(1) c
      by (auto simp: RESAMPLE_THRESHOLD_eq PAIRING_CODE_MODULUS_def word_less_nat_alt
          word_unat_eq_iff unat_mod)
  qed
  moreover have "inj_on ?f {..<4294}"
  proof (rule inj_onI)
    fix q q' assume "q \<in> {..<4294}" "q' \<in> {..<4294}" "?f q = ?f q'"
    then have "q * 1000000 + unat c = q' * 1000000 + unat c"
      using f [of q] f [of q'] by (metis lessThan_iff)
    then show "q = q'" by simp
  qed
  ultimately show ?thesis by (simp add: card_image)
qed

lemma constant_draw:
  "random_pairing_code (\<lambda>_. Inr (rev (u32_to_be_bytes raw))) 0 = Some (Inr c, 1) \<longleftrightarrow>
     raw < RESAMPLE_THRESHOLD \<and> raw mod PAIRING_CODE_MODULUS = c"
proof -
  have le: "u32_from_le_bytes (rev (u32_to_be_bytes raw)) = raw"
    using u32_be_roundtrip [of raw] by (simp add: u32_from_le_bytes_def u32_from_be_bytes_def)
  show ?thesis
  proof (cases "raw < RESAMPLE_THRESHOLD")
    case True
    then show ?thesis
      using random_code_stop [of "\<lambda>_. Inr (rev (u32_to_be_bytes raw))" 0] le
      by (simp add: draw_ends_def)
  next
    case False
    then have "\<nexists>r. random_pairing_code (\<lambda>_. Inr (rev (u32_to_be_bytes raw))) 0 = Some r"
      unfolding random_code_terminates_iff by (simp add: draw_ends_def le)
    with False show ?thesis by simp
  qed
qed

lemma start_idle:
  "state h = Idle \<Longrightarrow> draw_ends (rng i) \<Longrightarrow>
     start rng i h now ttl =
       (case rng i of
          Inl e \<Rightarrow> Some (Inl (OsRng e), h, Suc i)
        | Inr buf \<Rightarrow>
            let code = u32_from_le_bytes buf mod PAIRING_CODE_MODULUS in
            Some (Inr (Started code),
                  h\<lparr>state := Awaiting code (saturating_add now ttl) 0\<rparr>, Suc i))"
  by (simp add: start_def random_code_stop Let_def split: sum.split)

lemma start_inv:
  "handshake_inv h \<Longrightarrow> start rng i h now ttl = Some (r, h', j) \<Longrightarrow> handshake_inv h'"
  using random_code_range [of rng i]
  by (auto simp: start_def handshake_inv_def MAX_PAIRING_ATTEMPTS_def Let_def
      split: if_splits option.splits sum.splits)

lemma idle_inv [simp]: "state h = Idle \<Longrightarrow> handshake_inv h"
  by (simp add: handshake_inv_def)

subsection \<open>Properties\<close>

text \<open>
  The pairing code is fair: over a uniform four byte draw, every code below one million is
  returned by the first draw for exactly 4294 of the \<open>2 ^ 32\<close> draws, so the rejection sampling has
  no modulo bias.
\<close>
lemma pairing_code_uniform:
  assumes "c < PAIRING_CODE_MODULUS"
  shows "card {raw. random_pairing_code (\<lambda>_. Inr (rev (u32_to_be_bytes raw))) 0 = Some (Inr c, 1)}
     = 4294"
  unfolding constant_draw using assms by (rule uniform_preimage)

lemma pairing_code_uniform_example:
  "card {raw. random_pairing_code (\<lambda>_. Inr (rev (u32_to_be_bytes raw))) 0 = Some (Inr 999999, 1)}
     = 4294"
  by (rule pairing_code_uniform) (simp add: PAIRING_CODE_MODULUS_def)

text \<open>
  C38: The sampling loop returns if and only if some later call of the random source fails or
  yields a value below the threshold, and a code it returns is below one million.
\<close>
theorem pairing_code_terminates:
  "((\<exists>r. random_pairing_code rng i = Some r) \<longleftrightarrow>
      (\<exists>k. i \<le> k \<and> (case rng k of
         Inl _ \<Rightarrow> True
       | Inr buf \<Rightarrow> u32_from_le_bytes buf < RESAMPLE_THRESHOLD)))
   \<and> (case random_pairing_code rng i of
        Some (Inr c, j) \<Rightarrow> c < PAIRING_CODE_MODULUS
      | _ \<Rightarrow> True)"
  using random_code_terminates_iff [of rng i] random_code_range [of rng i]
  by (auto simp: draw_ends_def split: option.split sum.split)

text \<open>
  C25: The exact acceptance condition of a \<open>Pair\<close> frame. In a window opened with a code below one
  million, after any history of frames and ticks, a frame is accepted if and only if it carries
  the code, it and everything before it came before the expiry, no earlier frame carried the
  code, and fewer than five frames came before it. The record holds the frame's name, the peer's
  identity and the time of acceptance.
\<close>
theorem pair_accepted_iff:
  assumes "c < PAIRING_CODE_MODULUS"
  shows "fst (accept_pair (snd (pair_run \<lparr>state = Awaiting c e 0\<rparr> evs)) now code name spki)
           = Succeeded r
     \<longleftrightarrow> code = c \<and> now < e \<and> (\<forall>ev \<in> set evs. event_time ev < e) \<and> c \<notin> set (offered evs)
         \<and> length (offered evs) < 5
         \<and> r = \<lparr>pr_phone_name = name, pr_client_spki = spki, pr_paired_at_unix_ms = now\<rparr>"
proof -
  let ?h = "snd (pair_run \<lparr>state = Awaiting c e 0\<rparr> evs)"
  have open_iff: "window_open c e 0 evs \<longleftrightarrow>
      (\<forall>ev \<in> set evs. event_time ev < e) \<and> c \<notin> set (offered evs) \<and> length (offered evs) < 5"
    by (simp add: window_open_def MAX_PAIRING_ATTEMPTS_def)
  have run: "if window_open c e 0 evs then \<exists>k. state ?h = Awaiting c e k else \<not> is_awaiting ?h"
    using run_awaiting [of "\<lparr>state = Awaiting c e 0\<rparr>" c e 0 evs] assms
    by (auto simp: MAX_PAIRING_ATTEMPTS_def split: if_splits)
  show ?thesis
  proof (cases "window_open c e 0 evs")
    case True
    then obtain k where "state ?h = Awaiting c e k" using run by auto
    then show ?thesis
      using True assms unfolding open_iff by (auto simp: accept_pair_def Let_def not_le)
  next
    case False
    then show ?thesis using run accept_closed [of ?h] unfolding open_iff by auto
  qed
qed

theorem pair_accepted_iff_witness:
  "fst (accept_pair (snd (pair_run \<lparr>state = Awaiting 42 100 0\<rparr>
      [Offer 1 7 ''a'' (SpkiHash []), Tick 50])) 99 42 ''phone'' (SpkiHash [1]))
   = Succeeded \<lparr>pr_phone_name = ''phone'', pr_client_spki = SpkiHash [1], pr_paired_at_unix_ms = 99\<rparr>"
  by (subst pair_accepted_iff) (simp_all add: PAIRING_CODE_MODULUS_def)

text \<open>
  The brute-force bound: whatever frames an attacker sends and whenever, of the one million
  codes a window can have at most five are codes for which that sequence gets the attacker
  paired.
\<close>
lemma pairing_bruteforce_bound:
  "card {c. c < PAIRING_CODE_MODULUS
            \<and> (\<exists>r. Succeeded r \<in> set (fst (pair_run \<lparr>state = Awaiting c e 0\<rparr> evs)))} \<le> 5"
proof -
  have "{c. c < PAIRING_CODE_MODULUS
            \<and> (\<exists>r. Succeeded r \<in> set (fst (pair_run \<lparr>state = Awaiting c e 0\<rparr> evs)))}
        \<subseteq> set (take 5 (offered evs))"
    using success_within_budget [of "\<lparr>state = Awaiting _ e 0\<rparr>" _ e 0]
    by (fastforce simp: MAX_PAIRING_ATTEMPTS_def)
  then have "card {c. c < PAIRING_CODE_MODULUS
            \<and> (\<exists>r. Succeeded r \<in> set (fst (pair_run \<lparr>state = Awaiting c e 0\<rparr> evs)))}
        \<le> card (set (take 5 (offered evs)))"
    by (intro card_mono) simp_all
  also have "\<dots> \<le> 5"
    by (rule order_trans [OF card_length]) simp
  finally show ?thesis .
qed

text \<open>
  Every operation of the handshake keeps its state well formed: a displayed code is below one
  million and fewer than \<open>MAX_PAIRING_ATTEMPTS\<close> failures are recorded while the window is open; a
  fresh or a reset handshake is idle.
\<close>
lemma handshake_invariant:
  assumes "handshake_inv h"
  shows "handshake_inv (snd (accept_pair h now code name spki))
     \<and> handshake_inv (snd (tick h now)) \<and> handshake_inv (reset h) \<and> handshake_inv handshake_new
     \<and> (case start rng i h now ttl of Some (r, h', j) \<Rightarrow> handshake_inv h' | None \<Rightarrow> True)"
  using assms handshake_inv_step [of h "Offer now code name spki"] handshake_inv_step [of h "Tick now"]
    start_inv [of h rng i now ttl]
  by (auto simp: reset_def handshake_new_def split: option.split)

lemma handshake_invariant_example:
  "handshake_inv (snd (accept_pair \<lparr>state = Awaiting 42 100 4\<rparr> 1 7 ''a'' (SpkiHash [])))
   \<and> state (snd (accept_pair \<lparr>state = Awaiting 42 100 4\<rparr> 1 7 ''a'' (SpkiHash []))) = Idle"
proof -
  have "handshake_inv \<lparr>state = Awaiting 42 100 4\<rparr>"
    by (simp add: handshake_inv_def pairing_consts)
  then show ?thesis
    using handshake_invariant [of "\<lparr>state = Awaiting 42 100 4\<rparr>" 1 7 "''a''" "SpkiHash []"]
    by (simp add: accept_pair_def pairing_consts saturating_add_def)
qed

end
