(* ===== verification/Daemon_Pairings.thy ===== *)
theory Daemon_Pairings
  imports Daemon_Config Crypto_Pairing
begin

section \<open>The daemon's pairing records\<close>

text \<open>
  \<open>daemon/src/pairings.rs\<close>. The record of a paired phone in the keystore, its version 1 layout and
  the migration. The record of the core crate is \<open>PairingRecord\<close> of \<open>Crypto_Pairing\<close>.
\<close>

record DaemonPairingRecord =
  phone_name :: string
  client_spki :: SpkiHash
  paired_at_unix_ms :: u64
  last_authenticated_at_unix_ms :: u64
  revoked :: bool
  revoke_pending :: bool
  last_known_address :: "SocketAddr option"

definition from_core :: "PairingRecord \<Rightarrow> DaemonPairingRecord" where
  "from_core r =
     \<lparr>phone_name = pr_phone_name r, client_spki = pr_client_spki r,
      paired_at_unix_ms = pr_paired_at_unix_ms r,
      last_authenticated_at_unix_ms = pr_paired_at_unix_ms r,
      revoked = False, revoke_pending = False, last_known_address = None\<rparr>"

definition is_active :: "DaemonPairingRecord \<Rightarrow> bool" where
  "is_active p \<longleftrightarrow> \<not> revoked p"

record PairingRecordV1 =
  phone_name_v1 :: string
  client_spki_v1 :: SpkiHash
  paired_at_unix_ms_v1 :: u64
  last_authenticated_at_unix_ms_v1 :: u64
  revoked_v1 :: bool
  revoke_pending_v1 :: bool

definition pairing_from_v1 :: "PairingRecordV1 \<Rightarrow> DaemonPairingRecord" where
  "pairing_from_v1 v =
     \<lparr>phone_name = phone_name_v1 v, client_spki = client_spki_v1 v,
      paired_at_unix_ms = paired_at_unix_ms_v1 v,
      last_authenticated_at_unix_ms = last_authenticated_at_unix_ms_v1 v,
      revoked = revoked_v1 v, revoke_pending = revoke_pending_v1 v,
      last_known_address = None\<rparr>"

lemma from_core_fields [simp]:
  "client_spki (from_core r) = pr_client_spki r"
  "phone_name (from_core r) = pr_phone_name r"
  "is_active (from_core r)"
  by (simp_all add: from_core_def is_active_def)

lemma pairing_from_v1_fields [simp]:
  "client_spki (pairing_from_v1 v) = client_spki_v1 v"
  "is_active (pairing_from_v1 v) = (\<not> revoked_v1 v)"
  "last_known_address (pairing_from_v1 v) = None"
  by (simp_all add: pairing_from_v1_def is_active_def)

end
