(* ===== verification/Crypto_Pins.thy ===== *)
theory Crypto_Pins
  imports Crypto_Error
begin

section \<open>SPKI hashes, pin sets and certificate verifiers\<close>

text \<open>
  \<open>core/src/crypto/spki.rs\<close> and \<open>core/src/crypto/pin.rs\<close>. SHA-256 and the X.509 parser are foreign
  (\<open>sha2\<close>, \<open>x509-parser\<close>): they are the fields of \<open>x509_lib\<close>. The signature checks are foreign too
  (\<open>rustls\<close>): they are the fields of \<open>crypto_provider\<close>. A \<open>BTreeSet\<close> of hashes is a set, iterated
  in the order of its elements. Certificate and key bytes are DER.
\<close>

record x509_lib =
  sha256 :: "bytes \<Rightarrow> bytes"
  parse_subject_pki :: "bytes \<Rightarrow> string + bytes"

text \<open>\<open>signature_algs\<close> is the provider's algorithm list, opaque to the source.\<close>

type_synonym signature_algs = "string list"

record crypto_provider =
  signature_verification_algorithms :: signature_algs
  rustls_verify_tls12 :: "bytes \<Rightarrow> bytes \<Rightarrow> bytes \<Rightarrow> signature_algs \<Rightarrow> string + unit"
  rustls_verify_tls13 :: "bytes \<Rightarrow> bytes \<Rightarrow> bytes \<Rightarrow> signature_algs \<Rightarrow> string + unit"
  rustls_supported_schemes :: "signature_algs \<Rightarrow> string list"

subsection \<open>SPKI hashes\<close>

definition compute_spki_hash :: "x509_lib \<Rightarrow> bytes \<Rightarrow> SpkiHash" where
  "compute_spki_hash lib spki_der = SpkiHash (sha256 lib spki_der)"

definition extract_spki_hash :: "x509_lib \<Rightarrow> bytes \<Rightarrow> CryptoError + SpkiHash" where
  "extract_spki_hash lib cert_der =
     (case map_err X509Parse (parse_subject_pki lib cert_der) of
        Inl e \<Rightarrow> Inl e
      | Inr spki_der \<Rightarrow> Inr (compute_spki_hash lib spki_der))"

subsection \<open>Pin sets\<close>

record PinSet =
  pins :: "SpkiHash set"

definition pinset_new :: PinSet where
  "pinset_new = \<lparr>pins = {}\<rparr>"

definition with_pins :: "SpkiHash list \<Rightarrow> PinSet" where
  "with_pins xs = \<lparr>pins = set xs\<rparr>"

definition pinset_contains :: "PinSet \<Rightarrow> SpkiHash \<Rightarrow> bool" where
  "pinset_contains p pin \<longleftrightarrow> pin \<in> pins p"

definition pinset_len :: "PinSet \<Rightarrow> nat" where
  "pinset_len p = card (pins p)"

definition pinset_is_empty :: "PinSet \<Rightarrow> bool" where
  "pinset_is_empty p \<longleftrightarrow> pins p = {}"

definition pinset_iter :: "PinSet \<Rightarrow> SpkiHash list" where
  "pinset_iter p = sorted_list_of_set (pins p)"

subsection \<open>Verifiers\<close>

text \<open>\<open>rustls::Error::General\<close> with its text; the text of a parse error is \<open>x509_text\<close>.\<close>

fun crypto_error_text :: "CryptoError \<Rightarrow> string" where
  "crypto_error_text (X509Parse m) = ''x509 parse failed: '' @ m"
| "crypto_error_text (CertGeneration m) = ''device cert generation failed: '' @ m"
| "crypto_error_text (IdentityLoad m) = ''device identity could not be loaded: '' @ m"
| "crypto_error_text (RustlsConfig m) = ''rustls config build failed: '' @ m"
| "crypto_error_text (Nonce _) = ''nonce replay''"
| "crypto_error_text (PairingState m) = ''pairing state machine: '' @ m"
| "crypto_error_text (OsRng m) = ''os rng failed: '' @ m"

record PinnedServerVerifier =
  sv_pinset :: PinSet
  sv_supported_algs :: signature_algs

definition server_verifier_new :: "PinSet \<Rightarrow> crypto_provider \<Rightarrow> PinnedServerVerifier" where
  "server_verifier_new pinset provider =
     \<lparr>sv_pinset = pinset,
      sv_supported_algs = signature_verification_algorithms provider\<rparr>"

definition verify_server_cert ::
    "x509_lib \<Rightarrow> PinnedServerVerifier \<Rightarrow> bytes \<Rightarrow> string + unit" where
  "verify_server_cert lib v end_entity =
     (case extract_spki_hash lib end_entity of
        Inl e \<Rightarrow> Inl (''spki extract: '' @ crypto_error_text e)
      | Inr pin \<Rightarrow>
          if pinset_contains (sv_pinset v) pin then Inr ()
          else Inl ''server SPKI not pinned'')"

datatype VerifierMode = Pinned PinSet | PairingWindow

record PinnedClientVerifier =
  cv_mode :: VerifierMode
  cv_supported_algs :: signature_algs

definition client_verifier_pinned :: "PinSet \<Rightarrow> crypto_provider \<Rightarrow> PinnedClientVerifier" where
  "client_verifier_pinned pinset provider =
     \<lparr>cv_mode = Pinned pinset,
      cv_supported_algs = signature_verification_algorithms provider\<rparr>"

definition client_verifier_pairing_window :: "crypto_provider \<Rightarrow> PinnedClientVerifier" where
  "client_verifier_pairing_window provider =
     \<lparr>cv_mode = PairingWindow,
      cv_supported_algs = signature_verification_algorithms provider\<rparr>"

definition root_hint_subjects :: "PinnedClientVerifier \<Rightarrow> bytes list" where
  "root_hint_subjects v = []"

definition verify_client_cert ::
    "x509_lib \<Rightarrow> PinnedClientVerifier \<Rightarrow> bytes \<Rightarrow> string + unit" where
  "verify_client_cert lib v end_entity =
     (case cv_mode v of
        Pinned pinset \<Rightarrow>
          (case extract_spki_hash lib end_entity of
             Inl e \<Rightarrow> Inl (''spki extract: '' @ crypto_error_text e)
           | Inr pin \<Rightarrow>
               if pinset_contains pinset pin then Inr ()
               else Inl ''client SPKI not pinned'')
      | PairingWindow \<Rightarrow>
          (case extract_spki_hash lib end_entity of
             Inl e \<Rightarrow> Inl (''spki extract: '' @ crypto_error_text e)
           | Inr _ \<Rightarrow> Inr ()))"

definition server_verify_tls12_signature ::
    "crypto_provider \<Rightarrow> PinnedServerVerifier \<Rightarrow> bytes \<Rightarrow> bytes \<Rightarrow> bytes \<Rightarrow> string + unit" where
  "server_verify_tls12_signature p v message cert dss =
     rustls_verify_tls12 p message cert dss (sv_supported_algs v)"

definition server_verify_tls13_signature ::
    "crypto_provider \<Rightarrow> PinnedServerVerifier \<Rightarrow> bytes \<Rightarrow> bytes \<Rightarrow> bytes \<Rightarrow> string + unit" where
  "server_verify_tls13_signature p v message cert dss =
     rustls_verify_tls13 p message cert dss (sv_supported_algs v)"

definition server_supported_verify_schemes ::
    "crypto_provider \<Rightarrow> PinnedServerVerifier \<Rightarrow> string list" where
  "server_supported_verify_schemes p v = rustls_supported_schemes p (sv_supported_algs v)"

definition client_verify_tls12_signature ::
    "crypto_provider \<Rightarrow> PinnedClientVerifier \<Rightarrow> bytes \<Rightarrow> bytes \<Rightarrow> bytes \<Rightarrow> string + unit" where
  "client_verify_tls12_signature p v message cert dss =
     rustls_verify_tls12 p message cert dss (cv_supported_algs v)"

definition client_verify_tls13_signature ::
    "crypto_provider \<Rightarrow> PinnedClientVerifier \<Rightarrow> bytes \<Rightarrow> bytes \<Rightarrow> bytes \<Rightarrow> string + unit" where
  "client_verify_tls13_signature p v message cert dss =
     rustls_verify_tls13 p message cert dss (cv_supported_algs v)"

definition client_supported_verify_schemes ::
    "crypto_provider \<Rightarrow> PinnedClientVerifier \<Rightarrow> string list" where
  "client_supported_verify_schemes p v = rustls_supported_schemes p (cv_supported_algs v)"

subsection \<open>Facts\<close>

lemma extract_Inr:
  "extract_spki_hash lib cert = Inr h \<longleftrightarrow>
     (\<exists>d. parse_subject_pki lib cert = Inr d \<and> h = SpkiHash (sha256 lib d))"
  by (auto simp: extract_spki_hash_def compute_spki_hash_def map_err_def split: sum.splits)

lemma verify_client_pinned:
  "is_ok (verify_client_cert lib (client_verifier_pinned ps provider) cert) \<longleftrightarrow>
     (\<exists>h. extract_spki_hash lib cert = Inr h \<and> h \<in> pins ps)"
  by (auto simp: verify_client_cert_def client_verifier_pinned_def pinset_contains_def
      split: sum.split)

lemma verify_client_window:
  "is_ok (verify_client_cert lib (client_verifier_pairing_window provider) cert) \<longleftrightarrow>
     (\<exists>h. extract_spki_hash lib cert = Inr h)"
  by (auto simp: verify_client_cert_def client_verifier_pairing_window_def split: sum.split)

lemma verify_server_pinned:
  "is_ok (verify_server_cert lib (server_verifier_new ps provider) cert) \<longleftrightarrow>
     (\<exists>h. extract_spki_hash lib cert = Inr h \<and> h \<in> pins ps)"
  by (auto simp: verify_server_cert_def server_verifier_new_def pinset_contains_def
      split: sum.split)

subsection \<open>Properties\<close>

text \<open>
  A pin set built from a list is the set of its members, whatever the order and the
  duplicates: membership, length, emptiness and iteration agree with it, and iteration is
  strictly ascending, so equal sets are iterated alike.
\<close>
lemma pinset_is_set_of_pins:
  "(pinset_contains (with_pins xs) h \<longleftrightarrow> h \<in> set xs)
   \<and> set (pinset_iter (with_pins xs)) = set xs
   \<and> sorted_wrt (<) (pinset_iter (with_pins xs))
   \<and> length (pinset_iter (with_pins xs)) = pinset_len (with_pins xs)
   \<and> pinset_len (with_pins xs) \<le> length xs
   \<and> (pinset_is_empty (with_pins xs) \<longleftrightarrow> pinset_len (with_pins xs) = 0)"
  by (simp add: pinset_contains_def with_pins_def pinset_iter_def pinset_len_def
      pinset_is_empty_def card_length strict_sorted_iff)

text \<open>
  The pin is the authentication: the running verifier and the phone's verifier accept a
  certificate exactly if it parses and the hash of its key is pinned, so under a hash without
  collisions a certificate with another key is refused; the pairing-window verifier accepts
  exactly the certificates that parse.
\<close>
lemma verifiers_accept_exactly_pins:
  "(is_ok (verify_client_cert lib (client_verifier_pinned (with_pins xs) provider) cert) \<longleftrightarrow>
      (\<exists>d. parse_subject_pki lib cert = Inr d \<and> compute_spki_hash lib d \<in> set xs))
   \<and> (is_ok (verify_server_cert lib (server_verifier_new (with_pins xs) provider) cert) \<longleftrightarrow>
      (\<exists>d. parse_subject_pki lib cert = Inr d \<and> compute_spki_hash lib d \<in> set xs))
   \<and> (is_ok (verify_client_cert lib (client_verifier_pairing_window provider) cert) \<longleftrightarrow>
      is_ok (parse_subject_pki lib cert))"
  unfolding verify_client_pinned verify_server_pinned verify_client_window
  by (auto simp: extract_Inr compute_spki_hash_def with_pins_def is_ok_iff)

end
