(* ===== verification/Crypto_Device.thy ===== *)
theory Crypto_Device
  imports Crypto_Pins
begin

section \<open>Device identities\<close>

text \<open>
  \<open>core/src/crypto/device.rs\<close>. Key generation and certificate signing are foreign (\<open>rcgen\<close>); they
  are the fields of \<open>rcgen_lib\<close>, in which a key pair is represented by its PKCS#8 DER, the only
  thing the source reads of it.
\<close>

type_synonym keypair = bytes

record rcgen_lib =
  generate_for :: "string + keypair"
  from_pkcs8_der_and_sign_algo :: "bytes \<Rightarrow> string + keypair"
  certificate_params_new :: "string + unit"
  self_signed :: "string \<Rightarrow> keypair \<Rightarrow> string + bytes"
  serialize_der :: "keypair \<Rightarrow> bytes"

record DeviceIdentityBytes =
  key_pkcs8_der :: bytes
  cert_der :: bytes

record DeviceIdentity =
  id_key_pkcs8_der :: bytes
  id_cert_der :: bytes
  id_spki_hash :: SpkiHash

definition build_from_keypair ::
    "rcgen_lib \<Rightarrow> x509_lib \<Rightarrow> keypair \<Rightarrow> CryptoError + DeviceIdentity" where
  "build_from_keypair rc lib key_pair =
     (case map_err CertGeneration (certificate_params_new rc) of
        Inl e \<Rightarrow> Inl e
      | Inr _ \<Rightarrow>
          (case map_err CertGeneration (self_signed rc ''wake-my-pc-device'' key_pair) of
             Inl e \<Rightarrow> Inl e
           | Inr cert \<Rightarrow>
               (case extract_spki_hash lib cert of
                  Inl e \<Rightarrow> Inl e
                | Inr h \<Rightarrow> Inr \<lparr>id_key_pkcs8_der = serialize_der rc key_pair, id_cert_der = cert,
                             id_spki_hash = h\<rparr>)))"

definition device_generate :: "rcgen_lib \<Rightarrow> x509_lib \<Rightarrow> CryptoError + DeviceIdentity" where
  "device_generate rc lib =
     (case map_err CertGeneration (generate_for rc) of
        Inl e \<Rightarrow> Inl e
      | Inr key_pair \<Rightarrow> build_from_keypair rc lib key_pair)"

definition device_from_bytes ::
    "rcgen_lib \<Rightarrow> x509_lib \<Rightarrow> DeviceIdentityBytes \<Rightarrow> CryptoError + DeviceIdentity" where
  "device_from_bytes rc lib b =
     (case map_err IdentityLoad (from_pkcs8_der_and_sign_algo rc (key_pkcs8_der b)) of
        Inl e \<Rightarrow> Inl e
      | Inr _ \<Rightarrow>
          (case extract_spki_hash lib (cert_der b) of
             Inl e \<Rightarrow> Inl e
           | Inr h \<Rightarrow> Inr \<lparr>id_key_pkcs8_der = key_pkcs8_der b, id_cert_der = cert_der b,
                        id_spki_hash = h\<rparr>))"

definition device_to_bytes :: "DeviceIdentity \<Rightarrow> DeviceIdentityBytes" where
  "device_to_bytes i = \<lparr>key_pkcs8_der = id_key_pkcs8_der i, cert_der = id_cert_der i\<rparr>"

text \<open>The cached hash is the hash of the certificate.\<close>

definition identity_inv :: "x509_lib \<Rightarrow> DeviceIdentity \<Rightarrow> bool" where
  "identity_inv lib i \<longleftrightarrow> extract_spki_hash lib (id_cert_der i) = Inr (id_spki_hash i)"

lemma device_from_bytes_Inr:
  "device_from_bytes rc lib b = Inr i \<longleftrightarrow>
     is_ok (from_pkcs8_der_and_sign_algo rc (key_pkcs8_der b))
     \<and> extract_spki_hash lib (cert_der b) = Inr (id_spki_hash i)
     \<and> id_key_pkcs8_der i = key_pkcs8_der b \<and> id_cert_der i = cert_der b"
  by (cases i) (auto simp: device_from_bytes_def map_err_def is_ok_iff split: sum.splits)

lemma device_generate_Inr:
  "device_generate rc lib = Inr i \<Longrightarrow>
     \<exists>k. generate_for rc = Inr k \<and> id_key_pkcs8_der i = serialize_der rc k
         \<and> self_signed rc ''wake-my-pc-device'' k = Inr (id_cert_der i) \<and> identity_inv lib i"
  by (auto simp: device_generate_def build_from_keypair_def map_err_def identity_inv_def
      split: sum.splits)

subsection \<open>Properties\<close>

text \<open>
  A generated identity survives the keystore: storing the bytes of a freshly generated
  identity and loading them again gives the same key, certificate and hash, where a serialised
  Ed25519 key parses again, and the hash cached in an identity, generated or loaded, is the hash
  of its certificate.
\<close>
lemma device_identity_roundtrip:
  assumes "\<And>k. generate_for rc = Inr k \<Longrightarrow>
      is_ok (from_pkcs8_der_and_sign_algo rc (serialize_der rc k))"
    and "device_generate rc lib = Inr i"
  shows "device_from_bytes rc lib (device_to_bytes i) = Inr i \<and> identity_inv lib i"
  using device_generate_Inr [OF assms(2)] assms(1)
  by (auto simp: device_from_bytes_Inr device_to_bytes_def identity_inv_def)

definition sample_rcgen :: rcgen_lib where
  "sample_rcgen =
     \<lparr>generate_for = Inr [7, 7],
      from_pkcs8_der_and_sign_algo = (\<lambda>b. if b = [] then Inl ''empty'' else Inr b),
      certificate_params_new = Inr (),
      self_signed = (\<lambda>cn k. Inr (0x30 # k)),
      serialize_der = (\<lambda>k. k)\<rparr>"

definition sample_x509 :: x509_lib where
  "sample_x509 =
     \<lparr>sha256 = (\<lambda>b. take 32 (b @ replicate 32 0)),
      parse_subject_pki =
        (\<lambda>c. case c of [] \<Rightarrow> Inl ''not a certificate''
                     | t # k \<Rightarrow> if t = 0x30 then Inr k else Inl ''not a certificate'')\<rparr>"

lemma device_identity_roundtrip_example:
  "\<exists>i. device_generate sample_rcgen sample_x509 = Inr i
       \<and> device_from_bytes sample_rcgen sample_x509 (device_to_bytes i) = Inr i"
proof -
  obtain i where i: "device_generate sample_rcgen sample_x509 = Inr i"
    by (simp add: device_generate_def build_from_keypair_def sample_rcgen_def sample_x509_def
        extract_spki_hash_def)
  have "device_from_bytes sample_rcgen sample_x509 (device_to_bytes i) = Inr i
        \<and> identity_inv sample_x509 i"
    by (rule device_identity_roundtrip) (use i in \<open>auto simp: sample_rcgen_def\<close>)
  with i show ?thesis by blast
qed

end
