(* ===== verification/Wire_Primitives.thy ===== *)
theory Wire_Primitives
  imports Prelude
begin

section \<open>Readers and writers of the postcard wire format\<close>

text \<open>
  The repository does not hold the source of \<open>postcard\<close>; it fixes the bytes it expects of it in
  \<open>core/tests/protocol_kat.rs\<close>: a variant is a varint of its index, a varint is LEB128 low bits
  first with the continuation in the top bit, a \<open>String\<close> is a varint length and UTF-8 bytes, and
  an array is its elements. This theory holds writers and readers for these pieces. They are
  not the model of any code under \<open>src/\<close>: they make the concrete codecs at which the laws of the
  parameter \<open>codec\<close> are shown to hold and at which witnesses run.
\<close>

type_synonym 'a reader = "bytes \<Rightarrow> ('a \<times> bytes) option"

definition rbind :: "'a reader \<Rightarrow> ('a \<Rightarrow> 'b reader) \<Rightarrow> 'b reader" where
  "rbind r f bs = (case r bs of None \<Rightarrow> None | Some (x, rest) \<Rightarrow> f x rest)"

definition rreturn :: "'a \<Rightarrow> 'a reader" where
  "rreturn x bs = Some (x, bs)"

definition rfail :: "'a reader" where
  "rfail bs = None"

lemma rbind_Some [simp]: "r bs = Some (x, rest) \<Longrightarrow> rbind r f bs = f x rest"
  by (simp add: rbind_def)

lemma rreturn_apply [simp]: "rreturn x bs = Some (x, bs)"
  by (simp add: rreturn_def)

lemma rfail_apply [simp]: "rfail bs = None"
  by (simp add: rfail_def)

subsection \<open>Varints\<close>

fun put_varint :: "nat \<Rightarrow> bytes" where
  "put_varint n = (if n < 128 then [of_nat n] else of_nat (n mod 128 + 128) # put_varint (n div 128))"

declare put_varint.simps [simp del]

text \<open>\<open>get_leb k\<close> reads at most \<open>k\<close> bytes: five for a \<open>u32\<close>, ten for a \<open>u64\<close>.\<close>

primrec get_leb :: "nat \<Rightarrow> nat reader" where
  "get_leb 0 bs = None"
| "get_leb (Suc k) bs =
     (case bs of
        [] \<Rightarrow> None
      | b # rest \<Rightarrow>
          if unat b < 128 then Some (unat b, rest)
          else (case get_leb k rest of
                  None \<Rightarrow> None
                | Some (n, rest') \<Rightarrow> Some (unat b - 128 + 128 * n, rest')))"

definition get_varint :: "nat \<Rightarrow> nat \<Rightarrow> nat reader" where
  "get_varint k bits bs =
     (case get_leb k bs of
        None \<Rightarrow> None
      | Some (n, rest) \<Rightarrow> if n < 2 ^ bits then Some (n, rest) else None)"

lemma get_leb_numeral [byte_simps]:
  "get_leb (numeral k) bs =
     (case bs of
        [] \<Rightarrow> None
      | b # rest \<Rightarrow>
          if unat b < 128 then Some (unat b, rest)
          else (case get_leb (pred_numeral k) rest of
                  None \<Rightarrow> None
                | Some (n, rest') \<Rightarrow> Some (unat b - 128 + 128 * n, rest')))"
  by (simp only: numeral_eq_Suc get_leb.simps)

lemma put_varint_nonempty [simp]: "put_varint n \<noteq> []"
  by (subst put_varint.simps) simp

lemma put_varint_small [simp]: "n < 128 \<Longrightarrow> put_varint n = [of_nat n]"
  by (subst put_varint.simps) simp

lemma get_leb_put: "n < 128 ^ k \<Longrightarrow> 0 < k \<Longrightarrow> get_leb k (put_varint n @ rest) = Some (n, rest)"
proof (induction k arbitrary: n)
  case 0
  then show ?case by simp
next
  case (Suc k)
  show ?case
  proof (cases "n < 128")
    case True
    then have "unat (of_nat n :: u8) = n" by (simp add: unat_of_nat)
    with True show ?thesis by simp
  next
    case False
    have b: "unat (of_nat (n mod 128 + 128) :: u8) = n mod 128 + 128"
    proof -
      have "n mod 128 + 128 < 256" using mod_less_divisor [of 128 n] by linarith
      then show ?thesis unfolding unat_of_nat by simp
    qed
    have "n div 128 < 128 ^ k"
      using Suc.prems by (simp add: less_mult_imp_div_less mult.commute)
    moreover have "0 < k" using False Suc.prems by (cases k) simp_all
    ultimately have IH: "get_leb k (put_varint (n div 128) @ rest) = Some (n div 128, rest)"
      by (rule Suc.IH)
    have "put_varint n = of_nat (n mod 128 + 128) # put_varint (n div 128)"
      using False by (subst put_varint.simps) simp
    then have "get_leb (Suc k) (put_varint n @ rest) = Some (n mod 128 + 128 * (n div 128), rest)"
      using IH b by (simp del: of_nat_add)
    then show ?thesis by simp
  qed
qed

lemma get_varint_put:
  "n < 2 ^ bits \<Longrightarrow> 2 ^ bits \<le> (128 :: nat) ^ k \<Longrightarrow> 0 < k \<Longrightarrow>
     get_varint k bits (put_varint n @ rest) = Some (n, rest)"
  by (simp add: get_varint_def get_leb_put)

subsection \<open>Fixed-width integers, booleans, arrays\<close>

definition put_u8 :: "u8 \<Rightarrow> bytes" where "put_u8 b = [b]"

fun get_u8 :: "u8 reader" where
  "get_u8 [] = None"
| "get_u8 (b # bs) = Some (b, bs)"

definition put_u16 :: "u16 \<Rightarrow> bytes" where "put_u16 w = put_varint (unat w)"
definition put_u32 :: "u32 \<Rightarrow> bytes" where "put_u32 w = put_varint (unat w)"
definition put_u64 :: "u64 \<Rightarrow> bytes" where "put_u64 w = put_varint (unat w)"

definition get_u16 :: "u16 reader" where
  "get_u16 = rbind (get_varint 3 16) (\<lambda>n. rreturn (of_nat n))"
definition get_u32 :: "u32 reader" where
  "get_u32 = rbind (get_varint 5 32) (\<lambda>n. rreturn (of_nat n))"
definition get_u64 :: "u64 reader" where
  "get_u64 = rbind (get_varint 10 64) (\<lambda>n. rreturn (of_nat n))"

lemma get_u8_put [simp]: "get_u8 (put_u8 b @ rest) = Some (b, rest)"
  by (simp add: put_u8_def)

lemma get_u16_put [simp]: "get_u16 (put_u16 w @ rest) = Some (w, rest)"
  using unsigned_less [of w, where ?'a = nat]
  by (simp add: get_u16_def put_u16_def rbind_def get_varint_put)

lemma get_u32_put [simp]: "get_u32 (put_u32 w @ rest) = Some (w, rest)"
  using unsigned_less [of w, where ?'a = nat]
  by (simp add: get_u32_def put_u32_def rbind_def get_varint_put)

lemma get_u64_put [simp]: "get_u64 (put_u64 w @ rest) = Some (w, rest)"
  using unsigned_less [of w, where ?'a = nat]
  by (simp add: get_u64_def put_u64_def rbind_def get_varint_put)

definition put_len :: "nat \<Rightarrow> bytes" where "put_len n = put_varint n"
definition get_len :: "nat reader" where "get_len = get_varint 10 64"

lemma get_len_put [simp]: "n < 2 ^ 64 \<Longrightarrow> get_len (put_len n @ rest) = Some (n, rest)"
  by (simp add: get_len_def put_len_def get_varint_put)

definition put_bool :: "bool \<Rightarrow> bytes" where "put_bool b = [if b then 1 else 0]"

definition get_bool :: "bool reader" where
  "get_bool = rbind get_u8 (\<lambda>b. if b = 0 then rreturn False else if b = 1 then rreturn True else rfail)"

lemma get_bool_put [simp]: "get_bool (put_bool b @ rest) = Some (b, rest)"
  by (simp add: get_bool_def put_bool_def rbind_def)

definition get_bytes :: "nat \<Rightarrow> bytes reader" where
  "get_bytes n bs = (if n \<le> length bs then Some (take n bs, drop n bs) else None)"

lemma get_bytes_put [simp]: "length xs = n \<Longrightarrow> get_bytes n (xs @ rest) = Some (xs, rest)"
  by (simp add: get_bytes_def)

subsection \<open>Sequences and options\<close>

primrec get_n :: "'a reader \<Rightarrow> nat \<Rightarrow> 'a list reader" where
  "get_n r 0 bs = Some ([], bs)"
| "get_n r (Suc n) bs = rbind r (\<lambda>x. rbind (get_n r n) (\<lambda>xs. rreturn (x # xs))) bs"

definition put_list :: "('a \<Rightarrow> bytes) \<Rightarrow> 'a list \<Rightarrow> bytes" where
  "put_list put xs = put_len (length xs) @ concat (map put xs)"

definition get_list :: "'a reader \<Rightarrow> 'a list reader" where
  "get_list r = rbind get_len (get_n r)"

lemma get_n_put:
  "(\<And>x rest. x \<in> set xs \<Longrightarrow> r (put x @ rest) = Some (x, rest)) \<Longrightarrow>
     get_n r (length xs) (concat (map put xs) @ rest) = Some (xs, rest)"
  by (induction xs) simp_all

lemma get_list_put:
  "(\<And>x rest. x \<in> set xs \<Longrightarrow> r (put x @ rest) = Some (x, rest)) \<Longrightarrow> length xs < 2 ^ 64 \<Longrightarrow>
     get_list r (put_list put xs @ rest) = Some (xs, rest)"
  by (simp add: get_list_def put_list_def get_n_put)

definition put_option :: "('a \<Rightarrow> bytes) \<Rightarrow> 'a option \<Rightarrow> bytes" where
  "put_option put x = (case x of None \<Rightarrow> [0] | Some y \<Rightarrow> 1 # put y)"

definition get_option :: "'a reader \<Rightarrow> 'a option reader" where
  "get_option r =
     rbind get_u8 (\<lambda>b. if b = 0 then rreturn None
                       else if b = 1 then rbind r (\<lambda>x. rreturn (Some x)) else rfail)"

lemma get_option_put:
  "(\<And>y rest. x = Some y \<Longrightarrow> r (put y @ rest) = Some (y, rest)) \<Longrightarrow>
     get_option r (put_option put x @ rest) = Some (x, rest)"
  by (cases x) (simp_all add: get_option_def put_option_def rbind_def)

subsection \<open>Strings\<close>

text \<open>Well-formed UTF-8, the sequences of RFC 3629; a Rust \<open>String\<close> is always one of these.\<close>

definition cont_byte :: "u8 \<Rightarrow> bool" where
  "cont_byte b \<longleftrightarrow> 0x80 \<le> b \<and> b \<le> 0xBF"

definition second_ok :: "u8 \<Rightarrow> u8 \<Rightarrow> bool" where
  "second_ok b b1 \<longleftrightarrow>
     (if b = 0xE0 then 0xA0 \<le> b1 \<and> b1 \<le> 0xBF
      else if b = 0xED then 0x80 \<le> b1 \<and> b1 \<le> 0x9F
      else if b = 0xF0 then 0x90 \<le> b1 \<and> b1 \<le> 0xBF
      else if b = 0xF4 then 0x80 \<le> b1 \<and> b1 \<le> 0x8F
      else cont_byte b1)"

definition seq_len :: "u8 \<Rightarrow> nat" where
  "seq_len b =
     (if b < 0x80 then 1
      else if 0xC2 \<le> b \<and> b \<le> 0xDF then 2
      else if 0xE0 \<le> b \<and> b \<le> 0xEF then 3
      else if 0xF0 \<le> b \<and> b \<le> 0xF4 then 4
      else 0)"

function utf8_valid :: "bytes \<Rightarrow> bool" where
  "utf8_valid bs =
     (case bs of
        [] \<Rightarrow> True
      | b # rest \<Rightarrow>
          (let n = seq_len b - 1; tail = take n rest in
           0 < seq_len b \<and> length tail = n
           \<and> (case tail of [] \<Rightarrow> True | b1 # more \<Rightarrow> second_ok b b1 \<and> list_all cont_byte more)
           \<and> utf8_valid (drop n rest)))"
  by pat_completeness auto
termination
  by (relation "measure length") (auto simp: seq_len_def)

declare utf8_valid.simps [simp del]

lemma utf8_valid_Nil [simp]: "utf8_valid []"
  by (subst utf8_valid.simps) simp

lemma utf8_valid_ascii [simp]: "b < 0x80 \<Longrightarrow> utf8_valid (b # bs) = utf8_valid bs"
  by (subst utf8_valid.simps) (simp add: seq_len_def Let_def)

definition string_bytes :: "string \<Rightarrow> bytes" where
  "string_bytes s = map (\<lambda>c. of_nat (of_char c)) s"

definition bytes_string :: "bytes \<Rightarrow> string" where
  "bytes_string bs = map (\<lambda>b. char_of (unat b)) bs"

lemma length_string_bytes [simp]: "length (string_bytes s) = length s"
  by (simp add: string_bytes_def)

lemma bytes_string_bytes [simp]: "bytes_string (string_bytes s) = s"
proof -
  have "char_of (unat (of_nat (of_char c) :: u8)) = c" for c :: char
    by (simp add: unat_of_nat_byte)
  then show ?thesis by (simp add: bytes_string_def string_bytes_def o_def)
qed

definition wf_string :: "string \<Rightarrow> bool" where
  "wf_string s \<longleftrightarrow> utf8_valid (string_bytes s) \<and> length s < 2 ^ 64"

definition put_string :: "string \<Rightarrow> bytes" where
  "put_string s = put_len (length s) @ string_bytes s"

definition get_string :: "string reader" where
  "get_string =
     rbind get_len (\<lambda>n. rbind (get_bytes n)
       (\<lambda>bs. if utf8_valid bs then rreturn (bytes_string bs) else rfail))"

lemma get_string_put [simp]: "wf_string s \<Longrightarrow> get_string (put_string s @ rest) = Some (s, rest)"
  by (simp add: get_string_def put_string_def wf_string_def)

end
