(* ===== verification/Daemon_Keystore.thy ===== *)
theory Daemon_Keystore
  imports Daemon_Pairings Crypto_Device Wire_Primitives
begin

section \<open>The keystore\<close>

text \<open>
  \<open>daemon/src/keystore/mod.rs\<close> and \<open>daemon/src/keystore/platform.rs\<close>. The postcard codecs of the two
  layouts and the Windows DPAPI calls are foreign: they are the fields of \<open>ks_env\<close>, with the
  target and the process id. \<open>CryptProtectData\<close> takes the flags and answers an error number or the
  ciphertext. The file system is passed explicitly. The locale \<open>cipher_layer\<close> is what \<open>load\<close> and
  \<open>save\<close> ask of a platform, \<open>keystore_store\<close> what the daemon's commands ask of \<open>load\<close> and \<open>save\<close>.
\<close>

definition KEYSTORE_FORMAT_VERSION :: u8 where "KEYSTORE_FORMAT_VERSION = 2"

record KeystoreContents =
  ks_key_pkcs8_der :: bytes
  ks_cert_der :: bytes
  pairings :: "DaemonPairingRecord list"
  reauth_interval_days :: u8
  ks_last_authenticated_at_unix_ms :: u64

definition from_identity :: "DeviceIdentityBytes \<Rightarrow> KeystoreContents" where
  "from_identity i =
     \<lparr>ks_key_pkcs8_der = key_pkcs8_der i, ks_cert_der = cert_der i, pairings = [],
      reauth_interval_days = 7, ks_last_authenticated_at_unix_ms = 0\<rparr>"

definition device_identity_bytes :: "KeystoreContents \<Rightarrow> DeviceIdentityBytes" where
  "device_identity_bytes c = \<lparr>key_pkcs8_der = ks_key_pkcs8_der c, cert_der = ks_cert_der c\<rparr>"

definition active_pairing :: "KeystoreContents \<Rightarrow> SpkiHash \<Rightarrow> DaemonPairingRecord option" where
  "active_pairing c spki = find (\<lambda>p. is_active p \<and> client_spki p = spki) (pairings c)"

record KeystoreContentsV1 =
  ks_key_pkcs8_der_v1 :: bytes
  ks_cert_der_v1 :: bytes
  pairings_v1 :: "PairingRecordV1 list"
  reauth_interval_days_v1 :: u8
  ks_last_authenticated_at_unix_ms_v1 :: u64

definition contents_from_v1 :: "KeystoreContentsV1 \<Rightarrow> KeystoreContents" where
  "contents_from_v1 v =
     \<lparr>ks_key_pkcs8_der = ks_key_pkcs8_der_v1 v, ks_cert_der = ks_cert_der_v1 v,
      pairings = map pairing_from_v1 (pairings_v1 v),
      reauth_interval_days = reauth_interval_days_v1 v,
      ks_last_authenticated_at_unix_ms = ks_last_authenticated_at_unix_ms_v1 v\<rparr>"

subsection \<open>Encryption\<close>

record dpapi =
  CryptProtectData :: "bytes \<Rightarrow> u32 \<Rightarrow> u32 + bytes"
  CryptUnprotectData :: "bytes \<Rightarrow> u32 \<Rightarrow> u32 + bytes"

definition CRYPTPROTECT_UI_FORBIDDEN :: u32 where "CRYPTPROTECT_UI_FORBIDDEN = 1"

definition CRYPTPROTECT_LOCAL_MACHINE :: u32 where "CRYPTPROTECT_LOCAL_MACHINE = 4"

definition windows_encrypt :: "dpapi \<Rightarrow> bytes \<Rightarrow> string + bytes" where
  "windows_encrypt d plain =
     (case u32_try_from (length plain) of
        None \<Rightarrow> Inl ''plaintext too large for DPAPI''
      | Some _ \<Rightarrow>
          (case CryptProtectData d plain (or CRYPTPROTECT_LOCAL_MACHINE CRYPTPROTECT_UI_FORBIDDEN) of
             Inl n \<Rightarrow> Inl (''CryptProtectData failed: error '' @ decimal (unat n))
           | Inr out \<Rightarrow> Inr out))"

definition windows_decrypt :: "dpapi \<Rightarrow> bytes \<Rightarrow> string + bytes" where
  "windows_decrypt d ciphertext =
     (case u32_try_from (length ciphertext) of
        None \<Rightarrow> Inl ''ciphertext too large for DPAPI''
      | Some _ \<Rightarrow>
          (case CryptUnprotectData d ciphertext CRYPTPROTECT_UI_FORBIDDEN of
             Inl n \<Rightarrow> Inl (''CryptUnprotectData failed: error '' @ decimal (unat n))
           | Inr out \<Rightarrow> Inr out))"

definition stub_encrypt :: "bytes \<Rightarrow> string + bytes" where
  "stub_encrypt plain = Inl ''keystore encryption not implemented on this platform yet (M2 Win-only)''"

definition stub_decrypt :: "bytes \<Rightarrow> string + bytes" where
  "stub_decrypt ciphertext = Inl ''keystore encryption not implemented on this platform yet (M2 Win-only)''"

definition platform_encrypt :: "target \<times> dpapi \<Rightarrow> bytes \<Rightarrow> string + bytes" where
  "platform_encrypt td plain =
     (case fst td of Windows \<Rightarrow> windows_encrypt (snd td) plain | OtherTarget \<Rightarrow> stub_encrypt plain)"

definition platform_decrypt :: "target \<times> dpapi \<Rightarrow> bytes \<Rightarrow> string + bytes" where
  "platform_decrypt td ciphertext =
     (case fst td of Windows \<Rightarrow> windows_decrypt (snd td) ciphertext | OtherTarget \<Rightarrow> stub_decrypt ciphertext)"

text \<open>
  What is documented of DPAPI: unprotecting what was protected on the machine gives the data
  back, and a blob fits its 32-bit length field.
\<close>

definition dpapi_ok :: "dpapi \<Rightarrow> bool" where
  "dpapi_ok d \<longleftrightarrow> (\<forall>p f c. CryptProtectData d p f = Inr c \<longrightarrow>
     length c < 2 ^ 32 \<and> CryptUnprotectData d c CRYPTPROTECT_UI_FORBIDDEN = Inr p)"

text \<open>
  DPAPI adds a keyed integrity check to what it protects and refuses data that does not pass it, so a
  part of a blob, as a failing write leaves it, does not decrypt. Only what is said of saves that
  fail while others are under way relies on this.
\<close>

definition dpapi_rejects_cuts :: "dpapi \<Rightarrow> bool" where
  "dpapi_rejects_cuts d \<longleftrightarrow> (\<forall>p f c k. CryptProtectData d p f = Inr c \<longrightarrow> k < length c \<longrightarrow>
     (\<exists>n. CryptUnprotectData d (take k c) CRYPTPROTECT_UI_FORBIDDEN = Inl n))"

locale cipher_layer =
  fixes ok :: "'d \<Rightarrow> bool"
    and enc :: "'d \<Rightarrow> bytes \<Rightarrow> string + bytes"
    and dec :: "'d \<Rightarrow> bytes \<Rightarrow> string + bytes"
  assumes dec_enc: "ok d \<Longrightarrow> enc d p = Inr c \<Longrightarrow> dec d c = Inr p"
begin

lemma enc_inj: "ok d \<Longrightarrow> enc d p = Inr c \<Longrightarrow> enc d q = Inr c \<Longrightarrow> p = q"
  using dec_enc [of d p c] dec_enc [of d q c] by simp

end

lemma u32_try_from_Some: "length (xs :: bytes) < 2 ^ 32 \<Longrightarrow> \<exists>w. u32_try_from (length xs) = Some w"
  by (simp add: u32_try_from_def)

interpretation windows: cipher_layer dpapi_ok windows_encrypt windows_decrypt
proof
  fix d p c
  assume "dpapi_ok d" and e: "windows_encrypt d p = Inr c"
  from e have "CryptProtectData d p (or CRYPTPROTECT_LOCAL_MACHINE CRYPTPROTECT_UI_FORBIDDEN) = Inr c"
    by (auto simp: windows_encrypt_def split: option.splits sum.splits)
  with \<open>dpapi_ok d\<close> have "length c < 2 ^ 32 \<and> CryptUnprotectData d c CRYPTPROTECT_UI_FORBIDDEN = Inr p"
    unfolding dpapi_ok_def by blast
  then show "windows_decrypt d c = Inr p"
    using u32_try_from_Some [of c] by (auto simp: windows_decrypt_def)
qed

interpretation platform:
  cipher_layer "\<lambda>td. dpapi_ok (snd td)" platform_encrypt platform_decrypt
proof
  fix td :: "target \<times> dpapi" and p c
  assume "dpapi_ok (snd td)" "platform_encrypt td p = Inr c"
  then show "platform_decrypt td c = Inr p"
    using windows.dec_enc [of "snd td" p c]
    by (cases "fst td") (simp_all add: platform_encrypt_def platform_decrypt_def stub_encrypt_def)
qed

subsection \<open>Loading and saving\<close>

record ks_env =
  ke_platform :: "target \<times> dpapi"
  ke_pid :: nat
  contents_codec :: "KeystoreContents codec"
  contents_v1_codec :: "KeystoreContentsV1 codec"

text \<open>\<open>postcard::from_bytes\<close> leaves the bytes after the value unread.\<close>

definition postcard_from_bytes :: "'a codec \<Rightarrow> bytes \<Rightarrow> postcard_error + 'a" where
  "postcard_from_bytes c b = map_ok fst (take_from_bytes c b)"

definition parse_plain :: "ks_env \<Rightarrow> bytes \<Rightarrow> KeystoreError + KeystoreContents" where
  "parse_plain e plain =
     (case slice_first plain of
        None \<Rightarrow> Inl (Decode ''empty plaintext'')
      | Some format \<Rightarrow>
          let payload = (case slice_from plain 1 of None \<Rightarrow> [] | Some p \<Rightarrow> p) in
          if format = 1 then
            (case map_err Decode (postcard_from_bytes (contents_v1_codec e) payload) of
               Inl err \<Rightarrow> Inl err
             | Inr v1 \<Rightarrow> Inr (contents_from_v1 v1))
          else if format = 2 then
            map_err Decode (postcard_from_bytes (contents_codec e) payload)
          else Inl (FormatVersion format KEYSTORE_FORMAT_VERSION))"

definition ks_load ::
    "ks_env \<Rightarrow> path \<Rightarrow> fs \<Rightarrow> (KeystoreError + KeystoreContents option) \<times> fs" where
  "ks_load e p s =
     (case fs_read p s of
        (Inl NotFound, s') \<Rightarrow> (Inr None, s')
      | (Inl err, s') \<Rightarrow> (Inl (Io err), s')
      | (Inr ciphertext, s') \<Rightarrow>
          (case map_err Encryption (platform_decrypt (ke_platform e) ciphertext) of
             Inl err \<Rightarrow> (Inl err, s')
           | Inr plain \<Rightarrow> (map_ok Some (parse_plain e plain), s')))"

definition tmp_name :: "nat \<Rightarrow> string" where
  "tmp_name pid = ''keystore.bin.tmp.'' @ decimal pid"

text \<open>The write to the sibling file and the rename over the target.\<close>

definition replace_file :: "path \<Rightarrow> path \<Rightarrow> bytes \<Rightarrow> fs \<Rightarrow> (KeystoreError + unit) \<times> fs" where
  "replace_file tmp p ciphertext s =
     (case fs_write tmp ciphertext s of
        (Inl err, s1) \<Rightarrow> (Inl (Io err), s1)
      | (Inr _, s1) \<Rightarrow>
          (case fs_rename tmp p s1 of
             (Inl err, s2) \<Rightarrow> (Inl (Io err), s2)
           | (Inr _, s2) \<Rightarrow> (Inr (), s2)))"

definition ks_save ::
    "ks_env \<Rightarrow> path \<Rightarrow> KeystoreContents \<Rightarrow> fs \<Rightarrow> (KeystoreError + unit) \<times> fs" where
  "ks_save e p contents s =
     (case map_err Decode (to_allocvec (contents_codec e) contents) of
        Inl err \<Rightarrow> (Inl err, s)
      | Inr encoded \<Rightarrow>
          (case map_err Encryption (platform_encrypt (ke_platform e) (KEYSTORE_FORMAT_VERSION # encoded)) of
             Inl err \<Rightarrow> (Inl err, s)
           | Inr ciphertext \<Rightarrow>
               (case parent p of
                  None \<Rightarrow> (Inl (Io (OtherIo ''keystore path has no parent'')), s)
                | Some dir \<Rightarrow>
                    let tmp = join dir (tmp_name (ke_pid e)) in replace_file tmp p ciphertext s)))"

definition ensure_data_dir :: "path \<Rightarrow> fs \<Rightarrow> (KeystoreError + unit) \<times> fs" where
  "ensure_data_dir dir s =
     (case fs_create_dir_all dir s of (Inl e, s') \<Rightarrow> (Inl (Io e), s') | (Inr _, s') \<Rightarrow> (Inr (), s'))"

subsection \<open>The values that survive serialisation\<close>

text \<open>
  A \<open>SocketAddrV6\<close> is serialised as its address and port only, so the flow information and scope
  of an address survive a save only if they are zero. The other conditions hold of every Rust
  value of these types.
\<close>

fun wf_addr :: "SocketAddr \<Rightarrow> bool" where
  "wf_addr (V4 b p) \<longleftrightarrow> length b = 4"
| "wf_addr (V6 b p f s) \<longleftrightarrow> length b = 16 \<and> f = 0 \<and> s = 0"

definition wf_pairing :: "DaemonPairingRecord \<Rightarrow> bool" where
  "wf_pairing p \<longleftrightarrow> wf_string (phone_name p) \<and> wf_spki (client_spki p)
     \<and> (case last_known_address p of None \<Rightarrow> True | Some a \<Rightarrow> wf_addr a)"

definition wf_contents :: "KeystoreContents \<Rightarrow> bool" where
  "wf_contents c \<longleftrightarrow> length (ks_key_pkcs8_der c) < 2 ^ 64 \<and> length (ks_cert_der c) < 2 ^ 64
     \<and> length (pairings c) < 2 ^ 64 \<and> list_all wf_pairing (pairings c)"

definition wf_pairing_v1 :: "PairingRecordV1 \<Rightarrow> bool" where
  "wf_pairing_v1 p \<longleftrightarrow> wf_string (phone_name_v1 p) \<and> wf_spki (client_spki_v1 p)"

definition wf_contents_v1 :: "KeystoreContentsV1 \<Rightarrow> bool" where
  "wf_contents_v1 c \<longleftrightarrow> length (ks_key_pkcs8_der_v1 c) < 2 ^ 64 \<and> length (ks_cert_der_v1 c) < 2 ^ 64
     \<and> length (pairings_v1 c) < 2 ^ 64 \<and> list_all wf_pairing_v1 (pairings_v1 c)"

lemma wf_from_v1 [simp]: "wf_contents_v1 v \<Longrightarrow> wf_contents (contents_from_v1 v)"
  by (simp add: wf_contents_def wf_contents_v1_def contents_from_v1_def list_all_iff
      wf_pairing_def wf_pairing_v1_def pairing_from_v1_def)

text \<open>What the two operations below rely on of their environment.\<close>

definition ks_ok :: "ks_env \<Rightarrow> bool" where
  "ks_ok e \<longleftrightarrow> dpapi_ok (snd (ke_platform e)) \<and> payload_codec (contents_codec e) wf_contents
     \<and> payload_codec (contents_v1_codec e) wf_contents_v1"

definition rejects_cuts :: "ks_env \<Rightarrow> bool" where
  "rejects_cuts e \<longleftrightarrow> (\<forall>p x k. platform_encrypt (ke_platform e) p = Inr x \<longrightarrow> k < length x \<longrightarrow>
     (\<exists>err. platform_decrypt (ke_platform e) (take k x) = Inl err))"

lemma rejects_cutsI:
  assumes "dpapi_rejects_cuts (snd (ke_platform e))"
  shows "rejects_cuts e"
  unfolding rejects_cuts_def
proof (intro allI impI)
  fix p x k assume x: "platform_encrypt (ke_platform e) p = Inr x" "k < length x"
  then have "CryptProtectData (snd (ke_platform e)) p (or CRYPTPROTECT_LOCAL_MACHINE CRYPTPROTECT_UI_FORBIDDEN) = Inr x"
    "fst (ke_platform e) = Windows"
    by (auto simp: platform_encrypt_def windows_encrypt_def stub_encrypt_def split: target.splits option.splits sum.splits)
  with assms x(2) show "\<exists>err. platform_decrypt (ke_platform e) (take k x) = Inl err"
    unfolding dpapi_rejects_cuts_def
    by (fastforce simp: platform_decrypt_def windows_decrypt_def split: option.split)
qed

lemma ks_ok_decode:
  "ks_ok e \<Longrightarrow> wf_contents c \<Longrightarrow> to_allocvec (contents_codec e) c = Inr b \<Longrightarrow>
     postcard_from_bytes (contents_codec e) (b @ tail) = Inr c"
  using payload_codec.take_enc [of "contents_codec e" wf_contents c b tail]
  by (simp add: ks_ok_def postcard_from_bytes_def)

lemma ks_ok_decode_v1:
  "ks_ok e \<Longrightarrow> wf_contents_v1 c \<Longrightarrow> to_allocvec (contents_v1_codec e) c = Inr b \<Longrightarrow>
     postcard_from_bytes (contents_v1_codec e) (b @ tail) = Inr c"
  using payload_codec.take_enc [of "contents_v1_codec e" wf_contents_v1 c b tail]
  by (simp add: ks_ok_def postcard_from_bytes_def)

lemma parse_plain_v2: "parse_plain e (2 # b) = map_err Decode (postcard_from_bytes (contents_codec e) b)"
  by (simp add: parse_plain_def slice_defs)

lemma parse_plain_v1:
  "parse_plain e (1 # b) =
     (case map_err Decode (postcard_from_bytes (contents_v1_codec e) b) of
        Inl err \<Rightarrow> Inl err | Inr v1 \<Rightarrow> Inr (contents_from_v1 v1))"
  by (simp add: parse_plain_def slice_defs)

lemma parse_plain_other:
  "f \<noteq> 1 \<Longrightarrow> f \<noteq> 2 \<Longrightarrow> parse_plain e (f # b) = Inl (FormatVersion f 2)"
  by (simp add: parse_plain_def slice_defs KEYSTORE_FORMAT_VERSION_def)

lemma active_pairing_Some:
  "active_pairing c spki = Some p \<Longrightarrow> p \<in> set (pairings c) \<and> is_active p \<and> client_spki p = spki"
  by (auto simp: active_pairing_def find_Some_iff)

lemma active_pairing_None:
  "active_pairing c spki = None \<longleftrightarrow> (\<forall>p \<in> set (pairings c). client_spki p = spki \<longrightarrow> revoked p)"
  by (auto simp: active_pairing_def find_None_iff is_active_def)

end
