(* ===== verification/Protocol_Envelope.thy ===== *)
theory Protocol_Envelope
  imports Protocol_Message
begin

section \<open>The length-prefixed envelope\<close>

text \<open>
  \<open>core/src/protocol/envelope.rs\<close>. A frame on the wire is a big-endian length, the version
  byte, the big-endian nonce and the payload. \<open>encode_envelope\<close> and \<open>decode_envelope\<close> are
  translated branch by branch, the defensive branches included; \<open>frame_bytes\<close> is the grammar
  of PROTOCOL.md section 4, and the lemmas show that decoding inverts it exactly, for any
  split of the stream into reads.
\<close>

definition PROTOCOL_VERSION :: u8 where "PROTOCOL_VERSION = 1"

definition ENVELOPE_HEADER_LEN :: usize where "ENVELOPE_HEADER_LEN = 1 + 8"

definition MIN_FRAME_LEN :: usize where "MIN_FRAME_LEN = ENVELOPE_HEADER_LEN + 1"

definition MAX_FRAME_LEN :: usize where "MAX_FRAME_LEN = 65536"

definition LENGTH_PREFIX_LEN :: usize where "LENGTH_PREFIX_LEN = 4"

lemmas envelope_consts =
  PROTOCOL_VERSION_def ENVELOPE_HEADER_LEN_def MIN_FRAME_LEN_def MAX_FRAME_LEN_def
  LENGTH_PREFIX_LEN_def

record Envelope =
  version :: u8
  nonce :: u64
  payload :: bytes

datatype DecodeOutcome = Frame Envelope bytes | Incomplete

definition encode_envelope :: "Envelope \<Rightarrow> Error + bytes" where
  "encode_envelope env =
     (case checked_add_usize ENVELOPE_HEADER_LEN (length (payload env)) of
        None \<Rightarrow> Inl LengthOverflow
      | Some env_len \<Rightarrow>
          if env_len > MAX_FRAME_LEN then Inl (OversizedFrame env_len MAX_FRAME_LEN)
          else
            (case u32_try_from env_len of
               None \<Rightarrow> Inl LengthOverflow
             | Some len_field \<Rightarrow>
                 Inr (u32_to_be_bytes len_field @ [version env]
                      @ u64_to_be_bytes (nonce env) @ payload env)))"

definition decode_envelope :: "bytes \<Rightarrow> Error + DecodeOutcome" where
  "decode_envelope buf =
     (case first_chunk 4 buf of
        None \<Rightarrow> Inr Incomplete
      | Some len_bytes \<Rightarrow>
          let env_len = unat (u32_from_be_bytes len_bytes) in
          if env_len < MIN_FRAME_LEN then Inl (UndersizedFrame env_len MIN_FRAME_LEN)
          else if env_len > MAX_FRAME_LEN then Inl (OversizedFrame env_len MAX_FRAME_LEN)
          else
            (case checked_add_usize LENGTH_PREFIX_LEN env_len of
               None \<Rightarrow> Inl LengthOverflow
             | Some total_needed \<Rightarrow>
                 if length buf < total_needed then Inr Incomplete
                 else
                   (case slice_get buf LENGTH_PREFIX_LEN total_needed of
                      None \<Rightarrow> Inl LengthOverflow
                    | Some envelope_bytes \<Rightarrow>
                        (case slice_first envelope_bytes of
                           None \<Rightarrow> Inl (UndersizedFrame env_len MIN_FRAME_LEN)
                         | Some v \<Rightarrow>
                             if v \<noteq> PROTOCOL_VERSION
                             then Inl (Error.VersionMismatch v PROTOCOL_VERSION)
                             else
                               (case Option.bind (slice_get envelope_bytes 1 9) (array_try_into 8) of
                                  None \<Rightarrow> Inl (UndersizedFrame env_len MIN_FRAME_LEN)
                                | Some nonce_bytes \<Rightarrow>
                                    (case slice_from envelope_bytes ENVELOPE_HEADER_LEN of
                                       None \<Rightarrow> Inl (UndersizedFrame env_len MIN_FRAME_LEN)
                                     | Some p \<Rightarrow>
                                         let remainder =
                                           (case slice_from buf total_needed of
                                              Some r \<Rightarrow> r
                                            | None \<Rightarrow> [])
                                         in Inr (Frame
                                              \<lparr>version = v,
                                               nonce = u64_from_be_bytes nonce_bytes,
                                               payload = p\<rparr>
                                              remainder)))))))"

subsection \<open>The frame grammar\<close>

definition frame_bytes :: "Envelope \<Rightarrow> bytes" where
  "frame_bytes env =
     u32_to_be_bytes (of_nat (9 + length (payload env))) @ [version env]
       @ u64_to_be_bytes (nonce env) @ payload env"

definition sendable :: "Envelope \<Rightarrow> bool" where
  "sendable env \<longleftrightarrow> 9 + length (payload env) \<le> MAX_FRAME_LEN"

definition receivable :: "Envelope \<Rightarrow> bool" where
  "receivable env \<longleftrightarrow>
     version env = PROTOCOL_VERSION \<and> payload env \<noteq> [] \<and> sendable env"

lemma length_frame_bytes [simp]: "length (frame_bytes env) = 13 + length (payload env)"
  by (simp add: frame_bytes_def)

lemma encode_envelope_ok:
  "sendable env \<Longrightarrow> encode_envelope env = Inr (frame_bytes env)"
  by (simp add: encode_envelope_def sendable_def frame_bytes_def checked_add_usize_def
      u32_try_from_def usize_max_def envelope_consts)

lemma encode_envelope_Inr_iff:
  "encode_envelope env = Inr b \<longleftrightarrow> sendable env \<and> b = frame_bytes env"
  by (auto simp: encode_envelope_def sendable_def frame_bytes_def checked_add_usize_def
      u32_try_from_def usize_max_def envelope_consts)

lemma encode_envelope_error:
  "\<not> sendable env \<Longrightarrow> length (payload env) \<le> 2 ^ 63 \<Longrightarrow>
     encode_envelope env = Inl (OversizedFrame (9 + length (payload env)) MAX_FRAME_LEN)"
  by (simp add: encode_envelope_def sendable_def checked_add_usize_def usize_max_def
      envelope_consts)

subsection \<open>Decoding by the declared length\<close>

definition declared_len :: "bytes \<Rightarrow> nat" where
  "declared_len buf = unat (u32_from_be_bytes (take 4 buf))"

definition parse_body :: "bytes \<Rightarrow> nat \<Rightarrow> Error + DecodeOutcome" where
  "parse_body buf n =
     (if buf ! 4 \<noteq> PROTOCOL_VERSION then Inl (Error.VersionMismatch (buf ! 4) PROTOCOL_VERSION)
      else Inr (Frame \<lparr>version = PROTOCOL_VERSION,
                       nonce = u64_from_be_bytes (take 8 (drop 5 buf)),
                       payload = take (n - 9) (drop 13 buf)\<rparr>
                      (drop (4 + n) buf)))"

text \<open>The same function without the branches that cannot be reached.\<close>

lemma decode_envelope_eq:
  "decode_envelope buf =
     (if length buf < 4 then Inr Incomplete
      else let n = declared_len buf in
        if n < MIN_FRAME_LEN then Inl (UndersizedFrame n MIN_FRAME_LEN)
        else if n > MAX_FRAME_LEN then Inl (OversizedFrame n MAX_FRAME_LEN)
        else if length buf < 4 + n then Inr Incomplete
        else parse_body buf n)"
proof (cases "length buf < 4 \<or> declared_len buf < MIN_FRAME_LEN
    \<or> declared_len buf > MAX_FRAME_LEN \<or> length buf < 4 + declared_len buf")
  case True
  then show ?thesis
    by (auto simp: decode_envelope_def declared_len_def slice_defs Let_def checked_add_usize_def
        usize_max_def LENGTH_PREFIX_LEN_def MAX_FRAME_LEN_def split: if_splits)
next
  case False
  define n where "n = declared_len buf"
  have n: "10 \<le> n" "n \<le> 65536" "4 + n \<le> length buf"
    using False by (simp_all add: n_def envelope_consts)
  define body where "body = take n (drop 4 buf)"
  have len: "length body = n" using n by (simp add: body_def)
  then obtain v rest where body: "body = v # rest" using n by (cases body) auto
  have v: "v = buf ! 4"
  proof -
    have "body ! 0 = buf ! 4" using n by (simp add: body_def)
    then show ?thesis using body by simp
  qed
  have nonce: "take 8 (drop 1 body) = take 8 (drop 5 buf)"
    using n by (simp add: body_def drop_take min_def)
  have pay: "drop 9 body = take (n - 9) (drop 13 buf)"
    by (simp add: body_def drop_take)
  show ?thesis
    using False n len v nonce pay body
    by (simp add: decode_envelope_def Let_def slice_defs checked_add_usize_def usize_max_def
        envelope_consts parse_body_def flip: n_def declared_len_def body_def)
qed

lemma decode_envelope_cases:
  obtains (short) "decode_envelope buf = Inr Incomplete"
      "length buf < 4 \<or> length buf < 4 + declared_len buf"
    | (undersized) "decode_envelope buf = Inl (UndersizedFrame (declared_len buf) MIN_FRAME_LEN)"
      "4 \<le> length buf" "declared_len buf < MIN_FRAME_LEN"
    | (oversized) "decode_envelope buf = Inl (OversizedFrame (declared_len buf) MAX_FRAME_LEN)"
      "4 \<le> length buf" "MAX_FRAME_LEN < declared_len buf"
    | (body) "decode_envelope buf = parse_body buf (declared_len buf)"
      "4 + declared_len buf \<le> length buf" "MIN_FRAME_LEN \<le> declared_len buf"
      "declared_len buf \<le> MAX_FRAME_LEN"
proof -
  consider "length buf < 4"
    | "4 \<le> length buf" "declared_len buf < MIN_FRAME_LEN"
    | "4 \<le> length buf" "MAX_FRAME_LEN < declared_len buf"
    | "4 \<le> length buf" "MIN_FRAME_LEN \<le> declared_len buf" "declared_len buf \<le> MAX_FRAME_LEN"
        "length buf < 4 + declared_len buf"
    | "4 + declared_len buf \<le> length buf" "MIN_FRAME_LEN \<le> declared_len buf"
        "declared_len buf \<le> MAX_FRAME_LEN"
    by linarith
  then show thesis
  proof cases
    case 1
    then show ?thesis by (intro short) (simp_all add: decode_envelope_eq)
  next
    case 2
    then show ?thesis by (intro undersized) (simp_all add: decode_envelope_eq Let_def)
  next
    case 3
    then show ?thesis
      by (intro oversized) (simp_all add: decode_envelope_eq Let_def envelope_consts)
  next
    case 4
    then show ?thesis by (intro short) (simp_all add: decode_envelope_eq Let_def)
  next
    case 5
    then show ?thesis by (intro body) (simp_all add: decode_envelope_eq Let_def)
  qed
qed

lemma declared_len_append [simp]:
  "4 \<le> length buf \<Longrightarrow> declared_len (buf @ extra) = declared_len buf"
  by (simp add: declared_len_def)


subsection \<open>Decoding inverts the grammar\<close>

lemma declared_len_frame [simp]:
  assumes "sendable env"
  shows "declared_len (frame_bytes env) = 9 + length (payload env)"
proof -
  have "declared_len (frame_bytes env) = unat (of_nat (9 + length (payload env)) :: u32)"
    by (simp add: declared_len_def frame_bytes_def del: of_nat_add)
  also have "\<dots> = 9 + length (payload env)"
    unfolding unat_of_nat using assms by (simp add: sendable_def MAX_FRAME_LEN_def)
  finally show ?thesis .
qed

lemma frame_bytes_parts:
  "(frame_bytes env @ rest) ! 4 = version env"
  "take 8 (drop 5 (frame_bytes env @ rest)) = u64_to_be_bytes (nonce env)"
  "drop 13 (frame_bytes env @ rest) = payload env @ rest"
  by (simp_all add: frame_bytes_def nth_append)

lemma frame_bytes_rest: "drop (13 + length (payload env)) (frame_bytes env @ rest) = rest"
  by simp

lemma decode_frame:
  assumes "receivable env"
  shows "decode_envelope (frame_bytes env @ rest) = Inr (Frame env rest)"
proof -
  have s: "sendable env" and v: "version env = PROTOCOL_VERSION" and p: "1 \<le> length (payload env)"
    using assms by (auto simp: receivable_def Suc_le_eq)
  let ?n = "9 + length (payload env)"
  have "decode_envelope (frame_bytes env @ rest) = parse_body (frame_bytes env @ rest) ?n"
    using s p by (auto simp: decode_envelope_eq Let_def MIN_FRAME_LEN_def
        ENVELOPE_HEADER_LEN_def) (auto simp: sendable_def)
  also have "\<dots> = Inr (Frame env rest)"
    using v frame_bytes_parts [of env rest] frame_bytes_rest [of env rest]
    by (simp add: parse_body_def)
  finally show ?thesis .
qed

lemma decode_wrong_version:
  assumes "sendable env" "payload env \<noteq> []" "version env \<noteq> PROTOCOL_VERSION"
  shows "decode_envelope (frame_bytes env @ rest)
         = Inl (Error.VersionMismatch (version env) PROTOCOL_VERSION)"
proof -
  have p: "1 \<le> length (payload env)" using assms by (simp add: Suc_le_eq)
  let ?n = "9 + length (payload env)"
  have "decode_envelope (frame_bytes env @ rest) = parse_body (frame_bytes env @ rest) ?n"
    using assms p by (auto simp: decode_envelope_eq Let_def MIN_FRAME_LEN_def
        ENVELOPE_HEADER_LEN_def) (auto simp: sendable_def)
  then show ?thesis
    using assms frame_bytes_parts(1) [of env rest] by (simp add: parse_body_def)
qed

lemma decode_frame_sound:
  assumes "decode_envelope buf = Inr (Frame env rest)"
  shows "receivable env \<and> buf = frame_bytes env @ rest"
proof (cases rule: decode_envelope_cases [of buf])
  case body
  define n where "n = declared_len buf"
  have n: "10 \<le> n" "n \<le> 65536" "4 + n \<le> length buf"
    using body by (simp_all add: n_def envelope_consts)
  from body(1) assms have "parse_body buf n = Inr (Frame env rest)" by (simp add: n_def)
  then have v: "buf ! 4 = PROTOCOL_VERSION"
    and env: "env = \<lparr>version = PROTOCOL_VERSION, nonce = u64_from_be_bytes (take 8 (drop 5 buf)),
                payload = take (n - 9) (drop 13 buf)\<rparr>"
    and rest: "rest = drop (4 + n) buf"
    by (auto simp: parse_body_def split: if_splits)
  have len_pay: "length (payload env) = n - 9" using n by (simp add: env)
  have "receivable env"
    using n len_pay by (auto simp: receivable_def sendable_def env MAX_FRAME_LEN_def)
  have prefix: "u32_to_be_bytes (of_nat n) = take 4 buf"
    using n u32_from_be_inverse [of "take 4 buf"] by (simp add: n_def declared_len_def)
  have "buf = take 4 buf @ [buf ! 4] @ drop 5 buf"
    using n id_take_nth_drop [of 4 buf] by simp
  also have "drop 5 buf = take 8 (drop 5 buf) @ drop 13 buf"
    using append_take_drop_id [of 8 "drop 5 buf"] by simp
  also have "drop 13 buf = take (n - 9) (drop 13 buf) @ drop (4 + n) buf"
    using append_take_drop_id [of "n - 9" "drop 13 buf"] n by simp
  finally have "buf = frame_bytes env @ rest"
    using n v prefix len_pay u64_from_be_inverse [of "take 8 (drop 5 buf)"]
    by (simp add: frame_bytes_def env rest)
  with \<open>receivable env\<close> show ?thesis by simp
qed (use assms in simp_all)


subsection \<open>Decoding a growing buffer\<close>

lemma parse_body_append:
  "4 + n \<le> length buf \<Longrightarrow> 10 \<le> n \<Longrightarrow>
     parse_body (buf @ extra) n =
       (case parse_body buf n of
          Inr (Frame env rest) \<Rightarrow> Inr (Frame env (rest @ extra))
        | r \<Rightarrow> r)"
  by (auto simp: parse_body_def nth_append)

lemma parse_body_complete: "parse_body buf n \<noteq> Inr Incomplete"
  by (simp add: parse_body_def)

lemma decode_envelope_append:
  assumes "decode_envelope buf \<noteq> Inr Incomplete"
  shows "decode_envelope (buf @ extra) =
     (case decode_envelope buf of
        Inr (Frame env rest) \<Rightarrow> Inr (Frame env (rest @ extra))
      | r \<Rightarrow> r)"
proof (cases rule: decode_envelope_cases [of buf])
  case body
  moreover have "decode_envelope (buf @ extra) = parse_body (buf @ extra) (declared_len buf)"
    using body by (simp add: decode_envelope_eq [of "buf @ extra"] Let_def)
  ultimately show ?thesis
    by (simp add: parse_body_append MIN_FRAME_LEN_def ENVELOPE_HEADER_LEN_def)
qed (use assms in \<open>auto simp: decode_envelope_eq [of "buf @ extra"] Let_def envelope_consts\<close>)

lemma decode_incomplete_bound:
  "decode_envelope buf = Inr Incomplete \<Longrightarrow> length buf < 4 + MAX_FRAME_LEN"
  by (auto simp: decode_envelope_eq Let_def parse_body_def MAX_FRAME_LEN_def split: if_splits)

lemma decode_frame_shrinks:
  "decode_envelope buf = Inr (Frame env rest) \<Longrightarrow> length rest + 14 \<le> length buf"
  using decode_frame_sound [of buf env rest]
  by (auto simp: receivable_def Suc_le_eq)

lemma decode_envelope_errors:
  "decode_envelope buf = Inl e \<Longrightarrow>
     (\<exists>n. e = UndersizedFrame n MIN_FRAME_LEN) \<or> (\<exists>n. e = OversizedFrame n MAX_FRAME_LEN)
     \<or> (\<exists>v. e = Error.VersionMismatch v PROTOCOL_VERSION)"
  by (auto simp: decode_envelope_eq Let_def parse_body_def split: if_splits)

subsection \<open>Properties\<close>

text \<open>
  Encoding an envelope with the current version and a non-empty payload and decoding the
  bytes, whatever bytes of the next frames follow them, gives the envelope back and leaves
  exactly the bytes that followed.
\<close>
lemma envelope_roundtrip:
  assumes "encode_envelope env = Inr b"
    and "version env = PROTOCOL_VERSION" and "payload env \<noteq> []"
  shows "decode_envelope (b @ rest) = Inr (Frame env rest)"
  using assms decode_frame [of env rest] by (simp add: encode_envelope_Inr_iff receivable_def)

lemma envelope_roundtrip_example:
  "decode_envelope ([0, 0, 0, 10, 1, 0, 0, 0, 0, 0, 0, 0, 1, 1] @ [0, 0])
     = Inr (Frame \<lparr>version = 1, nonce = 1, payload = [1]\<rparr> [0, 0])"
  by (rule envelope_roundtrip)
    (simp_all add: encode_envelope_Inr_iff sendable_def frame_bytes_def envelope_consts
      u32_to_be_bytes_def u64_to_be_bytes_def byte_simps)

text \<open>
  C24: The decoder accepts exactly the encoder's output: it returns a frame and a remainder if
  and only if the buffer is the encoding of that frame, with the current version and a payload
  of at least one byte, followed by the remainder. Nothing else is ever accepted.
\<close>
theorem decode_envelope_exact:
  "decode_envelope buf = Inr (Frame env rest) \<longleftrightarrow>
     version env = PROTOCOL_VERSION \<and> payload env \<noteq> []
     \<and> (\<exists>b. encode_envelope env = Inr b \<and> buf = b @ rest)"
  using decode_frame_sound [of buf env rest] decode_frame [of env rest]
  by (auto simp: encode_envelope_Inr_iff receivable_def)

text \<open>
  Decoding does not depend on how the stream is cut into reads: once the decoder has
  returned a frame or an error for the bytes received so far, more bytes never change that
  answer, they only extend the remainder.
\<close>
lemma decode_envelope_streaming:
  assumes "decode_envelope buf \<noteq> Inr Incomplete"
  shows "decode_envelope (buf @ extra) =
     (case decode_envelope buf of
        Inr (Frame env rest) \<Rightarrow> Inr (Frame env (rest @ extra))
      | r \<Rightarrow> r)"
  using assms by (rule decode_envelope_append)

lemma decode_envelope_streaming_example:
  "decode_envelope ([0, 0, 0, 1] @ [7]) = Inl (UndersizedFrame 1 10)"
proof -
  have "decode_envelope [0, 0, 0, 1] = Inl (UndersizedFrame 1 10)"
    by (simp add: decode_envelope_eq declared_len_def envelope_consts u32_from_be_bytes_def
        from_be_def Let_def)
  then show ?thesis using decode_envelope_streaming [of "[0, 0, 0, 1]" "[7]"] by simp
qed

text \<open>
  The decoder bounds what a peer can make the receiver hold and never takes a defensive
  branch: a buffer for which it asks for more is shorter than the length prefix and the largest
  frame, a returned frame consumes at least fourteen bytes and has an envelope of at most
  \<open>MAX_FRAME_LEN\<close> bytes, and the only errors are the length bounds and the version.
\<close>
lemma decode_envelope_bounds:
  "(case decode_envelope buf of
      Inr Incomplete \<Rightarrow> length buf < 4 + MAX_FRAME_LEN
    | Inr (Frame env rest) \<Rightarrow>
        length rest + 14 \<le> length buf \<and> 9 + length (payload env) \<le> MAX_FRAME_LEN
    | Inl e \<Rightarrow>
        (\<exists>n < MIN_FRAME_LEN. e = UndersizedFrame n MIN_FRAME_LEN)
        \<or> (\<exists>n > MAX_FRAME_LEN. e = OversizedFrame n MAX_FRAME_LEN)
        \<or> (\<exists>v. v \<noteq> PROTOCOL_VERSION \<and> e = Error.VersionMismatch v PROTOCOL_VERSION))"
proof (cases "decode_envelope buf")
  case (Inl e)
  then show ?thesis
    by (auto simp: decode_envelope_eq Let_def parse_body_def split: if_splits)
next
  case (Inr r)
  show ?thesis
  proof (cases r)
    case (Frame env rest)
    then show ?thesis
      using Inr decode_frame_sound [of buf env rest] decode_frame_shrinks [of buf env rest]
      by (simp add: receivable_def sendable_def)
  next
    case Incomplete
    then show ?thesis using Inr decode_incomplete_bound [of buf] by simp
  qed
qed

end
