(* ===== verification/Protocol_Wire.thy ===== *)
theory Protocol_Wire
  imports Protocol_Envelope Wire_Primitives
begin

section \<open>The message codec at the wire format of the known-answer tests\<close>

text \<open>
  Writers and readers for \<open>ClientFrame\<close> and \<open>DaemonFrame\<close> in the format of PROTOCOL.md section 3
  and \<open>core/tests/protocol_kat.rs\<close>: the variant index as a varint, then the fields in order.
  \<open>client_codec\<close> and \<open>daemon_codec\<close> are the two instances of the codec parameter; both satisfy the
  laws of \<open>payload_codec\<close>, and every frozen vector of the known-answer tests holds of them.
\<close>

subsection \<open>Unit enums\<close>

fun interval_tag :: "ReauthInterval \<Rightarrow> nat" where
  "interval_tag ReauthInterval.Off = 0"
| "interval_tag OneDay = 1"
| "interval_tag SevenDays = 2"
| "interval_tag ThirtyDays = 3"

definition interval_of_tag :: "nat \<Rightarrow> ReauthInterval option" where
  "interval_of_tag n = map_of [(0, ReauthInterval.Off), (1, OneDay), (2, SevenDays), (3, ThirtyDays)] n"

fun state_tag :: "PcState \<Rightarrow> nat" where
  "state_tag PcState.Off = 0"
| "state_tag Sleeping = 1"
| "state_tag OnLoggedOut = 2"
| "state_tag OnLocked = 3"
| "state_tag OnLoggedIn = 4"

definition state_of_tag :: "nat \<Rightarrow> PcState option" where
  "state_of_tag n = map_of [(0, PcState.Off), (1, Sleeping), (2, OnLoggedOut), (3, OnLocked),
     (4, OnLoggedIn)] n"

fun code_tag :: "ProtocolError \<Rightarrow> nat" where
  "code_tag NotPaired = 0"
| "code_tag Revoked = 1"
| "code_tag RequiresReauth = 2"
| "code_tag ProtocolError.VersionMismatch = 3"
| "code_tag MalformedFrame = 4"
| "code_tag NonceReplay = 5"
| "code_tag Unsupported = 6"
| "code_tag Internal = 7"

definition code_of_tag :: "nat \<Rightarrow> ProtocolError option" where
  "code_of_tag n = map_of [(0, NotPaired), (1, Revoked), (2, RequiresReauth),
     (3, ProtocolError.VersionMismatch), (4, MalformedFrame), (5, NonceReplay), (6, Unsupported),
     (7, Internal)] n"

definition put_tag :: "nat \<Rightarrow> bytes" where "put_tag n = put_varint n"

definition get_tag :: "nat reader" where "get_tag = get_varint 5 32"

definition get_enum :: "(nat \<Rightarrow> 'a option) \<Rightarrow> 'a reader" where
  "get_enum f = rbind get_tag (\<lambda>n. case f n of None \<Rightarrow> rfail | Some x \<Rightarrow> rreturn x)"

lemma get_tag_put [simp]: "n < 2 ^ 32 \<Longrightarrow> get_tag (put_tag n @ rest) = Some (n, rest)"
  by (simp add: get_tag_def put_tag_def get_varint_put)

lemma get_enum_put:
  "f n = Some x \<Longrightarrow> n < 2 ^ 32 \<Longrightarrow> get_enum f (put_tag n @ rest) = Some (x, rest)"
  by (simp add: get_enum_def)

lemma interval_tags [simp]: "interval_of_tag (interval_tag i) = Some i" "interval_tag i < 2 ^ 32"
  by (cases i; simp add: interval_of_tag_def)+

lemma state_tags [simp]: "state_of_tag (state_tag s) = Some s" "state_tag s < 2 ^ 32"
  by (cases s; simp add: state_of_tag_def)+

lemma code_tags [simp]: "code_of_tag (code_tag c) = Some c" "code_tag c < 2 ^ 32"
  by (cases c; simp add: code_of_tag_def)+

lemma get_enum_puts [simp]:
  "get_enum interval_of_tag (put_tag (interval_tag i) @ rest) = Some (i, rest)"
  "get_enum state_of_tag (put_tag (state_tag s) @ rest) = Some (s, rest)"
  "get_enum code_of_tag (put_tag (code_tag c) @ rest) = Some (c, rest)"
  by (rule get_enum_put, rule interval_tags, rule interval_tags)
    (rule get_enum_put, rule state_tags, rule state_tags,
     rule get_enum_put, rule code_tags, rule code_tags)

subsection \<open>Frames\<close>

fun put_client :: "ClientFrame \<Rightarrow> bytes" where
  "put_client (Pair name code) = put_tag 0 @ put_string name @ put_u32 code"
| "put_client Sleep = put_tag 1"
| "put_client Lock = put_tag 2"
| "put_client PowerOff = put_tag 3"
| "put_client StateProbe = put_tag 4"
| "put_client ReauthStatus = put_tag 5"
| "put_client (ReauthConfig i) = put_tag 6 @ put_tag (interval_tag i)"
| "put_client RevokeAck = put_tag 7"

definition get_client_body :: "nat \<Rightarrow> ClientFrame reader" where
  "get_client_body tag =
     (if tag = 0 then rbind get_string (\<lambda>name. rbind get_u32 (\<lambda>code. rreturn (Pair name code)))
      else if tag = 1 then rreturn Sleep
      else if tag = 2 then rreturn Lock
      else if tag = 3 then rreturn PowerOff
      else if tag = 4 then rreturn StateProbe
      else if tag = 5 then rreturn ReauthStatus
      else if tag = 6 then rbind (get_enum interval_of_tag) (\<lambda>i. rreturn (ReauthConfig i))
      else if tag = 7 then rreturn RevokeAck
      else rfail)"

definition get_client :: "ClientFrame reader" where
  "get_client = rbind get_tag get_client_body"

fun put_daemon :: "DaemonFrame \<Rightarrow> bytes" where
  "put_daemon (Ack n) = put_tag 0 @ put_u64 n"
| "put_daemon (StateReport s) = put_tag 1 @ put_tag (state_tag s)"
| "put_daemon (Revoke h n) = put_tag 2 @ spki_bytes h @ put_u64 n"
| "put_daemon (DaemonFrame.Error n c) = put_tag 3 @ put_u64 n @ put_tag (code_tag c)"
| "put_daemon (ReauthInfo a i e) = put_tag 4 @ put_u64 a @ put_tag (interval_tag i) @ put_u64 e"

definition get_daemon_body :: "nat \<Rightarrow> DaemonFrame reader" where
  "get_daemon_body tag =
     (if tag = 0 then rbind get_u64 (\<lambda>n. rreturn (Ack n))
      else if tag = 1 then rbind (get_enum state_of_tag) (\<lambda>s. rreturn (StateReport s))
      else if tag = 2 then
        rbind (get_bytes 32) (\<lambda>h. rbind get_u64 (\<lambda>n. rreturn (Revoke (SpkiHash h) n)))
      else if tag = 3 then
        rbind get_u64 (\<lambda>n. rbind (get_enum code_of_tag) (\<lambda>c. rreturn (DaemonFrame.Error n c)))
      else if tag = 4 then
        rbind get_u64 (\<lambda>a. rbind (get_enum interval_of_tag) (\<lambda>i. rbind get_u64 (\<lambda>e.
          rreturn (ReauthInfo a i e))))
      else rfail)"

definition get_daemon :: "DaemonFrame reader" where
  "get_daemon = rbind get_tag get_daemon_body"

definition wf_client :: "ClientFrame \<Rightarrow> bool" where
  "wf_client f = (case f of Pair name code \<Rightarrow> wf_string name | _ \<Rightarrow> True)"

definition wf_daemon :: "DaemonFrame \<Rightarrow> bool" where
  "wf_daemon f = (case f of Revoke h n \<Rightarrow> wf_spki h | _ \<Rightarrow> True)"

lemma get_client_put: "wf_client f \<Longrightarrow> get_client (put_client f @ rest) = Some (f, rest)"
  by (cases f)
    (simp_all add: get_client_def get_client_body_def wf_client_def)

lemma get_daemon_put: "wf_daemon f \<Longrightarrow> get_daemon (put_daemon f @ rest) = Some (f, rest)"
  by (cases f)
    (simp_all add: get_daemon_def get_daemon_body_def wf_daemon_def wf_spki_def)

lemma put_client_nonempty [simp]: "put_client f \<noteq> []"
  by (cases f) (simp_all add: put_tag_def)

lemma put_daemon_nonempty [simp]: "put_daemon f \<noteq> []"
  by (cases f) (simp_all add: put_tag_def)

definition reader_codec :: "('a \<Rightarrow> bytes) \<Rightarrow> 'a reader \<Rightarrow> 'a codec" where
  "reader_codec put get =
     \<lparr>to_allocvec = (\<lambda>x. Inr (put x)),
      take_from_bytes = (\<lambda>bs. case get bs of
         None \<Rightarrow> Inl ''deserialize'' | Some (x, rest) \<Rightarrow> Inr (x, rest))\<rparr>"

lemma reader_codec_simps [simp]:
  "to_allocvec (reader_codec put get) x = Inr (put x)"
  "take_from_bytes (reader_codec put get) bs =
     (case get bs of None \<Rightarrow> Inl ''deserialize'' | Some (x, rest) \<Rightarrow> Inr (x, rest))"
  by (simp_all add: reader_codec_def)

definition client_codec :: "ClientFrame codec" where
  "client_codec = reader_codec put_client get_client"

definition daemon_codec :: "DaemonFrame codec" where
  "daemon_codec = reader_codec put_daemon get_daemon"

interpretation client: payload_codec client_codec wf_client
  by unfold_locales (auto simp: client_codec_def get_client_put)

interpretation daemon: payload_codec daemon_codec wf_daemon
  by unfold_locales (auto simp: daemon_codec_def get_daemon_put)


subsection \<open>Properties\<close>

lemmas wire_eval =
  client_codec_def daemon_codec_def put_tag_def put_string_def put_len_def put_u32_def put_u64_def
  string_bytes_def

text \<open>
  Every frozen vector of \<open>core/tests/protocol_kat.rs\<close> holds in both directions at the wire
  codec: each message variant encodes to the committed bytes, and decoding these bytes gives the
  message back with no byte left over.
\<close>
lemma kat_vectors:
  "list_all (\<lambda>(f, b). encode_client_frame client_codec f = Inr b
                      \<and> decode_client_frame client_codec b = Inr f)
     ([(Pair ''Alice'' 7, [0, 5, 0x41, 0x6C, 0x69, 0x63, 0x65, 7]),
       (Sleep, [1]), (Lock, [2]), (PowerOff, [3]), (StateProbe, [4]), (ReauthStatus, [5]),
       (ReauthConfig ReauthInterval.Off, [6, 0]), (ReauthConfig OneDay, [6, 1]),
       (ReauthConfig SevenDays, [6, 2]), (ReauthConfig ThirtyDays, [6, 3]), (RevokeAck, [7])])
   \<and> list_all (\<lambda>(f, b). encode_daemon_frame daemon_codec f = Inr b
                      \<and> decode_daemon_frame daemon_codec b = Inr f)
     ([(Ack 1, [0, 1]),
       (StateReport PcState.Off, [1, 0]), (StateReport Sleeping, [1, 1]),
       (StateReport OnLoggedOut, [1, 2]), (StateReport OnLocked, [1, 3]),
       (StateReport OnLoggedIn, [1, 4]),
       (Revoke (SpkiHash (replicate 32 0xAA)) 3, 2 # replicate 32 0xAA @ [3]),
       (DaemonFrame.Error 0 NotPaired, [3, 0, 0]), (DaemonFrame.Error 0 Revoked, [3, 0, 1]),
       (DaemonFrame.Error 0 RequiresReauth, [3, 0, 2]),
       (DaemonFrame.Error 0 ProtocolError.VersionMismatch, [3, 0, 3]),
       (DaemonFrame.Error 0 MalformedFrame, [3, 0, 4]),
       (DaemonFrame.Error 0 NonceReplay, [3, 0, 5]), (DaemonFrame.Error 0 Unsupported, [3, 0, 6]),
       (DaemonFrame.Error 0 Internal, [3, 0, 7]),
       (ReauthInfo 1 SevenDays 2, [4, 1, 2, 2])])"
proof -
  have enc_c: "encode_client_frame client_codec f = Inr b" if "put_client f = b" for f b
    using that by (simp add: encode_client_frame_def client_codec_def)
  have dec_c: "decode_client_frame client_codec b = Inr f" if "put_client f = b" "wf_client f" for f b
    using client.decode_enc [of f b] that by (simp add: decode_client_frame_def client_codec_def)
  have enc_d: "encode_daemon_frame daemon_codec f = Inr b" if "put_daemon f = b" for f b
    using that by (simp add: encode_daemon_frame_def daemon_codec_def)
  have dec_d: "decode_daemon_frame daemon_codec b = Inr f" if "put_daemon f = b" "wf_daemon f" for f b
    using daemon.decode_enc [of f b] that by (simp add: decode_daemon_frame_def daemon_codec_def)
  show ?thesis
    by (simp only: list.pred_inject prod.case, intro conjI TrueI enc_c dec_c enc_d dec_d)
      (simp_all add: wire_eval wf_client_def wf_daemon_def wf_spki_def wf_string_def)
qed

text \<open>
  Whatever the encoder, a payload that does not decode is answered with the wire code
  \<open>MalformedFrame\<close>: bytes that are no message (an unknown variant tag included) and a message with
  bytes left over both map to it, so \<open>Unsupported\<close> is never the answer to an undecodable payload.
\<close>
lemma undecodable_payload_is_malformed:
  assumes "decode_client_frame c p = Inl e"
  shows "to_wire_code e = MalformedFrame
     \<and> ((\<exists>m. e = Decoding m \<and> take_from_bytes c p = Inl m)
        \<or> (\<exists>f rest. e = TrailingBytes (length rest) \<and> take_from_bytes c p = Inr (f, rest)
             \<and> rest \<noteq> []))"
  using assms
  by (auto simp: decode_client_frame_def decode_payload_def map_err_def
      split: sum.splits if_splits)

lemma undecodable_payload_is_malformed_example:
  "to_wire_code (Decoding ''deserialize'') = MalformedFrame
   \<and> decode_client_frame client_codec [99] = Inl (Decoding ''deserialize'')"
proof -
  have "decode_client_frame client_codec [99] = Inl (Decoding ''deserialize'')"
    by (simp add: decode_client_frame_def decode_payload_def client_codec_def get_client_def
        get_tag_def get_varint_def get_client_body_def rbind_def byte_simps)
  then show ?thesis using undecodable_payload_is_malformed [of client_codec "[99]"] by blast
qed

end
