(* ===== verification/Keystore_Wire.thy ===== *)
theory Keystore_Wire
  imports Daemon_Keystore Protocol_Wire
begin

section \<open>The keystore in postcard's format\<close>

text \<open>
  Concrete codecs for the two keystore layouts, in the documented postcard format and the field
  order of the source's structs. They show that the laws asked of the codec parameters of \<open>ks_env\<close>
  can hold, and they are what witnesses run on. The address and port of a \<open>SocketAddr\<close> are kept, as
  \<open>serde\<close> documents for binary formats.
\<close>

fun put_addr :: "SocketAddr \<Rightarrow> bytes" where
  "put_addr (V4 b p) = put_tag 0 @ b @ put_u16 p"
| "put_addr (V6 b p f s) = put_tag 1 @ b @ put_u16 p"

definition get_addr :: "SocketAddr reader" where
  "get_addr = rbind get_tag (\<lambda>t.
     if t = 0 then rbind (get_bytes 4) (\<lambda>b. rbind get_u16 (\<lambda>p. rreturn (V4 b p)))
     else if t = 1 then rbind (get_bytes 16) (\<lambda>b. rbind get_u16 (\<lambda>p. rreturn (V6 b p 0 0)))
     else rfail)"

definition get_spki :: "SpkiHash reader" where
  "get_spki = rbind (get_bytes 32) (\<lambda>b. rreturn (SpkiHash b))"

definition put_vec :: "bytes \<Rightarrow> bytes" where
  "put_vec b = put_len (length b) @ b"

definition get_vec :: "bytes reader" where
  "get_vec = rbind get_len get_bytes"

definition put_pairing_v1 :: "PairingRecordV1 \<Rightarrow> bytes" where
  "put_pairing_v1 p = put_string (phone_name_v1 p) @ spki_bytes (client_spki_v1 p)
     @ put_u64 (paired_at_unix_ms_v1 p) @ put_u64 (last_authenticated_at_unix_ms_v1 p)
     @ put_bool (revoked_v1 p) @ put_bool (revoke_pending_v1 p)"

definition get_pairing_v1 :: "PairingRecordV1 reader" where
  "get_pairing_v1 = rbind get_string (\<lambda>n. rbind get_spki (\<lambda>h. rbind get_u64 (\<lambda>t. rbind get_u64 (\<lambda>a.
     rbind get_bool (\<lambda>r. rbind get_bool (\<lambda>q. rreturn
       \<lparr>phone_name_v1 = n, client_spki_v1 = h, paired_at_unix_ms_v1 = t,
        last_authenticated_at_unix_ms_v1 = a, revoked_v1 = r, revoke_pending_v1 = q\<rparr>))))))"

definition put_pairing :: "DaemonPairingRecord \<Rightarrow> bytes" where
  "put_pairing p = put_string (phone_name p) @ spki_bytes (client_spki p)
     @ put_u64 (paired_at_unix_ms p) @ put_u64 (last_authenticated_at_unix_ms p)
     @ put_bool (revoked p) @ put_bool (revoke_pending p) @ put_option put_addr (last_known_address p)"

definition get_pairing :: "DaemonPairingRecord reader" where
  "get_pairing = rbind get_string (\<lambda>n. rbind get_spki (\<lambda>h. rbind get_u64 (\<lambda>t. rbind get_u64 (\<lambda>a.
     rbind get_bool (\<lambda>r. rbind get_bool (\<lambda>q. rbind (get_option get_addr) (\<lambda>k. rreturn
       \<lparr>phone_name = n, client_spki = h, paired_at_unix_ms = t,
        last_authenticated_at_unix_ms = a, revoked = r, revoke_pending = q,
        last_known_address = k\<rparr>)))))))"

definition put_contents :: "KeystoreContents \<Rightarrow> bytes" where
  "put_contents c = put_vec (ks_key_pkcs8_der c) @ put_vec (ks_cert_der c)
     @ put_list put_pairing (pairings c) @ put_u8 (reauth_interval_days c)
     @ put_u64 (ks_last_authenticated_at_unix_ms c)"

definition get_contents :: "KeystoreContents reader" where
  "get_contents = rbind get_vec (\<lambda>k. rbind get_vec (\<lambda>c. rbind (get_list get_pairing) (\<lambda>ps.
     rbind get_u8 (\<lambda>d. rbind get_u64 (\<lambda>a. rreturn
       \<lparr>ks_key_pkcs8_der = k, ks_cert_der = c, pairings = ps, reauth_interval_days = d,
        ks_last_authenticated_at_unix_ms = a\<rparr>)))))"

definition put_contents_v1 :: "KeystoreContentsV1 \<Rightarrow> bytes" where
  "put_contents_v1 c = put_vec (ks_key_pkcs8_der_v1 c) @ put_vec (ks_cert_der_v1 c)
     @ put_list put_pairing_v1 (pairings_v1 c) @ put_u8 (reauth_interval_days_v1 c)
     @ put_u64 (ks_last_authenticated_at_unix_ms_v1 c)"

definition get_contents_v1 :: "KeystoreContentsV1 reader" where
  "get_contents_v1 = rbind get_vec (\<lambda>k. rbind get_vec (\<lambda>c. rbind (get_list get_pairing_v1) (\<lambda>ps.
     rbind get_u8 (\<lambda>d. rbind get_u64 (\<lambda>a. rreturn
       \<lparr>ks_key_pkcs8_der_v1 = k, ks_cert_der_v1 = c, pairings_v1 = ps, reauth_interval_days_v1 = d,
        ks_last_authenticated_at_unix_ms_v1 = a\<rparr>)))))"

lemma get_tag_put_small [simp]: "n < 128 \<Longrightarrow> get_tag (put_tag n @ rest) = Some (n, rest)"
  by (simp only: get_tag_def put_tag_def) (rule get_varint_put; simp)

lemma get_addr_put: "wf_addr a \<Longrightarrow> get_addr (put_addr a @ rest) = Some (a, rest)"
  by (cases a) (simp_all add: get_addr_def)

lemma get_option_addr_put [simp]:
  "(case k of None \<Rightarrow> True | Some a \<Rightarrow> wf_addr a) \<Longrightarrow>
     get_option get_addr (put_option put_addr k @ rest) = Some (k, rest)"
  by (rule get_option_put) (simp add: get_addr_put)

lemma get_spki_put [simp]: "wf_spki h \<Longrightarrow> get_spki (spki_bytes h @ rest) = Some (h, rest)"
  by (cases h) (simp add: get_spki_def wf_spki_def)

lemma get_vec_put [simp]: "length b < 2 ^ 64 \<Longrightarrow> get_vec (put_vec b @ rest) = Some (b, rest)"
  by (simp add: get_vec_def put_vec_def)

lemma get_pairing_v1_put: "wf_pairing_v1 p \<Longrightarrow> get_pairing_v1 (put_pairing_v1 p @ rest) = Some (p, rest)"
  by (simp add: get_pairing_v1_def put_pairing_v1_def wf_pairing_v1_def)

lemma get_pairing_put: "wf_pairing p \<Longrightarrow> get_pairing (put_pairing p @ rest) = Some (p, rest)"
  by (simp add: get_pairing_def put_pairing_def wf_pairing_def)

lemma get_contents_put: "wf_contents c \<Longrightarrow> get_contents (put_contents c @ rest) = Some (c, rest)"
  by (simp add: get_contents_def put_contents_def wf_contents_def list_all_iff get_list_put get_pairing_put)

lemma get_contents_v1_put:
  "wf_contents_v1 c \<Longrightarrow> get_contents_v1 (put_contents_v1 c @ rest) = Some (c, rest)"
  by (simp add: get_contents_v1_def put_contents_v1_def wf_contents_v1_def list_all_iff get_list_put
      get_pairing_v1_put)

lemma put_contents_nonempty [simp]: "put_contents c \<noteq> []" "put_contents_v1 v \<noteq> []"
  by (simp_all add: put_contents_def put_contents_v1_def put_vec_def put_len_def)

definition keystore_codec :: "KeystoreContents codec" where
  "keystore_codec = reader_codec put_contents get_contents"

definition keystore_v1_codec :: "KeystoreContentsV1 codec" where
  "keystore_v1_codec = reader_codec put_contents_v1 get_contents_v1"

interpretation keystore: payload_codec keystore_codec wf_contents
  by unfold_locales (auto simp: keystore_codec_def get_contents_put)

interpretation keystore_v1: payload_codec keystore_v1_codec wf_contents_v1
  by unfold_locales (auto simp: keystore_v1_codec_def get_contents_v1_put)

subsection \<open>An environment that satisfies the laws\<close>

text \<open>A blob is a tag, the length and the data; one whose length does not fit is rejected.\<close>

definition sample_seal :: "bytes \<Rightarrow> bytes" where
  "sample_seal p = 0xDA # u32_to_be_bytes (of_nat (length p)) @ p"

definition sample_dpapi :: dpapi where
  "sample_dpapi =
     \<lparr>CryptProtectData = (\<lambda>p f. if length p < 2 ^ 32 - 5 then Inr (sample_seal p) else Inl 87),
      CryptUnprotectData = (\<lambda>c f. if c = sample_seal (drop 5 c) then Inr (drop 5 c) else Inl 13)\<rparr>"

lemma sample_seal_simps [simp]:
  "length (sample_seal p) = 5 + length p" "drop 5 (sample_seal p) = p" "sample_seal p \<noteq> []" "[] \<noteq> sample_seal p"
  by (simp_all add: sample_seal_def)

lemma sample_seal_cut:
  assumes "k < length (sample_seal p)" "length p < 2 ^ 32"
  shows "take k (sample_seal p) \<noteq> sample_seal q"
proof
  assume eq: "take k (sample_seal p) = sample_seal q"
  have "length (take k (sample_seal p)) = 5 + length q" by (simp add: eq)
  then have q: "length q < length p" "5 \<le> k" using assms(1) by simp_all
  then have "u32_to_be_bytes (of_nat (length p)) = u32_to_be_bytes (of_nat (length q))"
    using arg_cong [OF eq, of "\<lambda>x. take 4 (drop 1 x)"] by (simp add: sample_seal_def take_Cons' drop_take)
  then have "(of_nat (length p) :: u32) = of_nat (length q)" by (metis u32_be_roundtrip)
  then have "unat (of_nat (length p) :: u32) = unat (of_nat (length q) :: u32)" by simp
  with q(1) assms(2) show False by (simp add: unat_of_nat)
qed

definition sample_env :: "nat \<Rightarrow> ks_env" where
  "sample_env pid =
     \<lparr>ke_platform = (Windows, sample_dpapi), ke_pid = pid,
      contents_codec = keystore_codec, contents_v1_codec = keystore_v1_codec\<rparr>"

lemma sample_dpapi_ok [simp]: "dpapi_ok sample_dpapi"
  by (simp add: dpapi_ok_def sample_dpapi_def)

lemma sample_dpapi_rejects_cuts [simp]: "dpapi_rejects_cuts sample_dpapi"
  using sample_seal_cut by (auto simp: dpapi_rejects_cuts_def sample_dpapi_def split: if_splits)

lemma sample_env_rejects_cuts [simp]: "rejects_cuts (sample_env pid)"
  by (rule rejects_cutsI) (simp add: sample_env_def)

lemma sample_env_ok [simp]: "ks_ok (sample_env pid)"
  using keystore.payload_codec_axioms keystore_v1.payload_codec_axioms
  by (simp add: ks_ok_def sample_env_def)

end
