(* ===== verification/Keystore_Store.thy ===== *)
theory Keystore_Store
  imports Keystore_Wire
begin

section \<open>What a keystore file promises\<close>

text \<open>
  The value a keystore file stands for, the contract of \<open>load\<close> and \<open>save\<close> as the locale
  \<open>keystore_store\<close>, the proof that the code keeps it, and the properties of loading, saving and
  migrating. A crash between the two steps of a save leaves the files as a save does whose rename
  fails, so the statements about failing saves cover it.
\<close>

text \<open>The value on disk: what a load gives that is not stopped by the operating system.\<close>

definition ks_stored :: "ks_env \<Rightarrow> path \<Rightarrow> fs \<Rightarrow> KeystoreError + KeystoreContents option" where
  "ks_stored e p s =
     (case files s p of
        None \<Rightarrow> Inr None
      | Some ciphertext \<Rightarrow>
          (case map_err Encryption (platform_decrypt (ke_platform e) ciphertext) of
             Inl err \<Rightarrow> Inl err
           | Inr plain \<Rightarrow> map_ok Some (parse_plain e plain)))"

text \<open>The temporary file is not the keystore itself.\<close>

definition ks_place :: "ks_env \<Rightarrow> path \<Rightarrow> bool" where
  "ks_place e p \<longleftrightarrow> p \<noteq> [] \<and> last p \<noteq> tmp_name (ke_pid e)"

locale keystore_store =
  fixes ok :: "'e \<Rightarrow> bool"
    and place :: "'e \<Rightarrow> 'p \<Rightarrow> bool"
    and good :: "'c \<Rightarrow> bool"
    and io :: "'x \<Rightarrow> bool"
    and stored :: "'e \<Rightarrow> 'p \<Rightarrow> 'f \<Rightarrow> 'x + 'c option"
    and load :: "'e \<Rightarrow> 'p \<Rightarrow> 'f \<Rightarrow> ('x + 'c option) \<times> 'f"
    and save :: "'e \<Rightarrow> 'p \<Rightarrow> 'c \<Rightarrow> 'f \<Rightarrow> ('x + unit) \<times> 'f"
  assumes load_reads: "fst (load e p s) = stored e p s \<or> (\<exists>x. fst (load e p s) = Inl x \<and> io x)"
    and load_keeps: "stored e q (snd (load e p s)) = stored e q s"
    and save_stores: "ok e \<Longrightarrow> good c \<Longrightarrow> fst (save e p c s) = Inr () \<Longrightarrow>
          stored e p (snd (save e p c s)) = Inr (Some c)"
    and save_fails: "place e p \<Longrightarrow> fst (save e p c s) = Inl x \<Longrightarrow>
          stored e p (snd (save e p c s)) = stored e p s"
begin

lemma load_Inr: "fst (load e p s) = Inr r \<Longrightarrow> stored e p s = Inr r"
  using load_reads [of e p s] by auto

lemma load_Inl: "fst (load e p s) = Inl x \<Longrightarrow> io x \<or> stored e p s = Inl x"
  using load_reads [of e p s] by auto

lemma save_all_or_nothing:
  "ok e \<Longrightarrow> place e p \<Longrightarrow> good c \<Longrightarrow>
     stored e p (snd (save e p c s))
       = (case fst (save e p c s) of Inl _ \<Rightarrow> stored e p s | Inr _ \<Rightarrow> Inr (Some c))"
  using save_stores [of e c p s] save_fails [of e p c s] by (auto split: sum.split)

lemma load_after_save:
  assumes "ok e" "good c" "fst (save e p c s) = Inr ()"
    and "fst (load e p (snd (save e p c s))) = r"
  shows "r = Inr (Some c) \<or> (\<exists>x. r = Inl x \<and> io x)"
  using load_reads [of e p "snd (save e p c s)"] save_stores [OF assms(1-3)] assms(4) by auto

text \<open>The read-modify-write of every command: load, change, save.\<close>

lemma update_all_or_nothing:
  assumes "ok e" "place e p" "good (f c)"
    and "load e p s = (Inr (Some c), s')" "save e p (f c) s' = (r, s'')"
  shows "stored e p s = Inr (Some c)
     \<and> stored e p s'' = Inr (Some (case r of Inl _ \<Rightarrow> c | Inr _ \<Rightarrow> f c))"
proof -
  have "stored e p s = Inr (Some c)" using load_Inr [of e p s "Some c"] assms(4) by simp
  moreover from this have "stored e p s' = Inr (Some c)"
    using load_keeps [of e p p s] assms(4) by simp
  ultimately show ?thesis
    using save_all_or_nothing [OF assms(1,2,3), of s'] assms(5) by (cases r) simp_all
qed

end

subsection \<open>The code keeps the contract\<close>

fun is_io :: "KeystoreError \<Rightarrow> bool" where
  "is_io (Io (OtherIo _)) = True"
| "is_io _ = False"

lemma ks_load_files [simp]:
  "files (snd (ks_load e p s)) = files s" "dirs (snd (ks_load e p s)) = dirs s"
  using fs_read_same [of p s]
  by (cases "fs_read p s"; auto simp: ks_load_def split: sum.splits io_error.splits)+

lemma ks_stored_files: "files s = files s' \<Longrightarrow> ks_stored e p s = ks_stored e p s'"
  by (simp add: ks_stored_def)

lemma ks_load_reads: "fst (ks_load e p s) = ks_stored e p s \<or> (\<exists>x. fst (ks_load e p s) = Inl x \<and> is_io x)"
proof (cases "fst (fs_read p s)")
  case (Inl err)
  then show ?thesis
    using fs_read_NotFound [of p s]
    by (cases err) (auto simp: ks_load_def ks_stored_def split: prod.splits)
next
  case (Inr b)
  then show ?thesis
    using fs_read_Inr [of p s]
    by (auto simp: ks_load_def ks_stored_def split: prod.splits sum.splits)
qed

lemma tmp_other: "ks_place e p \<Longrightarrow> join (butlast p) (tmp_name (ke_pid e)) \<noteq> p"
  by (cases p rule: rev_cases) (auto simp: ks_place_def join_def)

lemma replace_file_Inl:
  assumes "fst (replace_file t p x s) = Inl err" "q \<noteq> t"
  shows "files (snd (replace_file t p x s)) q = files s q"
proof (cases "fs_write t x s")
  case (Pair r s1)
  then have "files s1 q = files s q" using fs_write_other [OF assms(2), of x s] by simp
  with Pair assms(1) fs_rename_Inl [of t p s1] show ?thesis
    by (cases r; cases "fs_rename t p s1") (auto simp: replace_file_def split: sum.splits)
qed

lemma replace_file_Inr:
  assumes "fst (replace_file t p x s) = Inr ()"
  shows "files (snd (replace_file t p x s)) = (files s)(t := None, p \<mapsto> x)"
proof (cases "fs_write t x s")
  case (Pair r s1)
  with assms have "r = Inr ()" by (cases r) (auto simp: replace_file_def)
  with Pair have "files s1 = (files s)(t \<mapsto> x)" using fs_write_Inr [of t x s] by simp
  with Pair \<open>r = Inr ()\<close> assms fs_rename_Inr [of t p s1] show ?thesis
    by (cases "fs_rename t p s1") (auto simp: replace_file_def split: sum.splits)
qed

lemma ks_save_cases:
  obtains err where "ks_save e p c s = (Inl err, s)"
  | b x where "to_allocvec (contents_codec e) c = Inr b"
      "platform_encrypt (ke_platform e) (2 # b) = Inr x" "p \<noteq> []"
      "ks_save e p c s = replace_file (join (butlast p) (tmp_name (ke_pid e))) p x s"
proof (cases "to_allocvec (contents_codec e) c")
  case (Inl err)
  then show ?thesis using that(1) by (simp add: ks_save_def)
next
  case b: (Inr b)
  show ?thesis
  proof (cases "platform_encrypt (ke_platform e) (2 # b)")
    case (Inl err)
    with b show ?thesis using that(1) by (simp add: ks_save_def KEYSTORE_FORMAT_VERSION_def)
  next
    case (Inr x)
    with b show ?thesis using that
      by (cases "p = []") (simp_all add: ks_save_def KEYSTORE_FORMAT_VERSION_def parent_def Let_def)
  qed
qed

lemma ks_save_Inl:
  assumes "fst (ks_save e p c s) = Inl err" "q \<noteq> join (butlast p) (tmp_name (ke_pid e))"
  shows "files (snd (ks_save e p c s)) q = files s q"
  using assms by (cases rule: ks_save_cases [of e p c s]) (simp_all add: replace_file_Inl)

lemma ks_save_Inr:
  assumes "fst (ks_save e p c s) = Inr ()"
  shows "\<exists>b x. to_allocvec (contents_codec e) c = Inr b
     \<and> platform_encrypt (ke_platform e) (2 # b) = Inr x
     \<and> files (snd (ks_save e p c s))
         = (files s)(join (butlast p) (tmp_name (ke_pid e)) := None, p \<mapsto> x)"
  using assms by (cases rule: ks_save_cases [of e p c s]) (auto simp: replace_file_Inr)

lemma ks_save_stores:
  assumes "ks_ok e" "wf_contents c" "fst (ks_save e p c s) = Inr ()"
  shows "ks_stored e p (snd (ks_save e p c s)) = Inr (Some c)"
proof -
  obtain b x where bx: "to_allocvec (contents_codec e) c = Inr b"
    "platform_encrypt (ke_platform e) (2 # b) = Inr x" "files (snd (ks_save e p c s)) p = Some x"
    using ks_save_Inr [OF assms(3)] by auto
  have "platform_decrypt (ke_platform e) x = Inr (2 # b)"
    using platform.dec_enc [OF _ bx(2)] assms(1) by (simp add: ks_ok_def)
  with bx assms(1,2) ks_ok_decode [of e c b "[]"] show ?thesis
    by (simp add: ks_stored_def parse_plain_v2)
qed

interpretation store:
  keystore_store ks_ok ks_place wf_contents is_io ks_stored ks_load ks_save
proof
  show "fst (ks_load e p s) = ks_stored e p s \<or> (\<exists>x. fst (ks_load e p s) = Inl x \<and> is_io x)" for e p s
    by (rule ks_load_reads)
  show "ks_stored e q (snd (ks_load e p s)) = ks_stored e q s" for e q p s
    by (rule ks_stored_files) simp
  show "ks_stored e p (snd (ks_save e p c s)) = Inr (Some c)"
    if "ks_ok e" "wf_contents c" "fst (ks_save e p c s) = Inr ()" for e c p s
    using that by (rule ks_save_stores)
  show "ks_stored e p (snd (ks_save e p c s)) = ks_stored e p s"
    if "ks_place e p" "fst (ks_save e p c s) = Inl x" for e p c s x
    using ks_save_Inl [OF that(2), of p] tmp_other [OF that(1)] by (simp add: ks_stored_def)
qed

subsection \<open>What a save may leave behind\<close>

lemma fs_write_file:
  "files (snd (fs_write t x s)) q = files s q \<or> (\<exists>k. files (snd (fs_write t x s)) q = Some (take k x))"
  by (cases "next_outcome s") (auto simp: fs_write_def split: io_outcome.splits option.splits intro: exI [of _ "length x"])

lemma fs_rename_file:
  "files (snd (fs_rename t p s)) q \<in> {files s q, None, files s t}"
  by (cases "next_outcome s") (auto simp: fs_rename_def split: io_outcome.splits option.splits)

lemma replace_file_file:
  "files (snd (replace_file t p x s)) q \<in> {files s q, None} \<or> (\<exists>k. files (snd (replace_file t p x s)) q = Some (take k x))"
proof (cases "fs_write t x s")
  case (Pair r s1)
  have w: "files s1 q' = files s q' \<or> (\<exists>k. files s1 q' = Some (take k x))" for q'
    using fs_write_file [of t x s q'] Pair by simp
  show ?thesis
  proof (cases r)
    case (Inl err)
    with Pair w [of q] show ?thesis by (auto simp: replace_file_def)
  next
    case (Inr u)
    with Pair have t: "files s1 t = Some x" using fs_write_Inr [of t x s] by simp
    from Pair Inr fs_rename_file [of t p s1 q] w [of q] t show ?thesis
      by (cases "fs_rename t p s1")
        (auto simp: replace_file_def split: sum.splits intro: exI [of _ "length x"])
  qed
qed

subsection \<open>Properties\<close>

text \<open>
  C13: What is saved is what is loaded: after a save that returns \<open>Ok\<close>, a load of the same path gives
  exactly the saved identity, pairings and re-authentication settings, or an error of the operating
  system's read; where DPAPI and postcard keep their documented laws and the addresses have no
  flow information or scope, which the format drops.
\<close>
theorem keystore_save_load_roundtrip:
  assumes "ks_ok e" "wf_contents c" "fst (ks_save e p c s) = Inr ()"
  shows "case fst (ks_load e p (snd (ks_save e p c s))) of
           Inr r \<Rightarrow> r = Some c
         | Inl x \<Rightarrow> is_io x"
  using store.load_after_save [OF assms refl] by (auto split: sum.split)

definition sample_contents :: KeystoreContents where
  "sample_contents =
     \<lparr>ks_key_pkcs8_der = [7, 7], ks_cert_der = [0x30, 7, 7],
      pairings = [\<lparr>phone_name = ''Alice'', client_spki = SpkiHash (replicate 32 1),
        paired_at_unix_ms = 5, last_authenticated_at_unix_ms = 5, revoked = False,
        revoke_pending = False, last_known_address = Some (V4 [192, 168, 1, 42] 51820)\<rparr>],
      reauth_interval_days = 7, ks_last_authenticated_at_unix_ms = 0\<rparr>"

definition sample_fs :: "io_outcome list \<Rightarrow> fs" where
  "sample_fs script = \<lparr>files = (\<lambda>q. None), dirs = [[], [''data'']], io_script = script\<rparr>"

lemma sample_contents_wf [simp]: "wf_contents sample_contents"
  by (simp add: wf_contents_def sample_contents_def wf_pairing_def wf_string_def wf_spki_def string_bytes_def)

abbreviation sample_path :: path where "sample_path \<equiv> [''data'', ''keystore.bin'']"

lemma sample_place [simp]: "ks_place (sample_env 7) sample_path"
  by (simp add: ks_place_def tmp_name_def)

lemma sample_save:
  "ks_save (sample_env 7) sample_path sample_contents s =
     replace_file (join [''data''] (tmp_name 7)) sample_path (sample_seal (2 # put_contents sample_contents)) s"
proof -
  have "length (put_contents sample_contents) < 2 ^ 32 - 8"
    by (simp add: sample_contents_def put_contents_def put_vec_def put_list_def put_pairing_def
        put_string_def put_option_def put_len_def put_u8_def put_u64_def put_u16_def put_bool_def
        put_tag_def put_varint.simps)
  then show ?thesis
    by (simp add: ks_save_def sample_env_def keystore_codec_def KEYSTORE_FORMAT_VERSION_def
        platform_encrypt_def windows_encrypt_def sample_dpapi_def u32_try_from_def parent_def)
qed

lemma sample_save_ok:
  "\<exists>s'. ks_save (sample_env 7) sample_path sample_contents (sample_fs []) = (Inr (), s')"
  by (simp add: sample_save replace_file_def fs_write_def fs_rename_def can_create_def
      next_outcome_calm sample_fs_def join_def tmp_name_def)

lemma sample_save_fails:
  "fst (ks_save (sample_env 7) sample_path sample_contents (sample_fs [IoFail ''disk full'' (Some 3)]))
     = Inl (Io (OtherIo ''disk full''))"
  by (simp add: sample_save replace_file_def fs_write_def next_outcome.simps sample_fs_def)

theorem keystore_save_load_roundtrip_witness:
  "\<exists>s'. ks_save (sample_env 7) sample_path sample_contents (sample_fs []) = (Inr (), s')
     \<and> (case fst (ks_load (sample_env 7) sample_path s') of
          Inr r \<Rightarrow> r = Some sample_contents
        | Inl x \<Rightarrow> is_io x)"
  using keystore_save_load_roundtrip [of "sample_env 7" sample_contents sample_path
      "sample_fs []"] sample_save_ok
  by auto

text \<open>
  C12: A save is atomic whatever the file system does: after it, every path but the keystore and its
  temporary file is as before, and the keystore stands for the old value if the save returned an
  error and for the new one if it returned \<open>Ok\<close>. A partial write or a failing rename is never
  visible in the keystore.
\<close>
theorem keystore_save_atomic:
  assumes "ks_ok e" "ks_place e p" "wf_contents c"
  shows "(\<forall>q. q = p \<or> q = join (butlast p) (tmp_name (ke_pid e))
            \<or> files (snd (ks_save e p c s)) q = files s q)
     \<and> ks_stored e p (snd (ks_save e p c s))
         = (case fst (ks_save e p c s) of Inl _ \<Rightarrow> ks_stored e p s | Inr _ \<Rightarrow> Inr (Some c))"
proof
  show "\<forall>q. q = p \<or> q = join (butlast p) (tmp_name (ke_pid e))
            \<or> files (snd (ks_save e p c s)) q = files s q"
  proof (cases "fst (ks_save e p c s)")
    case (Inl err)
    then show ?thesis using ks_save_Inl [OF Inl] by blast
  next
    case (Inr u)
    then show ?thesis using ks_save_Inr [of e p c s] by (auto split: if_splits)
  qed
  show "ks_stored e p (snd (ks_save e p c s))
         = (case fst (ks_save e p c s) of Inl _ \<Rightarrow> ks_stored e p s | Inr _ \<Rightarrow> Inr (Some c))"
    by (rule store.save_all_or_nothing [OF assms])
qed

theorem keystore_save_atomic_witness:
  "ks_stored (sample_env 7) sample_path
     (snd (ks_save (sample_env 7) sample_path sample_contents
             (sample_fs [IoFail ''disk full'' (Some 3)]))) = Inr None"
proof -
  have "ks_stored (sample_env 7) sample_path (sample_fs [IoFail ''disk full'' (Some 3)]) = Inr None"
    by (simp add: ks_stored_def sample_fs_def)
  with keystore_save_atomic [of "sample_env 7" sample_path sample_contents
      "sample_fs [IoFail ''disk full'' (Some 3)]"] sample_save_fails
  show ?thesis by simp
qed

text \<open>
  C28: The keystore never reaches the disk in the clear: what a save leaves at any path is what was
  there, nothing, or a prefix of the platform's ciphertext of the encoded contents. On a platform
  without an implementation nothing is written at all and the save returns an error.
\<close>
theorem keystore_only_ciphertext_on_disk:
  "(files (snd (ks_save e p c s)) q \<in> {files s q, None}
     \<or> (\<exists>b x k. to_allocvec (contents_codec e) c = Inr b
          \<and> platform_encrypt (ke_platform e) (KEYSTORE_FORMAT_VERSION # b) = Inr x
          \<and> files (snd (ks_save e p c s)) q = Some (take k x)))
   \<and> (case fst (ke_platform e) of Windows \<Rightarrow> True | OtherTarget \<Rightarrow> \<exists>x. ks_save e p c s = (Inl x, s))"
proof
  show "files (snd (ks_save e p c s)) q \<in> {files s q, None}
     \<or> (\<exists>b x k. to_allocvec (contents_codec e) c = Inr b
          \<and> platform_encrypt (ke_platform e) (KEYSTORE_FORMAT_VERSION # b) = Inr x
          \<and> files (snd (ks_save e p c s)) q = Some (take k x))"
  proof (cases rule: ks_save_cases [of e p c s])
    case (2 b x)
    with replace_file_file [of "join (butlast p) (tmp_name (ke_pid e))" p x s q] show ?thesis
      by (auto simp: KEYSTORE_FORMAT_VERSION_def)
  qed simp
  show "case fst (ke_platform e) of Windows \<Rightarrow> True | OtherTarget \<Rightarrow> \<exists>x. ks_save e p c s = (Inl x, s)"
    by (cases rule: ks_save_cases [of e p c s])
      (auto simp: platform_encrypt_def stub_encrypt_def split: target.split)
qed

text \<open>
  C16: Loading fails closed: it changes no file, it says "no keystore" only when there is no file at
  the path, it returns contents only if the file decrypts to a known format byte and decodes, and a
  file of another format is reported with its format byte. So a damaged, foreign or unreadable
  keystore is an error and never taken for a fresh install.
\<close>
theorem keystore_load_fails_closed:
  "files (snd (ks_load e p s)) = files s
   \<and> (case fst (ks_load e p s) of
        Inr None \<Rightarrow> files s p = None
      | Inr (Some c) \<Rightarrow>
          (\<exists>x f b. files s p = Some x \<and> platform_decrypt (ke_platform e) x = Inr (f # b)
             \<and> (f = 1 \<and> (\<exists>v. postcard_from_bytes (contents_v1_codec e) b = Inr v \<and> c = contents_from_v1 v)
                \<or> f = 2 \<and> postcard_from_bytes (contents_codec e) b = Inr c))
      | Inl (FormatVersion got expected) \<Rightarrow>
          got \<notin> {1, 2} \<and> expected = KEYSTORE_FORMAT_VERSION
          \<and> (\<exists>x b. files s p = Some x \<and> platform_decrypt (ke_platform e) x = Inr (got # b))
      | Inl (Io err) \<Rightarrow> err \<noteq> NotFound
      | Inl (Identity _) \<Rightarrow> False
      | Inl _ \<Rightarrow> files s p \<noteq> None)"
proof -
  have parse: "case parse_plain e plain of
        Inr c \<Rightarrow> \<exists>f b. plain = f # b
             \<and> (f = 1 \<and> (\<exists>v. postcard_from_bytes (contents_v1_codec e) b = Inr v \<and> c = contents_from_v1 v)
                \<or> f = 2 \<and> postcard_from_bytes (contents_codec e) b = Inr c)
      | Inl (Decode _) \<Rightarrow> True
      | Inl (FormatVersion got expected) \<Rightarrow>
          got \<notin> {1, 2} \<and> expected = KEYSTORE_FORMAT_VERSION \<and> (\<exists>b. plain = got # b)
      | Inl _ \<Rightarrow> False" for plain
    by (cases plain) (auto simp: parse_plain_def slice_defs map_err_def split: sum.splits)
  show ?thesis
  proof (cases "fs_read p s")
    case (Pair r s')
    with fs_read_same(1) [of p s] fs_read_Inr [of p s] fs_read_NotFound [of p s] show ?thesis
      using parse
      by (cases r) (fastforce simp: ks_load_def map_err_def map_ok_def
          split: io_error.splits sum.splits KeystoreError.splits)+
  qed
qed

lemma ks_load_stored_calm: "io_script s = [] \<Longrightarrow> p \<notin> set (dirs s) \<Longrightarrow> fst (ks_load e p s) = ks_stored e p s"
  by (auto simp: ks_load_def ks_stored_def fs_read_def next_outcome_calm
      split: option.splits sum.splits)

lemma ks_stored_v1:
  assumes "ks_ok e" "wf_contents_v1 v" "to_allocvec (contents_v1_codec e) v = Inr b"
    and "platform_encrypt (ke_platform e) (1 # b) = Inr x" "files s p = Some x"
  shows "ks_stored e p s = Inr (Some (contents_from_v1 v))"
proof -
  have "platform_decrypt (ke_platform e) x = Inr (1 # b)"
    using platform.dec_enc [OF _ assms(4)] assms(1) by (simp add: ks_ok_def)
  with ks_ok_decode_v1 [OF assms(1-3), of "[]"] show ?thesis
    using assms(5) by (simp add: ks_stored_def parse_plain_v1)
qed

text \<open>
  A version 1 keystore is migrated on load: the identity, every pairing with its revocation
  state and the re-authentication settings are kept, in order, and only the new address field is
  filled, with \<open>None\<close>. A phone is accepted after the migration exactly if it was before. The first
  save writes the migrated value in the current format.
\<close>
lemma keystore_v1_migration:
  assumes "ks_ok e" "wf_contents_v1 v" "to_allocvec (contents_v1_codec e) v = Inr b"
    and "platform_encrypt (ke_platform e) (1 # b) = Inr x" "files s p = Some x"
  shows "(fst (ks_load e p s) = Inr (Some (contents_from_v1 v))
           \<or> (\<exists>err. fst (ks_load e p s) = Inl err \<and> is_io err))
     \<and> device_identity_bytes (contents_from_v1 v)
         = \<lparr>key_pkcs8_der = ks_key_pkcs8_der_v1 v, cert_der = ks_cert_der_v1 v\<rparr>
     \<and> list_all (\<lambda>q. last_known_address q = None) (pairings (contents_from_v1 v))
     \<and> (\<forall>h. active_pairing (contents_from_v1 v) h
           = map_option pairing_from_v1 (find (\<lambda>q. \<not> revoked_v1 q \<and> client_spki_v1 q = h) (pairings_v1 v)))
     \<and> (fst (ks_save e p (contents_from_v1 v) s') \<noteq> Inr ()
         \<or> ks_stored e p (snd (ks_save e p (contents_from_v1 v) s')) = Inr (Some (contents_from_v1 v)))"
proof (intro conjI)
  show "fst (ks_load e p s) = Inr (Some (contents_from_v1 v))
           \<or> (\<exists>err. fst (ks_load e p s) = Inl err \<and> is_io err)"
    using store.load_reads [of e p s] ks_stored_v1 [OF assms] by simp
  show "device_identity_bytes (contents_from_v1 v)
         = \<lparr>key_pkcs8_der = ks_key_pkcs8_der_v1 v, cert_der = ks_cert_der_v1 v\<rparr>"
    by (simp add: device_identity_bytes_def contents_from_v1_def)
  show "list_all (\<lambda>q. last_known_address q = None) (pairings (contents_from_v1 v))"
    by (simp add: contents_from_v1_def list_all_iff)
  have "find (\<lambda>p. is_active p \<and> client_spki p = h) (map pairing_from_v1 qs)
      = map_option pairing_from_v1 (find (\<lambda>q. \<not> revoked_v1 q \<and> client_spki_v1 q = h) qs)" for h qs
    by (induction qs) simp_all
  then show "\<forall>h. active_pairing (contents_from_v1 v) h
      = map_option pairing_from_v1 (find (\<lambda>q. \<not> revoked_v1 q \<and> client_spki_v1 q = h) (pairings_v1 v))"
    by (simp add: active_pairing_def contents_from_v1_def)
  show "fst (ks_save e p (contents_from_v1 v) s') \<noteq> Inr ()
         \<or> ks_stored e p (snd (ks_save e p (contents_from_v1 v) s')) = Inr (Some (contents_from_v1 v))"
    using store.save_stores [OF assms(1) wf_from_v1 [OF assms(2)]] by auto
qed

definition legacy_contents :: KeystoreContentsV1 where
  "legacy_contents =
     \<lparr>ks_key_pkcs8_der_v1 = [7, 7], ks_cert_der_v1 = [0x30, 7, 7],
      pairings_v1 = [\<lparr>phone_name_v1 = ''legacy-phone'', client_spki_v1 = SpkiHash (replicate 32 0x42),
        paired_at_unix_ms_v1 = 1000, last_authenticated_at_unix_ms_v1 = 1000, revoked_v1 = False,
        revoke_pending_v1 = False\<rparr>],
      reauth_interval_days_v1 = 7, ks_last_authenticated_at_unix_ms_v1 = 0\<rparr>"

lemma keystore_v1_migration_example:
  "list_all (\<lambda>q. last_known_address q = None) (pairings (contents_from_v1 legacy_contents))
   \<and> platform_encrypt (ke_platform (sample_env 7)) (1 # put_contents_v1 legacy_contents)
       = Inr (sample_seal (1 # put_contents_v1 legacy_contents))"
proof -
  have wf: "wf_contents_v1 legacy_contents"
    by (simp add: wf_contents_v1_def legacy_contents_def wf_pairing_v1_def wf_string_def wf_spki_def
        string_bytes_def)
  have enc: "to_allocvec (contents_v1_codec (sample_env 7)) legacy_contents = Inr (put_contents_v1 legacy_contents)"
    by (simp add: sample_env_def keystore_v1_codec_def)
  have "length (put_contents_v1 legacy_contents) < 2 ^ 32 - 8"
    by (simp add: legacy_contents_def put_contents_v1_def put_vec_def put_list_def put_pairing_v1_def
        put_string_def put_len_def put_u8_def put_u64_def put_bool_def put_varint.simps)
  then have x: "platform_encrypt (ke_platform (sample_env 7)) (1 # put_contents_v1 legacy_contents)
      = Inr (sample_seal (1 # put_contents_v1 legacy_contents))"
    by (simp add: sample_env_def platform_encrypt_def windows_encrypt_def sample_dpapi_def u32_try_from_def)
  show ?thesis
    using keystore_v1_migration [OF sample_env_ok wf enc x,
        of "\<lparr>files = [sample_path \<mapsto> sample_seal (1 # put_contents_v1 legacy_contents)], dirs = [], io_script = []\<rparr>"
           sample_path "sample_fs []"] x
    by simp
qed

end
