(* ===== verification/Daemon_Platform.thy ===== *)
theory Daemon_Platform
  imports Daemon_Error
begin

section \<open>Operating-system handlers\<close>

text \<open>
  \<open>daemon/src/handlers.rs\<close> and \<open>daemon/src/platform/\<close>. The Win32 calls are foreign: the record
  \<open>winapi\<close> holds them over an abstract host. A call answers whether its \<open>BOOL\<close> is non-zero and the
  thread's last error after it. The process keeps the \<open>OnceLock\<close> of \<open>windows.rs\<close>, and the model
  counts what the calls allocate: token handles and session-information buffers. A \<open>dyn Handlers\<close>
  is a record of functions on a state.
\<close>

record 's Handlers =
  h_prepare :: "'s \<Rightarrow> (OsHandlerError + unit) \<times> 's"
  h_sleep :: "'s \<Rightarrow> (OsHandlerError + unit) \<times> 's"
  h_lock :: "'s \<Rightarrow> (OsHandlerError + unit) \<times> 's"
  h_power_off :: "'s \<Rightarrow> (OsHandlerError + unit) \<times> 's"
  h_session_state :: "'s \<Rightarrow> (OsHandlerError + PcState) \<times> 's"

record wts_info =
  SessionState :: "32 word"
  SessionFlags :: "32 word"

record 'o winapi =
  SetSuspendState :: "'o \<Rightarrow> (bool \<times> u32) \<times> 'o"
  LockWorkStation :: "'o \<Rightarrow> (bool \<times> u32) \<times> 'o"
  ExitWindowsEx :: "u32 \<Rightarrow> u32 \<Rightarrow> 'o \<Rightarrow> (bool \<times> u32) \<times> 'o"
  WTSGetActiveConsoleSessionId :: "'o \<Rightarrow> u32"
  WTSQuerySessionInformation :: "u32 \<Rightarrow> 'o \<Rightarrow> wts_info option"
  OpenProcessToken :: "'o \<Rightarrow> (bool \<times> u32) \<times> 'o"
  LookupPrivilegeValue :: "string \<Rightarrow> 'o \<Rightarrow> (bool \<times> u32) \<times> 'o"
  AdjustTokenPrivileges :: "'o \<Rightarrow> (bool \<times> u32) \<times> 'o"
  CloseHandle :: "'o \<Rightarrow> (bool \<times> u32) \<times> 'o"

record 'o process =
  SHUTDOWN_PRIVILEGE_READY :: "bool option"
  open_handles :: nat
  wts_buffers :: nat
  host :: 'o

definition EWX_POWEROFF :: u32 where "EWX_POWEROFF = 8"
definition EWX_FORCE :: u32 where "EWX_FORCE = 4"
definition SHTDN_REASON :: u32 where "SHTDN_REASON = 0x80000000"
definition WTSActive :: "32 word" where "WTSActive = 0"
definition WTS_SESSIONSTATE_LOCK :: "32 word" where "WTS_SESSIONSTATE_LOCK = 0"

definition os_api_error :: "string \<Rightarrow> u32 \<Rightarrow> OsHandlerError" where
  "os_api_error call n = OsApi (call @ '' failed: error '' @ decimal (unat n))"

subsection \<open>Windows\<close>

text \<open>Closing the token; the result is ignored, but the last error is then that of this call.\<close>

definition close_token :: "'o winapi \<Rightarrow> 'o process \<Rightarrow> u32 \<times> 'o process" where
  "close_token api st =
     (case CloseHandle api (host st) of
        ((_, n), h) \<Rightarrow> (n, st\<lparr>host := h, open_handles := open_handles st - 1\<rparr>))"

definition enable_shutdown_privilege ::
    "'o winapi \<Rightarrow> 'o process \<Rightarrow> (OsHandlerError + unit) \<times> 'o process" where
  "enable_shutdown_privilege api st =
     (case OpenProcessToken api (host st) of
        ((False, n), h) \<Rightarrow> (Inl (os_api_error ''OpenProcessToken'' n), st\<lparr>host := h\<rparr>)
      | ((True, _), h) \<Rightarrow>
          let st1 = st\<lparr>host := h, open_handles := Suc (open_handles st)\<rparr> in
          (case LookupPrivilegeValue api ''SeShutdownPrivilege'' (host st1) of
             ((False, _), h2) \<Rightarrow>
               (case close_token api (st1\<lparr>host := h2\<rparr>) of
                  (n, st2) \<Rightarrow> (Inl (os_api_error ''LookupPrivilegeValueW'' n), st2))
           | ((True, _), h2) \<Rightarrow>
               let st2 = st1\<lparr>host := h2\<rparr> in
               (case AdjustTokenPrivileges api (host st2) of
                  ((ok, err), h3) \<Rightarrow>
                    let st3 = snd (close_token api (st2\<lparr>host := h3\<rparr>)) in
                    if \<not> ok then (Inl (os_api_error ''AdjustTokenPrivileges'' err), st3)
                    else if err = 1300
                    then (Inl (NotPermitted ''process token does not hold SeShutdownPrivilege''), st3)
                    else (Inr (), st3))))"

definition privilege_ready :: "'o process \<Rightarrow> bool" where
  "privilege_ready st = (case SHUTDOWN_PRIVILEGE_READY st of None \<Rightarrow> False | Some b \<Rightarrow> b)"

text \<open>\<open>OnceLock::set\<close> keeps a value that is already there.\<close>

definition once_set :: "bool \<Rightarrow> 'o process \<Rightarrow> 'o process" where
  "once_set b st = (case SHUTDOWN_PRIVILEGE_READY st of
     None \<Rightarrow> st\<lparr>SHUTDOWN_PRIVILEGE_READY := Some b\<rparr> | Some _ \<Rightarrow> st)"

definition win_prepare :: "'o winapi \<Rightarrow> 'o process \<Rightarrow> (OsHandlerError + unit) \<times> 'o process" where
  "win_prepare api st =
     (if privilege_ready st then (Inr (), st)
      else
        (case enable_shutdown_privilege api st of
           (Inl e, st1) \<Rightarrow> (Inl e, st1)
         | (Inr _, st1) \<Rightarrow> (Inr (), once_set True st1)))"

definition win_sleep :: "'o winapi \<Rightarrow> 'o process \<Rightarrow> (OsHandlerError + unit) \<times> 'o process" where
  "win_sleep api st =
     (case SetSuspendState api (host st) of
        ((ok, n), h) \<Rightarrow>
          (if \<not> ok then Inl (os_api_error ''SetSuspendState'' n) else Inr (), st\<lparr>host := h\<rparr>))"

definition win_lock :: "'o winapi \<Rightarrow> 'o process \<Rightarrow> (OsHandlerError + unit) \<times> 'o process" where
  "win_lock api st =
     (case LockWorkStation api (host st) of
        ((ok, n), h) \<Rightarrow>
          (if \<not> ok then Inl (os_api_error ''LockWorkStation'' n) else Inr (), st\<lparr>host := h\<rparr>))"

definition win_power_off :: "'o winapi \<Rightarrow> 'o process \<Rightarrow> (OsHandlerError + unit) \<times> 'o process" where
  "win_power_off api st =
     (if \<not> privilege_ready st
      then (Inl (NotPermitted ''SE_SHUTDOWN_NAME not enabled - call prepare() at startup''), st)
      else
        (case ExitWindowsEx api (or EWX_POWEROFF EWX_FORCE) SHTDN_REASON (host st) of
           ((ok, n), h) \<Rightarrow>
             (if \<not> ok then Inl (os_api_error ''ExitWindowsEx'' n) else Inr (), st\<lparr>host := h\<rparr>)))"

definition win_session_state :: "'o winapi \<Rightarrow> 'o process \<Rightarrow> (OsHandlerError + PcState) \<times> 'o process" where
  "win_session_state api st =
     (let session_id = WTSGetActiveConsoleSessionId api (host st) in
      if session_id = 0xFFFFFFFF then (Inr OnLoggedOut, st)
      else
        (case WTSQuerySessionInformation api session_id (host st) of
           None \<Rightarrow> (Inr OnLoggedIn, st)
         | Some level1 \<Rightarrow>
             let st1 = st\<lparr>wts_buffers := Suc (wts_buffers st)\<rparr>;
                 st2 = st1\<lparr>wts_buffers := wts_buffers st1 - 1\<rparr> in
             if SessionState level1 \<noteq> WTSActive then (Inr OnLoggedOut, st2)
             else if SessionFlags level1 = WTS_SESSIONSTATE_LOCK then (Inr OnLocked, st2)
             else (Inr OnLoggedIn, st2)))"

subsection \<open>Other platforms\<close>

definition NOT_IMPLEMENTED :: string where
  "NOT_IMPLEMENTED = ''OS handler not implemented on this platform yet (M2 Win-only)''"

definition stub_prepare :: "'s \<Rightarrow> (OsHandlerError + unit) \<times> 's" where
  "stub_prepare s = (Inr (), s)"

definition stub_sleep :: "'s \<Rightarrow> (OsHandlerError + unit) \<times> 's" where
  "stub_sleep s = (Inl (OsApi NOT_IMPLEMENTED), s)"

definition stub_lock :: "'s \<Rightarrow> (OsHandlerError + unit) \<times> 's" where
  "stub_lock s = (Inl (OsApi NOT_IMPLEMENTED), s)"

definition stub_power_off :: "'s \<Rightarrow> (OsHandlerError + unit) \<times> 's" where
  "stub_power_off s = (Inl (OsApi NOT_IMPLEMENTED), s)"

definition stub_session_state :: "'s \<Rightarrow> (OsHandlerError + PcState) \<times> 's" where
  "stub_session_state s = (Inr OnLoggedIn, s)"

subsection \<open>The production handlers\<close>

definition windows_handlers :: "'o winapi \<Rightarrow> 'o process Handlers" where
  "windows_handlers api =
     \<lparr>h_prepare = win_prepare api, h_sleep = win_sleep api, h_lock = win_lock api,
      h_power_off = win_power_off api, h_session_state = win_session_state api\<rparr>"

definition stub_handlers :: "'s Handlers" where
  "stub_handlers =
     \<lparr>h_prepare = stub_prepare, h_sleep = stub_sleep, h_lock = stub_lock,
      h_power_off = stub_power_off, h_session_state = stub_session_state\<rparr>"

subsection \<open>The contract of a set of handlers\<close>

text \<open>
  What the server relies on: an invariant of the process that no handler breaks, and a session
  probe that never claims the host is off or asleep while the daemon answers.
\<close>

datatype HandlerCall = CallPrepare | CallSleep | CallLock | CallPowerOff | CallSession

fun run_call :: "'s Handlers \<Rightarrow> HandlerCall \<Rightarrow> 's \<Rightarrow> bool \<times> 's" where
  "run_call h CallPrepare s = map_prod is_ok id (h_prepare h s)"
| "run_call h CallSleep s = map_prod is_ok id (h_sleep h s)"
| "run_call h CallLock s = map_prod is_ok id (h_lock h s)"
| "run_call h CallPowerOff s = map_prod is_ok id (h_power_off h s)"
| "run_call h CallSession s = map_prod is_ok id (h_session_state h s)"

primrec run_calls :: "'s Handlers \<Rightarrow> HandlerCall list \<Rightarrow> 's \<Rightarrow> (HandlerCall \<times> bool) list \<times> 's" where
  "run_calls h [] s = ([], s)"
| "run_calls h (c # cs) s =
     (let (ok, s1) = run_call h c s; (oks, s2) = run_calls h cs s1 in ((c, ok) # oks, s2))"

locale os_handlers =
  fixes h :: "'s Handlers"
    and inv :: "'s \<Rightarrow> bool"
  assumes prepare_inv: "inv s \<Longrightarrow> inv (snd (h_prepare h s))"
    and sleep_inv: "inv s \<Longrightarrow> inv (snd (h_sleep h s))"
    and lock_inv: "inv s \<Longrightarrow> inv (snd (h_lock h s))"
    and power_off_inv: "inv s \<Longrightarrow> inv (snd (h_power_off h s))"
    and session_inv: "inv s \<Longrightarrow> inv (snd (h_session_state h s))"
    and session_awake: "fst (h_session_state h s) = Inr p \<Longrightarrow> p \<in> {OnLoggedOut, OnLocked, OnLoggedIn}"
begin

lemmas call_invs = prepare_inv sleep_inv lock_inv power_off_inv session_inv

lemma run_call_inv: "inv s \<Longrightarrow> inv (snd (run_call h c s))"
  by (cases c) (simp_all add: call_invs)

lemma run_calls_inv: "inv s \<Longrightarrow> inv (snd (run_calls h cs s))"
proof (induction cs arbitrary: s)
  case (Cons c cs)
  from Cons.IH [OF run_call_inv [OF Cons.prems, of c]] show ?case
    by (simp add: Let_def case_prod_beta)
qed simp

end

text \<open>Nothing is leaked, and the lock only ever holds \<open>True\<close>.\<close>

definition process_inv :: "'o process \<Rightarrow> bool" where
  "process_inv st \<longleftrightarrow> open_handles st = 0 \<and> wts_buffers st = 0
     \<and> SHUTDOWN_PRIVILEGE_READY st \<noteq> Some False"

definition process_start :: "'o \<Rightarrow> 'o process" where
  "process_start h = \<lparr>SHUTDOWN_PRIVILEGE_READY = None, open_handles = 0, wts_buffers = 0, host = h\<rparr>"

lemmas windows_defs = windows_handlers_def win_sleep_def win_lock_def win_power_off_def
  win_session_state_def

lemma enable_privilege_keeps:
  "open_handles (snd (enable_shutdown_privilege api st)) = open_handles st"
  "wts_buffers (snd (enable_shutdown_privilege api st)) = wts_buffers st"
  "SHUTDOWN_PRIVILEGE_READY (snd (enable_shutdown_privilege api st)) = SHUTDOWN_PRIVILEGE_READY st"
  by (auto simp: enable_shutdown_privilege_def close_token_def Let_def split: prod.splits bool.splits)

lemma win_prepare_keeps:
  "process_inv st \<Longrightarrow> process_inv (snd (win_prepare api st))"
  "process_inv st \<Longrightarrow> is_ok (fst (win_prepare api st)) = privilege_ready (snd (win_prepare api st))"
  "privilege_ready st \<Longrightarrow> privilege_ready (snd (win_prepare api st))"
  using enable_privilege_keeps [of api st]
  by (cases "enable_shutdown_privilege api st";
      auto simp: win_prepare_def process_inv_def privilege_ready_def once_set_def
        split: sum.splits option.splits if_splits)+

interpretation windows_os: os_handlers "windows_handlers api" process_inv for api
proof
  show "process_inv (snd (h_prepare (windows_handlers api) s))" if "process_inv s" for s
    using that by (simp add: windows_handlers_def win_prepare_keeps)
qed (auto simp: windows_defs process_inv_def Let_def split: prod.splits option.splits if_splits)

interpretation stub_os: os_handlers stub_handlers "\<lambda>s. True"
  by unfold_locales (simp_all add: stub_handlers_def stub_session_state_def)

lemma run_call_ready:
  assumes "process_inv st" "run_call (windows_handlers api) c st = (ok, st')"
  shows "privilege_ready st' \<longleftrightarrow> privilege_ready st \<or> (c = CallPrepare \<and> ok)"
proof (cases "c = CallPrepare")
  case True
  with assms have "ok = is_ok (fst (win_prepare api st))" "st' = snd (win_prepare api st)"
    by (auto simp: windows_handlers_def map_prod_def split: prod.splits)
  with True win_prepare_keeps [of st api] assms(1) show ?thesis by auto
next
  case False
  with assms(2) show ?thesis
    by (cases c) (auto simp: windows_defs privilege_ready_def Let_def
        split: prod.splits option.splits if_splits)
qed

lemma run_calls_ready:
  assumes "process_inv st" "run_calls (windows_handlers api) cs st = (oks, st')"
  shows "privilege_ready st' \<longleftrightarrow> privilege_ready st \<or> (CallPrepare, True) \<in> set oks"
  using assms
proof (induction cs arbitrary: st oks)
  case (Cons c cs)
  obtain ok st1 where c: "run_call (windows_handlers api) c st = (ok, st1)" by fastforce
  obtain oks' where cs: "run_calls (windows_handlers api) cs st1 = (oks', st')" "oks = (c, ok) # oks'"
    using Cons.prems c by (auto simp: Let_def split: prod.splits)
  have "process_inv st1" using windows_os.run_call_inv [OF Cons.prems(1), of api c] c by simp
  from Cons.IH [OF this cs(1)] run_call_ready [OF Cons.prems(1) c] cs(2) show ?case by auto
qed simp

subsection \<open>Properties\<close>

text \<open>
  C35: Whatever the host answers and in whatever order the handlers are called: no token handle and
  no session buffer is leaked, the daemon asks Windows to power off only after a \<open>prepare\<close> that
  returned \<open>Ok\<close> (before that \<open>power_off\<close> returns \<open>NotPermitted\<close> and touches nothing), \<open>prepare\<close> is
  idempotent once it has succeeded, and the session probe answers one of the three awake states.
\<close>
theorem windows_handlers_safe:
  "let (oks, st) = run_calls (windows_handlers api) cs (process_start h0) in
     open_handles st = 0 \<and> wts_buffers st = 0
     \<and> (if (CallPrepare, True) \<in> set oks
        then win_prepare api st = (Inr (), st)
        else win_power_off api st
           = (Inl (NotPermitted ''SE_SHUTDOWN_NAME not enabled - call prepare() at startup''), st))
     \<and> fst (win_session_state api st) \<in> {Inr OnLoggedOut, Inr OnLocked, Inr OnLoggedIn}"
proof -
  obtain oks st where r: "run_calls (windows_handlers api) cs (process_start h0) = (oks, st)"
    by fastforce
  have start: "process_inv (process_start h0)" "\<not> privilege_ready (process_start h0)"
    by (simp_all add: process_inv_def process_start_def privilege_ready_def)
  have "process_inv st" using windows_os.run_calls_inv [OF start(1), of api cs] r by simp
  moreover have "privilege_ready st \<longleftrightarrow> (CallPrepare, True) \<in> set oks"
    using run_calls_ready [OF start(1) r] start(2) by simp
  moreover have "fst (win_session_state api st) \<in> {Inr OnLoggedOut, Inr OnLocked, Inr OnLoggedIn}"
    by (auto simp: win_session_state_def Let_def split: option.splits)
  ultimately show ?thesis
    using r by (simp add: process_inv_def win_prepare_def win_power_off_def)
qed

end
