(* ===== verification/Daemon_Reauth.thy ===== *)
theory Daemon_Reauth
  imports Protocol_Message
begin

section \<open>The re-authentication window\<close>

text \<open>
  \<open>daemon/src/reauth.rs\<close>: pure functions of the clock, the time of the last credential prompt and
  the interval in days, with the saturating 64 bit arithmetic of the source.
\<close>

datatype ReauthState = Active | NeedsReauth

definition block_state_change :: "ReauthState \<Rightarrow> ProtocolError option" where
  "block_state_change s = (case s of Active \<Rightarrow> None | NeedsReauth \<Rightarrow> Some RequiresReauth)"

definition interval_from_days :: "u8 \<Rightarrow> ReauthInterval" where
  "interval_from_days days =
     (if days = 0 then ReauthInterval.Off
      else if days = 1 then OneDay
      else if days = 7 then SevenDays
      else if days = 30 then ThirtyDays
      else SevenDays)"

fun interval_to_days :: "ReauthInterval \<Rightarrow> u8" where
  "interval_to_days ReauthInterval.Off = 0"
| "interval_to_days OneDay = 1"
| "interval_to_days SevenDays = 7"
| "interval_to_days ThirtyDays = 30"

definition expires_at_unix_ms :: "u64 \<Rightarrow> u8 \<Rightarrow> u64" where
  "expires_at_unix_ms last_auth_unix_ms interval_days =
     (if interval_days = 0 then - 1
      else
        let window_ms = saturating_mul (ucast interval_days) 86400000 in
        saturating_add last_auth_unix_ms window_ms)"

definition evaluate :: "u64 \<Rightarrow> u64 \<Rightarrow> u8 \<Rightarrow> ReauthState" where
  "evaluate now_unix_ms last_auth_unix_ms interval_days =
     (if interval_days = 0 then Active
      else if now_unix_ms < expires_at_unix_ms last_auth_unix_ms interval_days then Active
      else NeedsReauth)"

subsection \<open>The window as a natural number\<close>

lemma unat_ucast_u8 [simp]: "unat (ucast (d :: u8) :: u64) = unat d"
proof -
  have "unat d < 2 ^ 64" using unsigned_less [of d, where ?'a = nat] by simp
  then show ?thesis by (simp add: unsigned_ucast_eq take_bit_nat_eq_self)
qed

lemma unat_window: "unat (saturating_mul (ucast (d :: u8) :: u64) 86400000) = unat d * 86400000"
proof -
  have "unat d < 256" using unsigned_less [of d, where ?'a = nat] by simp
  then have "unat d * 86400000 < 2 ^ 64" by simp
  then show ?thesis unfolding unat_saturating_mul by simp
qed

lemma unat_expires:
  "d \<noteq> 0 \<Longrightarrow> unat (expires_at_unix_ms a d) = min (unat a + unat d * 86400000) (2 ^ 64 - 1)"
  by (simp add: expires_at_unix_ms_def unat_saturating_add unat_window Let_def)

lemma evaluate_needs:
  "evaluate now a d = NeedsReauth \<longleftrightarrow>
     d \<noteq> 0 \<and> min (unat a + unat d * 86400000) (2 ^ 64 - 1) \<le> unat now"
proof (cases "d = 0")
  case False
  then show ?thesis
    by (auto simp: evaluate_def word_less_nat_alt not_less unat_expires min_le_iff_disj)
qed (simp add: evaluate_def)

lemma block_state_change_Some [simp]:
  "(block_state_change s = Some e) \<longleftrightarrow> s = NeedsReauth \<and> e = RequiresReauth"
  "(block_state_change s = None) \<longleftrightarrow> s = Active"
  by (cases s; auto simp: block_state_change_def)+

lemma from_to_days [simp]: "interval_from_days (interval_to_days i) = i"
  by (cases i) (simp_all add: interval_from_days_def)

lemma to_from_days: "interval_to_days (interval_from_days d) = d \<longleftrightarrow> d \<in> {0, 1, 7, 30}"
  by (auto simp: interval_from_days_def)

subsection \<open>Properties\<close>

text \<open>
  The gate closes exactly at the end of the window: with re-authentication off the daemon is
  always active, and otherwise it needs re-authentication exactly from the millisecond
  \<open>last + days * 86400000\<close> on (capped at the largest \<open>u64\<close>), the boundary included.
\<close>
lemma evaluate_exact:
  "evaluate now a d =
     (if d \<noteq> 0 \<and> min (unat a + unat d * 86400000) (2 ^ 64 - 1) \<le> unat now
      then NeedsReauth else Active)"
  using evaluate_needs [of now a d] by (cases "evaluate now a d") auto

text \<open>
  A stored interval and the interval reported to the phone mean the same window only for the
  four values the protocol knows: for any other stored number of days \<open>interval_from_days\<close> reports
  seven days while \<open>expires_at_unix_ms\<close> and the gate go on using the stored number. The four
  protocol values survive the conversion in both directions.
\<close>
lemma reported_interval_matches_window:
  "((\<forall>a. expires_at_unix_ms a (interval_to_days (interval_from_days d)) = expires_at_unix_ms a d)
      \<longleftrightarrow> d \<in> {0, 1, 7, 30})
   \<and> interval_from_days (interval_to_days i) = i"
proof -
  have "d \<in> {0, 1, 7, 30}"
    if same: "\<forall>a. expires_at_unix_ms a (interval_to_days (interval_from_days d)) = expires_at_unix_ms a d"
  proof (rule ccontr)
    assume other: "d \<notin> {0, 1, 7, 30}"
    then have "interval_to_days (interval_from_days d) = 7" "d \<noteq> 0"
      by (auto simp: interval_from_days_def)
    then have "unat (expires_at_unix_ms 0 7) = unat (expires_at_unix_ms 0 d)" using same by metis
    moreover have "unat d < 256" using unsigned_less [of d, where ?'a = nat] by simp
    ultimately have "unat d = 7" using \<open>d \<noteq> 0\<close> by (simp add: unat_expires)
    then have "d = 7" by (simp add: word_unat_eq_iff)
    with other show False by simp
  qed
  then show ?thesis using to_from_days [of d] by auto
qed

end
