(* ===== verification/Crypto_Tls.thy ===== *)
theory Crypto_Tls
  imports Crypto_Device
begin

section \<open>TLS configurations\<close>

text \<open>
  \<open>core/src/crypto/tls.rs\<close>. The \<open>rustls\<close> builders are foreign: \<open>rustls_lib\<close> holds their outcomes and
  the defaults a fresh configuration starts from. A configuration is a record of the settings the
  source makes.
\<close>

datatype tls_version = TLS12 | TLS13

datatype client_resumption = ResumptionDefault | ResumptionDisabled

datatype session_storage = StorageDefault | NoServerSessionStorage

record rustls_lib =
  with_protocol_versions :: "tls_version list \<Rightarrow> string + unit"
  with_client_auth_cert :: "bytes list \<Rightarrow> bytes \<Rightarrow> string + unit"
  with_single_cert :: "bytes list \<Rightarrow> bytes \<Rightarrow> string + unit"
  default_tls13_tickets :: nat
  default_early_data :: u32

record ClientConfig =
  cc_versions :: "tls_version list"
  cc_verifier :: PinnedServerVerifier
  cc_cert_chain :: "bytes list"
  cc_private_key :: bytes
  resumption :: client_resumption

record ServerConfig =
  sc_versions :: "tls_version list"
  sc_verifier :: PinnedClientVerifier
  sc_cert_chain :: "bytes list"
  sc_private_key :: bytes
  session_storage :: session_storage
  send_tls13_tickets :: nat
  max_early_data_size :: u32

definition identity_to_rustls :: "DeviceIdentity \<Rightarrow> bytes list \<times> bytes" where
  "identity_to_rustls i = ([id_cert_der i], id_key_pkcs8_der i)"

definition disable_server_resumption :: "ServerConfig \<Rightarrow> ServerConfig" where
  "disable_server_resumption c =
     c\<lparr>session_storage := NoServerSessionStorage, send_tls13_tickets := 0, max_early_data_size := 0\<rparr>"

definition client_config_for_pinned_daemon ::
    "rustls_lib \<Rightarrow> PinSet \<Rightarrow> DeviceIdentity \<Rightarrow> crypto_provider \<Rightarrow> CryptoError + ClientConfig" where
  "client_config_for_pinned_daemon lib daemon_pins client_identity provider =
     (let verifier = server_verifier_new daemon_pins provider;
          (cert_chain, private_key) = identity_to_rustls client_identity in
      case map_err RustlsConfig (with_protocol_versions lib [TLS13]) of
        Inl e \<Rightarrow> Inl e
      | Inr _ \<Rightarrow>
          (case map_err RustlsConfig (with_client_auth_cert lib cert_chain private_key) of
             Inl e \<Rightarrow> Inl e
           | Inr _ \<Rightarrow>
               let config = \<lparr>cc_versions = [TLS13], cc_verifier = verifier,
                             cc_cert_chain = cert_chain, cc_private_key = private_key,
                             resumption = ResumptionDefault\<rparr>
               in Inr (config\<lparr>resumption := ResumptionDisabled\<rparr>)))"

definition server_config ::
    "rustls_lib \<Rightarrow> PinnedClientVerifier \<Rightarrow> DeviceIdentity \<Rightarrow> CryptoError + ServerConfig" where
  "server_config lib verifier server_identity =
     (let (cert_chain, private_key) = identity_to_rustls server_identity in
      case map_err RustlsConfig (with_protocol_versions lib [TLS13]) of
        Inl e \<Rightarrow> Inl e
      | Inr _ \<Rightarrow>
          (case map_err RustlsConfig (with_single_cert lib cert_chain private_key) of
             Inl e \<Rightarrow> Inl e
           | Inr _ \<Rightarrow>
               let config = \<lparr>sc_versions = [TLS13], sc_verifier = verifier,
                             sc_cert_chain = cert_chain, sc_private_key = private_key,
                             session_storage = StorageDefault,
                             send_tls13_tickets = default_tls13_tickets lib,
                             max_early_data_size = default_early_data lib\<rparr>
               in Inr (disable_server_resumption config)))"

definition server_config_for_pinned_clients ::
    "rustls_lib \<Rightarrow> PinSet \<Rightarrow> DeviceIdentity \<Rightarrow> crypto_provider \<Rightarrow> CryptoError + ServerConfig" where
  "server_config_for_pinned_clients lib client_pins server_identity provider =
     server_config lib (client_verifier_pinned client_pins provider) server_identity"

definition server_config_for_pairing ::
    "rustls_lib \<Rightarrow> DeviceIdentity \<Rightarrow> crypto_provider \<Rightarrow> CryptoError + ServerConfig" where
  "server_config_for_pairing lib server_identity provider =
     server_config lib (client_verifier_pairing_window provider) server_identity"

text \<open>What PROTOCOL.md section 6 asks of a server: no version below 1.3 and no state kept.\<close>

definition hardened :: "ServerConfig \<Rightarrow> bool" where
  "hardened c \<longleftrightarrow> sc_versions c = [TLS13] \<and> session_storage c = NoServerSessionStorage
     \<and> send_tls13_tickets c = 0 \<and> max_early_data_size c = 0"

lemma server_config_Inr:
  "server_config lib v i = Inr c \<Longrightarrow>
     hardened c \<and> sc_verifier c = v \<and> sc_cert_chain c = [id_cert_der i]
     \<and> sc_private_key c = id_key_pkcs8_der i"
  by (auto simp: server_config_def identity_to_rustls_def hardened_def disable_server_resumption_def
      map_err_def Let_def split: sum.splits)

subsection \<open>Properties\<close>

text \<open>
  No downgrade and no resumption: a configuration the builders return speaks TLS 1.3 only,
  presents the daemon's own certificate, keeps no session storage, sends no tickets and takes no
  early data, whatever the defaults of the library; the running one admits only the given pins and
  the pairing one is the only one with the open verifier. The client's configuration likewise
  speaks TLS 1.3 only, checks the daemon's pins and disables resumption.
\<close>
lemma tls_configs_hardened:
  "(case server_config_for_pinned_clients lib ps i provider of
      Inr c \<Rightarrow> hardened c \<and> sc_cert_chain c = [id_cert_der i] \<and> cv_mode (sc_verifier c) = Pinned ps
    | Inl e \<Rightarrow> \<exists>m. e = RustlsConfig m)
   \<and> (case server_config_for_pairing lib i provider of
      Inr c \<Rightarrow> hardened c \<and> sc_cert_chain c = [id_cert_der i] \<and> cv_mode (sc_verifier c) = PairingWindow
    | Inl e \<Rightarrow> \<exists>m. e = RustlsConfig m)
   \<and> (case client_config_for_pinned_daemon lib ps i provider of
      Inr c \<Rightarrow> cc_versions c = [TLS13] \<and> resumption c = ResumptionDisabled
               \<and> sv_pinset (cc_verifier c) = ps \<and> cc_cert_chain c = [id_cert_der i]
    | Inl e \<Rightarrow> \<exists>m. e = RustlsConfig m)"
  by (auto simp: server_config_for_pinned_clients_def server_config_for_pairing_def
      client_config_for_pinned_daemon_def server_config_def identity_to_rustls_def hardened_def
      disable_server_resumption_def client_verifier_pinned_def client_verifier_pairing_window_def
      server_verifier_new_def map_err_def Let_def split: sum.split)

end
