(* ===== verification/Server_State.thy ===== *)
theory Server_State
  imports Keystore_Store Daemon_Platform Daemon_Reauth Crypto_Tls Crypto_Nonce
begin

section \<open>The daemon's state and its surroundings\<close>

text \<open>
  \<open>daemon/src/server/state.rs\<close> and what every command works on. \<open>daemon_env\<close> holds the libraries
  the daemon is linked with. \<open>world\<close> is what changes around it: the file system, the clock, the
  random source's call count, and the state of the OS handlers. The clock is the system time in
  milliseconds since the epoch at each reading; it may jump either way, and be before the epoch.
  \<open>SharedState\<close> is the record behind the \<open>Arc\<close>: the keystore contents under the lock, and the
  constant identity, configuration and handlers. The record of handlers is the \<open>dyn Handlers\<close>.
\<close>

record daemon_env =
  e_ks :: ks_env
  e_rcgen :: rcgen_lib
  e_x509 :: x509_lib
  e_rustls :: rustls_lib
  e_provider :: crypto_provider
  e_rng :: "nat \<Rightarrow> string + bytes"
  e_client_codec :: "ClientFrame codec"
  e_daemon_codec :: "DaemonFrame codec"

record 'o world =
  w_fs :: fs
  w_clock :: "nat \<Rightarrow> int"
  w_ticks :: nat
  w_rng :: nat
  w_os :: 'o

definition on_fs :: "(fs \<Rightarrow> 'a \<times> fs) \<Rightarrow> 'o world \<Rightarrow> 'a \<times> 'o world" where
  "on_fs f w = (case f (w_fs w) of (r, s) \<Rightarrow> (r, w\<lparr>w_fs := s\<rparr>))"

definition on_os :: "('o \<Rightarrow> 'a \<times> 'o) \<Rightarrow> 'o world \<Rightarrow> 'a \<times> 'o world" where
  "on_os f w = (case f (w_os w) of (r, s) \<Rightarrow> (r, w\<lparr>w_os := s\<rparr>))"

text \<open>
  \<open>SystemTime::now().duration_since(UNIX_EPOCH)\<close> in milliseconds: 0 before the epoch, and the
  largest \<open>u64\<close> when the count does not fit.
\<close>

definition unix_ms :: "int \<Rightarrow> u64" where
  "unix_ms t = (if t < 0 then 0 else if t < 2 ^ 64 then of_int t else - 1)"

definition unix_ms_now :: "'o world \<Rightarrow> u64 \<times> 'o world" where
  "unix_ms_now w = (unix_ms (w_clock w (w_ticks w)), w\<lparr>w_ticks := Suc (w_ticks w)\<rparr>)"

record 'o SharedState =
  contents :: KeystoreContents
  identity :: DeviceIdentity
  config :: Config
  handlers :: "'o Handlers"

definition with_handlers ::
    "KeystoreContents \<Rightarrow> DeviceIdentity \<Rightarrow> Config \<Rightarrow> 'o Handlers \<Rightarrow> 'o SharedState" where
  "with_handlers c i cfg h = \<lparr>contents = c, identity = i, config = cfg, handlers = h\<rparr>"

text \<open>\<open>PlatformHandlers\<close>: the free functions of the compiled platform.\<close>

definition platform_handlers :: "target \<Rightarrow> 'o winapi \<Rightarrow> 'o process Handlers" where
  "platform_handlers t api = (case t of Windows \<Rightarrow> windows_handlers api | OtherTarget \<Rightarrow> stub_handlers)"

definition shared_new ::
    "target \<Rightarrow> 'o winapi \<Rightarrow> KeystoreContents \<Rightarrow> DeviceIdentity \<Rightarrow> Config
       \<Rightarrow> 'o process SharedState" where
  "shared_new t api c i cfg = with_handlers c i cfg (platform_handlers t api)"

text \<open>\<open>read\<close> and \<open>snapshot\<close> give the contents; \<open>write\<close> is an update of them.\<close>

definition snapshot :: "'o SharedState \<Rightarrow> KeystoreContents" where
  "snapshot st = contents st"

definition state_write :: "(KeystoreContents \<Rightarrow> KeystoreContents) \<Rightarrow> 'o SharedState \<Rightarrow> 'o SharedState" where
  "state_write f st = st\<lparr>contents := f (contents st)\<rparr>"

definition state_save ::
    "daemon_env \<Rightarrow> 'o SharedState \<Rightarrow> 'o world \<Rightarrow> (KeystoreError + unit) \<times> 'o world" where
  "state_save env st = on_fs (ks_save (e_ks env) (keystore_path (config st)) (snapshot st))"

text \<open>The value on disk in a world.\<close>

definition disk :: "daemon_env \<Rightarrow> Config \<Rightarrow> 'o world \<Rightarrow> KeystoreError + KeystoreContents option" where
  "disk env cfg w = ks_stored (e_ks env) (keystore_path cfg) (w_fs w)"

definition os_kept :: "'o world \<Rightarrow> 'o world \<Rightarrow> bool" where
  "os_kept w w' \<longleftrightarrow> w_os w' = w_os w \<and> w_clock w' = w_clock w \<and> w_rng w' = w_rng w"

lemma os_kept_refl [simp]: "os_kept w w"
  by (simp add: os_kept_def)

lemma os_kept_trans [trans]: "os_kept u v \<Longrightarrow> os_kept v w \<Longrightarrow> os_kept u w"
  by (simp add: os_kept_def)

lemma unix_ms_now_kept [simp]: "os_kept w (snd (unix_ms_now w))" "w_fs (snd (unix_ms_now w)) = w_fs w"
  by (simp_all add: os_kept_def unix_ms_now_def)

lemma on_fs_kept [simp]: "os_kept w (snd (on_fs f w))" "w_ticks (snd (on_fs f w)) = w_ticks w"
  by (simp_all add: os_kept_def on_fs_def split: prod.split)

lemma on_fs_fs [simp]: "w_fs (snd (on_fs f w)) = snd (f (w_fs w))" "fst (on_fs f w) = fst (f (w_fs w))"
  by (simp_all add: on_fs_def split: prod.split)

lemma on_os_os [simp]: "w_os (snd (on_os f w)) = snd (f (w_os w))" "fst (on_os f w) = fst (f (w_os w))"
  "w_fs (snd (on_os f w)) = w_fs w" "w_ticks (snd (on_os f w)) = w_ticks w"
  by (simp_all add: on_os_def split: prod.split)

lemma state_save_kept [simp]: "os_kept w (snd (state_save env st w))"
  by (simp add: state_save_def)

lemma keystore_path_place [simp]: "ks_place e (keystore_path cfg)"
  by (simp add: ks_place_def keystore_path_def join_def tmp_name_def)

lemma state_save_disk:
  assumes "ks_ok (e_ks env)" "wf_contents (contents st)"
  shows "disk env (config st) (snd (state_save env st w))
    = (case fst (state_save env st w) of Inl _ \<Rightarrow> disk env (config st) w | Inr _ \<Rightarrow> Inr (Some (contents st)))"
  using store.save_all_or_nothing [OF assms(1) keystore_path_place assms(2)]
  by (simp add: disk_def state_save_def snapshot_def cong: sum.case_cong)

lemma unix_ms_range:
  "0 \<le> t \<Longrightarrow> t < 2 ^ 64 \<Longrightarrow> uint (unix_ms t) = t"
  "t < 0 \<Longrightarrow> unix_ms t = 0"
  "2 ^ 64 \<le> t \<Longrightarrow> unix_ms t = - 1"
  by (simp_all add: unix_ms_def uint_word_of_int_eq take_bit_int_eq_self)

end
