(* ===== verification/Tls_Stream.thy ===== *)
theory Tls_Stream
  imports Protocol_Envelope Daemon_Error
begin

section \<open>Reading and writing a TLS stream\<close>

text \<open>
  An established \<open>tokio_rustls\<close> stream, as the connection code uses it. What the peer sends arrives
  as a list of events: a chunk of plaintext, or an error of the transport; the list ends where the
  peer closes. So every stream ends: a peer that stays connected and silent, for whom the reads of the
  code would wait without a limit, is left to the theories that interleave tasks. A read takes at most the asked number of bytes of the head chunk and leaves the
  rest; an empty read is the end of the stream. Writing takes the next outcome of \<open>write_script\<close>
  and may fail after a prefix. Then \<open>read_envelope\<close> of \<open>daemon/src/server/connection.rs\<close> and
  \<open>read_one_envelope\<close> of \<open>daemon/src/pairing_flow.rs\<close>, the loops that reassemble one envelope. The
  reader's buffer is passed explicitly. An \<open>anyhow!("text: {e}")\<close> around an error is \<open>Context\<close>.
\<close>

datatype read_event = Chunk bytes | ReadErr string

record tls_stream =
  peer_certs :: "bytes list option"
  inbound :: "read_event list"
  write_script :: "io_outcome list"
  outbound :: bytes
  closed :: bool

definition READ_CHUNK :: usize where "READ_CHUNK = 4096"

definition tls_read :: "usize \<Rightarrow> tls_stream \<Rightarrow> (io_error + bytes) \<times> tls_stream" where
  "tls_read n t =
     (case inbound t of
        [] \<Rightarrow> (Inr [], t)
      | ReadErr m # r \<Rightarrow> (Inl (OtherIo m), t\<lparr>inbound := r\<rparr>)
      | Chunk b # r \<Rightarrow>
          (Inr (take n b), t\<lparr>inbound := if length b \<le> n then r else Chunk (drop n b) # r\<rparr>))"

definition tls_write_all :: "bytes \<Rightarrow> tls_stream \<Rightarrow> (io_error + unit) \<times> tls_stream" where
  "tls_write_all b t =
     (case write_script t of
        [] \<Rightarrow> (Inr (), t\<lparr>outbound := outbound t @ b\<rparr>)
      | IoOk # r \<Rightarrow> (Inr (), t\<lparr>outbound := outbound t @ b, write_script := r\<rparr>)
      | IoFail m k # r \<Rightarrow>
          (Inl (OtherIo m),
           t\<lparr>outbound := outbound t @ (case k of None \<Rightarrow> [] | Some n \<Rightarrow> take n b), write_script := r\<rparr>))"

text \<open>Its result is ignored everywhere.\<close>

definition tls_shutdown :: "tls_stream \<Rightarrow> tls_stream" where
  "tls_shutdown t = t\<lparr>closed := True\<rparr>"

fun event_size :: "read_event \<Rightarrow> nat" where
  "event_size (Chunk b) = length b"
| "event_size (ReadErr _) = 0"

definition in_size :: "tls_stream \<Rightarrow> nat" where
  "in_size t = sum_list (map event_size (inbound t))"

lemma tls_read_shrinks:
  "tls_read n t = (Inr b, t') \<Longrightarrow> length b + in_size t' = in_size t"
  by (auto simp: tls_read_def in_size_def split: list.splits read_event.splits if_splits)

lemma tls_read_less: "(Inr b, t') = tls_read n t \<Longrightarrow> b \<noteq> [] \<Longrightarrow> in_size t' < in_size t"
  using tls_read_shrinks [of n t b t'] by (cases b) simp_all

function read_envelope ::
    "bytes \<Rightarrow> tls_stream \<Rightarrow> (anyhow_error + Envelope option) \<times> bytes \<times> tls_stream" where
  "read_envelope buf t =
     (case decode_envelope buf of
        Inl e \<Rightarrow> (Inl (Context ''malformed framing from peer'' (FromProtocol e)), buf, t)
      | Inr (Frame env remainder) \<Rightarrow>
          let consumed = length buf - length remainder
          in (Inr (Some env), drop consumed buf, t)
      | Inr Incomplete \<Rightarrow>
          (case tls_read READ_CHUNK t of
             (Inl e, t') \<Rightarrow> (Inl (FromIo e), buf, t')
           | (Inr chunk, t') \<Rightarrow>
               if chunk = [] then
                 (if buf = [] then Inr None else Inl (Anyhow ''peer closed mid-frame''), buf, t')
               else read_envelope (buf @ chunk) t'))"
  by pat_completeness auto
termination
  by (relation "measure (in_size \<circ> snd)") (auto dest: tls_read_less)

declare read_envelope.simps [simp del]

function read_one_envelope ::
    "bytes \<Rightarrow> tls_stream \<Rightarrow> (anyhow_error + Envelope) \<times> bytes \<times> tls_stream" where
  "read_one_envelope buf t =
     (case decode_envelope buf of
        Inl e \<Rightarrow> (Inl (Context ''malformed framing'' (FromProtocol e)), buf, t)
      | Inr (Frame env remainder) \<Rightarrow>
          let consumed = length buf - length remainder
          in (Inr env, drop consumed buf, t)
      | Inr Incomplete \<Rightarrow>
          (case tls_read READ_CHUNK t of
             (Inl e, t') \<Rightarrow> (Inl (FromIo e), buf, t')
           | (Inr chunk, t') \<Rightarrow>
               if chunk = [] then (Inl (Anyhow ''peer closed mid-frame''), buf, t')
               else read_one_envelope (buf @ chunk) t'))"
  by pat_completeness auto
termination
  by (relation "measure (in_size \<circ> snd)") (auto dest: tls_read_less)

declare read_one_envelope.simps [simp del]

subsection \<open>The bytes a stream still delivers\<close>

text \<open>
  \<open>arriving\<close> is the concatenation of the chunks up to the end of the stream or the first error, and
  \<open>ending\<close> says which of the two stops it.
\<close>

fun arriving :: "read_event list \<Rightarrow> bytes" where
  "arriving [] = []"
| "arriving (ReadErr _ # _) = []"
| "arriving (Chunk b # r) = (if b = [] then [] else b @ arriving r)"

fun ending :: "read_event list \<Rightarrow> string option" where
  "ending [] = None"
| "ending (ReadErr m # _) = Some m"
| "ending (Chunk b # r) = (if b = [] then None else ending r)"

text \<open>A stream up to how its bytes are cut into chunks.\<close>

definition same_stream :: "tls_stream \<Rightarrow> tls_stream \<Rightarrow> bool" where
  "same_stream t u \<longleftrightarrow> peer_certs t = peer_certs u \<and> arriving (inbound t) = arriving (inbound u)
     \<and> ending (inbound t) = ending (inbound u) \<and> write_script t = write_script u
     \<and> outbound t = outbound u \<and> closed t = closed u"

text \<open>The part of the stream that reading leaves alone.\<close>

definition write_side :: "tls_stream \<Rightarrow> bytes list option \<times> io_outcome list \<times> bytes \<times> bool" where
  "write_side t = (peer_certs t, write_script t, outbound t, closed t)"

lemma tls_read_cases:
  obtains (error) m where "tls_read READ_CHUNK t = (Inl (OtherIo m), t\<lparr>inbound := tl (inbound t)\<rparr>)"
      "arriving (inbound t) = []" "ending (inbound t) = Some m"
    | (eof) t' where "tls_read READ_CHUNK t = (Inr [], t')" "write_side t' = write_side t"
      "arriving (inbound t) = []" "ending (inbound t) = None"
    | (chunk) b t' where "tls_read READ_CHUNK t = (Inr b, t')" "b \<noteq> []" "write_side t' = write_side t"
      "arriving (inbound t) = b @ arriving (inbound t')" "ending (inbound t') = ending (inbound t)"
      "in_size t' < in_size t"
proof (cases "inbound t")
  case Nil
  then show ?thesis by (intro eof) (simp_all add: tls_read_def)
next
  case (Cons ev r)
  show ?thesis
  proof (cases ev)
    case (ReadErr m)
    with Cons show ?thesis by (intro error) (simp_all add: tls_read_def)
  next
    case (Chunk b)
    show ?thesis
    proof (cases "b = []")
      case True
      with Cons Chunk show ?thesis
        by (intro eof [of "t\<lparr>inbound := r\<rparr>"]) (simp_all add: tls_read_def write_side_def)
    next
      case False
      let ?t = "t\<lparr>inbound := if length b \<le> READ_CHUNK then r else Chunk (drop READ_CHUNK b) # r\<rparr>"
      have e: "tls_read READ_CHUNK t = (Inr (take READ_CHUNK b), ?t)"
        using Cons Chunk by (simp add: tls_read_def)
      show ?thesis
      proof (rule chunk [OF e])
        show "take READ_CHUNK b \<noteq> []" using False by (simp add: READ_CHUNK_def)
        then show "in_size ?t < in_size t" using tls_read_shrinks [OF e] by (cases "take READ_CHUNK b") simp_all
        show "write_side ?t = write_side t" by (simp add: write_side_def)
        show "arriving (inbound t) = take READ_CHUNK b @ arriving (inbound ?t)"
          "ending (inbound ?t) = ending (inbound t)"
          using Cons Chunk False by (auto simp flip: append_assoc)
      qed
    qed
  qed
qed

subsection \<open>Reassembly\<close>

text \<open>What reading one envelope amounts to, of the buffered and arriving bytes as one list.\<close>

definition flat_read ::
    "bytes \<Rightarrow> string option \<Rightarrow> anyhow_error + (Envelope \<times> bytes) option" where
  "flat_read bs stop =
     (case decode_envelope bs of
        Inl e \<Rightarrow> Inl (Context ''malformed framing from peer'' (FromProtocol e))
      | Inr (Frame env rest) \<Rightarrow> Inr (Some (env, rest))
      | Inr Incomplete \<Rightarrow>
          (case stop of
             Some m \<Rightarrow> Inl (FromIo (OtherIo m))
           | None \<Rightarrow> if bs = [] then Inr None else Inl (Anyhow ''peer closed mid-frame'')))"

definition pending :: "bytes \<Rightarrow> tls_stream \<Rightarrow> bytes" where
  "pending buf t = buf @ arriving (inbound t)"

lemma drop_consumed:
  "decode_envelope buf = Inr (Frame env rest) \<Longrightarrow> drop (length buf - length rest) buf = rest"
  using decode_frame_sound [of buf env rest] by auto

lemma read_envelope_now:
  "decode_envelope buf = Inl e \<Longrightarrow>
     read_envelope buf t = (Inl (Context ''malformed framing from peer'' (FromProtocol e)), buf, t)"
  "decode_envelope buf = Inr (Frame env rest) \<Longrightarrow> read_envelope buf t = (Inr (Some env), rest, t)"
  by (simp_all add: read_envelope.simps [of buf t] drop_consumed Let_def)

text \<open>How \<open>read_envelope\<close> answers, and what it leaves for the next call.\<close>

definition reads_as :: "bytes \<Rightarrow> tls_stream \<Rightarrow> (anyhow_error + Envelope option) \<times> bytes \<times> tls_stream \<Rightarrow> bool" where
  "reads_as buf t out = (case out of (r, buf', t') \<Rightarrow>
     write_side t' = write_side t
     \<and> (case flat_read (pending buf t) (ending (inbound t)) of
          Inl e \<Rightarrow> r = Inl e
        | Inr None \<Rightarrow> r = Inr None
        | Inr (Some (env, rest)) \<Rightarrow>
            r = Inr (Some env) \<and> pending buf' t' = rest \<and> ending (inbound t') = ending (inbound t)))"

lemma reads_as_now:
  assumes "decode_envelope buf \<noteq> Inr Incomplete"
  shows "reads_as buf t (read_envelope buf t)"
proof (cases "decode_envelope buf")
  case (Inl e)
  with decode_envelope_append [OF assms, of "arriving (inbound t)"] show ?thesis
    by (simp add: reads_as_def read_envelope_now flat_read_def pending_def)
next
  case (Inr out)
  with assms obtain env rest where "decode_envelope buf = Inr (Frame env rest)" by (cases out) simp_all
  with decode_envelope_append [OF assms, of "arriving (inbound t)"] show ?thesis
    by (simp add: reads_as_def read_envelope_now flat_read_def pending_def)
qed

lemma read_envelope_reads: "reads_as buf t (read_envelope buf t)"
proof (induction buf t rule: read_envelope.induct)
  case (1 buf t)
  show ?case
  proof (cases "decode_envelope buf = Inr Incomplete")
    case False
    then show ?thesis by (rule reads_as_now)
  next
    case inc: True
    show ?thesis
    proof (cases rule: tls_read_cases [of t])
      case (error m)
      with inc show ?thesis
        by (simp add: reads_as_def read_envelope.simps [of buf t] flat_read_def pending_def write_side_def)
    next
      case (eof t')
      with inc show ?thesis
        by (simp add: reads_as_def read_envelope.simps [of buf t] flat_read_def pending_def)
    next
      case (chunk b t')
      then have "read_envelope buf t = read_envelope (buf @ b) t'"
        by (simp add: read_envelope.simps [of buf t] inc)
      moreover have "reads_as (buf @ b) t' (read_envelope (buf @ b) t')"
        using "1.IH" [OF inc refl chunk(1) [symmetric] refl chunk(2)] .
      ultimately show ?thesis using chunk
        by (cases "read_envelope (buf @ b) t'")
          (simp add: reads_as_def pending_def split: sum.splits option.splits prod.splits)
    qed
  qed
qed

text \<open>The bytes left are at least a minimal frame fewer.\<close>

lemma read_envelope_shrinks:
  "read_envelope buf t = (Inr (Some env), buf', t') \<Longrightarrow>
     length (pending buf' t') < length (pending buf t)"
  using read_envelope_reads [of buf t]
    decode_frame_shrinks [of "pending buf t" env "pending buf' t'"]
  by (auto simp: reads_as_def flat_read_def split: sum.splits DecodeOutcome.splits option.splits if_splits)

lemma read_envelope_write_side:
  "read_envelope buf t = (r, buf', t') \<Longrightarrow> write_side t' = write_side t"
  using read_envelope_reads [of buf t] by (simp add: reads_as_def)

text \<open>The pairing window's copy of the loop differs in its texts and in that it takes no clean end.\<close>

fun pairing_text :: "(anyhow_error + Envelope option) \<Rightarrow> anyhow_error + Envelope" where
  "pairing_text (Inl (Context m e)) = Inl (Context ''malformed framing'' e)"
| "pairing_text (Inl e) = Inl e"
| "pairing_text (Inr None) = Inl (Anyhow ''peer closed mid-frame'')"
| "pairing_text (Inr (Some env)) = Inr env"

lemma read_one_envelope_eq:
  "read_one_envelope buf t = map_prod pairing_text id (read_envelope buf t)"
proof (induction buf t rule: read_envelope.induct)
  case (1 buf t)
  note step = read_envelope.simps [of buf t] read_one_envelope.simps [of buf t]
  show ?case
  proof (cases "decode_envelope buf")
    case (Inr out)
    show ?thesis
    proof (cases out)
      case Incomplete
      note inc = Inr [unfolded Incomplete]
      show ?thesis
      proof (cases rule: tls_read_cases [of t])
        case (chunk b t')
        then show ?thesis
          using "1.IH" [OF inc refl chunk(1) [symmetric] refl chunk(2)] by (simp add: step inc)
      qed (simp_all add: step inc)
    qed (simp add: step Inr Let_def)
  qed (simp add: step)
qed

end
