(* ===== verification/Server_Connection.thy ===== *)
theory Server_Connection
  imports Server_State Tls_Stream
begin

section \<open>The per-connection protocol loop\<close>

text \<open>
  \<open>daemon/src/server/connection.rs\<close>. Every function takes the stream, the shared state and the world
  and returns them updated. Logging is left out. The awaits of one connection are taken to run to
  completion; other tasks may only run between two calls of the functions below.
\<close>

definition peer_spki_from_tls :: "daemon_env \<Rightarrow> tls_stream \<Rightarrow> anyhow_error + SpkiHash" where
  "peer_spki_from_tls env t =
     (case peer_certs t of
        None \<Rightarrow> Inl (Anyhow ''peer presented no certificates'')
      | Some certs \<Rightarrow>
          (case slice_first certs of
             None \<Rightarrow> Inl (Anyhow ''peer cert chain empty'')
           | Some leaf \<Rightarrow> map_err FromCrypto (extract_spki_hash (e_x509 env) leaf)))"

definition write_frame ::
    "daemon_env \<Rightarrow> tls_stream \<Rightarrow> NonceCounter \<Rightarrow> DaemonFrame
       \<Rightarrow> (anyhow_error + bool) \<times> tls_stream \<times> NonceCounter" where
  "write_frame env t nonces frame =
     (case issue (send nonces) of
        (None, snd') \<Rightarrow> (Inl (Anyhow ''send nonce overflowed (impossible - 584M years)''), t, nonces\<lparr>send := snd'\<rparr>)
      | (Some n, snd') \<Rightarrow>
          let nonces' = nonces\<lparr>send := snd'\<rparr> in
          (case map_err FromProtocol (encode_daemon_frame (e_daemon_codec env) frame) of
             Inl e \<Rightarrow> (Inl e, t, nonces')
           | Inr body \<Rightarrow>
               (case map_err FromProtocol
                       (encode_envelope \<lparr>version = PROTOCOL_VERSION, nonce = n, payload = body\<rparr>) of
                  Inl e \<Rightarrow> (Inl e, t, nonces')
                | Inr b \<Rightarrow>
                    (case tls_write_all b t of
                       (Inl e, t') \<Rightarrow> (Inl (FromIo e), t', nonces')
                     | (Inr _, t') \<Rightarrow> (Inr True, t', nonces')))))"

definition response_closes_connection :: "DaemonFrame \<Rightarrow> bool" where
  "response_closes_connection frame =
     (case frame of
        DaemonFrame.Error _ code \<Rightarrow>
          code \<in> {NotPaired, Revoked, ProtocolError.VersionMismatch, MalformedFrame, NonceReplay}
      | _ \<Rightarrow> False)"

definition send_error_and_close ::
    "daemon_env \<Rightarrow> tls_stream \<Rightarrow> u64 \<Rightarrow> ProtocolError \<Rightarrow> (anyhow_error + unit) \<times> tls_stream" where
  "send_error_and_close env t request_nonce code =
     (case map_err FromProtocol
             (encode_daemon_frame (e_daemon_codec env) (DaemonFrame.Error request_nonce code)) of
        Inl e \<Rightarrow> (Inl e, t)
      | Inr body \<Rightarrow>
          (case map_err FromProtocol
                  (encode_envelope \<lparr>version = PROTOCOL_VERSION, nonce = 1, payload = body\<rparr>) of
             Inl e \<Rightarrow> (Inl e, t)
           | Inr b \<Rightarrow> (Inr (), tls_shutdown (snd (tls_write_all b t)))))"

definition handler_to_response :: "OsHandlerError + unit \<Rightarrow> u64 \<Rightarrow> DaemonFrame" where
  "handler_to_response result request_nonce =
     (case result of
        Inr _ \<Rightarrow> Ack request_nonce
      | Inl e \<Rightarrow> DaemonFrame.Error request_nonce (os_to_wire_code e))"

text \<open>The three state-changing commands share their gate.\<close>

definition gated ::
    "ReauthState \<Rightarrow> ('o \<Rightarrow> (OsHandlerError + unit) \<times> 'o) \<Rightarrow> u64 \<Rightarrow> 'o SharedState \<Rightarrow> 'o world
       \<Rightarrow> DaemonFrame \<times> 'o SharedState \<times> 'o world" where
  "gated reauth_state handler request_nonce st w =
     (case block_state_change reauth_state of
        Some blocked \<Rightarrow> (DaemonFrame.Error request_nonce blocked, st, w)
      | None \<Rightarrow>
          (case on_os handler w of
             (result, w') \<Rightarrow> (handler_to_response result request_nonce, st, w')))"

definition dispatch ::
    "daemon_env \<Rightarrow> SpkiHash \<Rightarrow> ClientFrame \<Rightarrow> u64 \<Rightarrow> 'o SharedState \<Rightarrow> 'o world
       \<Rightarrow> DaemonFrame \<times> 'o SharedState \<times> 'o world" where
  "dispatch env peer_spki frame request_nonce st w0 =
     (case unix_ms_now w0 of (now_ms, w) \<Rightarrow>
      let snap = snapshot st;
          reauth_state = evaluate now_ms (ks_last_authenticated_at_unix_ms snap) (reauth_interval_days snap)
      in case frame of
        Pair _ _ \<Rightarrow> (DaemonFrame.Error request_nonce NotPaired, st, w)
      | Sleep \<Rightarrow> gated reauth_state (h_sleep (handlers st)) request_nonce st w
      | Lock \<Rightarrow> gated reauth_state (h_lock (handlers st)) request_nonce st w
      | PowerOff \<Rightarrow> gated reauth_state (h_power_off (handlers st)) request_nonce st w
      | StateProbe \<Rightarrow>
          (case on_os (h_session_state (handlers st)) w of
             (Inr s, w') \<Rightarrow> (StateReport s, st, w')
           | (Inl _, w') \<Rightarrow> (DaemonFrame.Error request_nonce Internal, st, w'))
      | ReauthStatus \<Rightarrow>
          (ReauthInfo (ks_last_authenticated_at_unix_ms snap)
             (interval_from_days (reauth_interval_days snap))
             (expires_at_unix_ms (ks_last_authenticated_at_unix_ms snap) (reauth_interval_days snap)), st, w)
      | ReauthConfig interval \<Rightarrow>
          let new_days = interval_to_days interval;
              st' = state_write (\<lambda>c. c\<lparr>reauth_interval_days := new_days\<rparr>) st
          in (case state_save env st' w of
                (Inl _, w') \<Rightarrow> (DaemonFrame.Error request_nonce Internal, st', w')
              | (Inr _, w') \<Rightarrow> (Ack request_nonce, st', w'))
      | RevokeAck \<Rightarrow>
          let before = length (pairings (contents st));
              st' = state_write (\<lambda>c. c\<lparr>pairings :=
                      filter (\<lambda>p. \<not> (client_spki p = peer_spki \<and> revoked p)) (pairings c)\<rparr>) st;
              removed = before - length (pairings (contents st'))
          in (Ack request_nonce, st', if removed > 0 then snd (state_save env st' w) else w))"

text \<open>The first pairing of the peer whose address differs gets the new one.\<close>

fun record_address :: "SpkiHash \<Rightarrow> SocketAddr \<Rightarrow> DaemonPairingRecord list \<Rightarrow> bool \<times> DaemonPairingRecord list" where
  "record_address peer_spki peer_addr [] = (False, [])"
| "record_address peer_spki peer_addr (p # ps) =
     (if client_spki p = peer_spki \<and> last_known_address p \<noteq> Some peer_addr
      then (True, p\<lparr>last_known_address := Some peer_addr\<rparr> # ps)
      else map_prod id ((#) p) (record_address peer_spki peer_addr ps))"

lemma tls_write_all_keeps [simp]:
  "peer_certs (snd (tls_write_all b t)) = peer_certs t"
  "inbound (snd (tls_write_all b t)) = inbound t"
  "closed (snd (tls_write_all b t)) = closed t"
  by (auto simp: tls_write_all_def split: list.splits io_outcome.splits)

lemma tls_write_all_pair:
  "tls_write_all b t = (r, t') \<Longrightarrow>
     peer_certs t' = peer_certs t \<and> inbound t' = inbound t \<and> closed t' = closed t"
  using tls_write_all_keeps [of b t] by simp

lemma write_frame_pair:
  "write_frame env t n f = (r, t', n') \<Longrightarrow>
     peer_certs t' = peer_certs t \<and> inbound t' = inbound t \<and> closed t' = closed t"
  by (auto simp: write_frame_def Let_def dest: tls_write_all_pair
      split: prod.splits option.splits sum.splits)

function conn_loop ::
    "daemon_env \<Rightarrow> SpkiHash \<Rightarrow> NonceCounter \<Rightarrow> bytes \<Rightarrow> tls_stream \<Rightarrow> 'o SharedState \<Rightarrow> 'o world
       \<Rightarrow> (anyhow_error + unit) \<times> tls_stream \<times> 'o SharedState \<times> 'o world" where
  "conn_loop env peer_spki nonces buf t st w =
     (case read_envelope buf t of
        (Inl e, buf1, t1) \<Rightarrow> (Inl e, t1, st, w)
      | (Inr None, buf1, t1) \<Rightarrow> (Inr (), t1, st, w)
      | (Inr (Some envelope), buf1, t1) \<Rightarrow>
          (case accept (recv nonces) (nonce envelope) of
             (Inl _, _) \<Rightarrow>
               (case send_error_and_close env t1 (nonce envelope) NonceReplay of (r, t2) \<Rightarrow> (r, t2, st, w))
           | (Inr _, recv') \<Rightarrow>
               (case decode_client_frame (e_client_codec env) (payload envelope) of
                  Inl e \<Rightarrow>
                    (case send_error_and_close env t1 (nonce envelope) (to_wire_code e) of
                       (r, t2) \<Rightarrow> (r, t2, st, w))
                | Inr frame \<Rightarrow>
                    (case dispatch env peer_spki frame (nonce envelope) st w of
                       (response, st1, w1) \<Rightarrow>
                         (case write_frame env t1 (nonces\<lparr>recv := recv'\<rparr>) response of
                            (Inl e, t2, _) \<Rightarrow> (Inl e, t2, st1, w1)
                          | (Inr wrote, t2, nonces2) \<Rightarrow>
                              if \<not> wrote then (Inr (), t2, st1, w1)
                              else if response_closes_connection response
                              then (Inr (), tls_shutdown t2, st1, w1)
                              else conn_loop env peer_spki nonces2 buf1 t2 st1 w1)))))"
  by pat_completeness auto
termination
  by (relation "measure (\<lambda>(_, _, _, buf, t, _, _). length (pending buf t))")
    (auto simp: pending_def dest!: read_envelope_shrinks [OF sym] write_frame_pair [OF sym])

declare conn_loop.simps [simp del]

definition conn_run ::
    "daemon_env \<Rightarrow> tls_stream \<Rightarrow> SocketAddr \<Rightarrow> 'o SharedState \<Rightarrow> 'o world
       \<Rightarrow> (anyhow_error + unit) \<times> tls_stream \<times> 'o SharedState \<times> 'o world" where
  "conn_run env t peer_addr st w =
     (case map_err (Context ''extracting peer SPKI from TLS session'') (peer_spki_from_tls env t) of
        Inl e \<Rightarrow> (Inl e, t, st, w)
      | Inr peer_spki \<Rightarrow>
          (case active_pairing (snapshot st) peer_spki of
             None \<Rightarrow> (case send_error_and_close env t 0 Revoked of (r, t1) \<Rightarrow> (r, t1, st, w))
           | Some _ \<Rightarrow>
               let (changed, ps) = record_address peer_spki peer_addr (pairings (contents st));
                   st1 = state_write (\<lambda>c. c\<lparr>pairings := ps\<rparr>) st;
                   w1 = (if changed then snd (state_save env st1 w) else w)
               in conn_loop env peer_spki counter_new [] t st1 w1))"

subsection \<open>Reading the loop one envelope at a time\<close>

lemma conn_loop_error:
  "read_envelope buf t = (Inl e, buf1, t1) \<Longrightarrow> conn_loop env h ns buf t st w = (Inl e, t1, st, w)"
  by (simp add: conn_loop.simps [of env h ns buf t st w])

lemma conn_loop_end:
  "read_envelope buf t = (Inr None, buf1, t1) \<Longrightarrow> conn_loop env h ns buf t st w = (Inr (), t1, st, w)"
  by (simp add: conn_loop.simps [of env h ns buf t st w])

text \<open>What one received envelope leads to, given the rest of the loop.\<close>

definition on_envelope ::
    "daemon_env \<Rightarrow> SpkiHash \<Rightarrow> NonceCounter \<Rightarrow> Envelope \<Rightarrow> tls_stream \<Rightarrow> 'o SharedState \<Rightarrow> 'o world
       \<Rightarrow> (NonceCounter \<Rightarrow> tls_stream \<Rightarrow> 'o SharedState \<Rightarrow> 'o world
             \<Rightarrow> (anyhow_error + unit) \<times> tls_stream \<times> 'o SharedState \<times> 'o world)
       \<Rightarrow> (anyhow_error + unit) \<times> tls_stream \<times> 'o SharedState \<times> 'o world" where
  "on_envelope env peer_spki nonces envelope t1 st w continue =
     (case accept (recv nonces) (nonce envelope) of
        (Inl _, _) \<Rightarrow>
          (case send_error_and_close env t1 (nonce envelope) NonceReplay of (r, t2) \<Rightarrow> (r, t2, st, w))
      | (Inr _, recv') \<Rightarrow>
          (case decode_client_frame (e_client_codec env) (payload envelope) of
             Inl e \<Rightarrow>
               (case send_error_and_close env t1 (nonce envelope) (to_wire_code e) of (r, t2) \<Rightarrow> (r, t2, st, w))
           | Inr frame \<Rightarrow>
               (case dispatch env peer_spki frame (nonce envelope) st w of
                  (response, st1, w1) \<Rightarrow>
                    (case write_frame env t1 (nonces\<lparr>recv := recv'\<rparr>) response of
                       (Inl e, t2, _) \<Rightarrow> (Inl e, t2, st1, w1)
                     | (Inr wrote, t2, nonces2) \<Rightarrow>
                         if \<not> wrote then (Inr (), t2, st1, w1)
                         else if response_closes_connection response
                         then (Inr (), tls_shutdown t2, st1, w1)
                         else continue nonces2 t2 st1 w1))))"

lemma conn_loop_envelope:
  "read_envelope buf t = (Inr (Some e), buf1, t1) \<Longrightarrow>
     conn_loop env h ns buf t st w =
       on_envelope env h ns e t1 st w (\<lambda>ns2 t2 st2 w2. conn_loop env h ns2 buf1 t2 st2 w2)"
  by (simp add: conn_loop.simps [of env h ns buf t st w] on_envelope_def)

text \<open>Induction over the envelopes a connection reads.\<close>

lemma conn_loop_induct [case_names failed eof envelope]:
  assumes "\<And>ns buf t st w e buf1 t1. read_envelope buf t = (Inl e, buf1, t1) \<Longrightarrow> P ns buf t st w"
    and "\<And>ns buf t st w buf1 t1. read_envelope buf t = (Inr None, buf1, t1) \<Longrightarrow> P ns buf t st w"
    and "\<And>ns buf t st w e buf1 t1. read_envelope buf t = (Inr (Some e), buf1, t1) \<Longrightarrow>
      (\<And>ns2 t2 st2 w2. inbound t2 = inbound t1 \<Longrightarrow> P ns2 buf1 t2 st2 w2) \<Longrightarrow> P ns buf t st w"
  shows "P ns buf t st w"
proof (induction "length (pending buf t)" arbitrary: ns buf t st w rule: less_induct)
  case less
  obtain r buf1 t1 where r: "read_envelope buf t = (r, buf1, t1)" by (cases "read_envelope buf t")
  show ?case
  proof (cases r)
    case (Inl e)
    with r show ?thesis by (auto intro: assms(1))
  next
    case (Inr out)
    show ?thesis
    proof (cases out)
      case None
      with r Inr show ?thesis by (auto intro: assms(2))
    next
      case (Some e)
      with r Inr have e: "read_envelope buf t = (Inr (Some e), buf1, t1)" by simp
      show ?thesis
      proof (rule assms(3) [OF e])
        show "P ns2 buf1 t2 st2 w2" if "inbound t2 = inbound t1" for ns2 t2 st2 w2
          by (rule less.hyps) (use read_envelope_shrinks [OF e] that in \<open>simp add: pending_def\<close>)
      qed
    qed
  qed
qed

end
