(* ===== verification/Connection_Facts.thy ===== *)
theory Connection_Facts
  imports Server_Connection
begin

section \<open>What a connection does\<close>

text \<open>
  Facts about the loop of \<open>Server_Connection\<close>: it depends on the bytes and not on how the transport
  cuts them; it keeps every invariant that the dispatch of one frame keeps (the locale
  \<open>server_invariant\<close>, interpreted at the invariants of the daemon); and on a stream it can write to,
  it is the session \<open>serve\<close> over the envelopes received.
\<close>

subsection \<open>Chunking\<close>

definition alike :: "bytes \<Rightarrow> tls_stream \<Rightarrow> bytes \<Rightarrow> tls_stream \<Rightarrow> bool" where
  "alike buf t buf' t' \<longleftrightarrow> pending buf t = pending buf' t'
     \<and> ending (inbound t) = ending (inbound t') \<and> write_side t = write_side t'"

lemma alike_read:
  assumes "alike buf t buf' t'" "read_envelope buf t = (r, buf1, t1)"
  shows "\<exists>buf1' t1'. read_envelope buf' t' = (r, buf1', t1') \<and> write_side t1' = write_side t1
     \<and> (\<forall>e. r = Inr (Some e) \<longrightarrow> alike buf1 t1 buf1' t1')"
proof (cases "read_envelope buf' t'")
  case (fields r' buf1' t1')
  with assms read_envelope_reads [of buf t] read_envelope_reads [of buf' t'] show ?thesis
    by (auto simp: alike_def reads_as_def split: sum.splits option.splits)
qed

lemma tls_write_all_alike:
  assumes "write_side t = write_side u"
  shows "fst (tls_write_all b t) = fst (tls_write_all b u)"
    "write_side (snd (tls_write_all b t)) = write_side (snd (tls_write_all b u))"
  using assms by (auto simp: tls_write_all_def write_side_def split: list.split io_outcome.split)

lemma tls_write_all_alike_pair:
  assumes "write_side t = write_side u" "tls_write_all b t = (r, t')"
  shows "\<exists>u'. tls_write_all b u = (r, u') \<and> write_side u' = write_side t'"
  using tls_write_all_alike [OF assms(1), of b] assms(2) by (cases "tls_write_all b u") auto

lemma write_side_shutdown:
  "write_side (tls_shutdown t) = (case write_side t of (c, k, b, _) \<Rightarrow> (c, k, b, True))"
  by (simp add: write_side_def tls_shutdown_def)

lemma send_error_alike:
  assumes "write_side t = write_side u" "send_error_and_close env t n code = (r, t')"
  shows "\<exists>u'. send_error_and_close env u n code = (r, u') \<and> write_side u' = write_side t'"
proof -
  have "fst (send_error_and_close env t n code) = fst (send_error_and_close env u n code)
      \<and> write_side (snd (send_error_and_close env t n code))
          = write_side (snd (send_error_and_close env u n code))"
    by (simp add: send_error_and_close_def write_side_shutdown assms(1)
        tls_write_all_alike(2) [OF assms(1)] split: sum.split)
  with assms(2) show ?thesis by (cases "send_error_and_close env u n code") simp
qed

lemma write_frame_alike:
  assumes "write_side t = write_side u" "write_frame env t ns f = (r, t', ns')"
  shows "\<exists>u'. write_frame env u ns f = (r, u', ns') \<and> write_side u' = write_side t'"
proof -
  have *: "fst (write_frame env t ns f) = fst (write_frame env u ns f)
      \<and> write_side (fst (snd (write_frame env t ns f))) = write_side (fst (snd (write_frame env u ns f)))
      \<and> snd (snd (write_frame env t ns f)) = snd (snd (write_frame env u ns f))"
    by (simp add: write_frame_def Let_def assms(1) case_prod_beta
        tls_write_all_alike [OF assms(1)] split: sum.split option.split)
  with assms(2) show ?thesis by (cases "write_frame env u ns f") simp
qed

text \<open>Two outcomes of a connection, up to what is left to read.\<close>

definition same_outcome ::
    "'r \<times> tls_stream \<times> 's \<times> 'w \<Rightarrow> 'r \<times> tls_stream \<times> 's \<times> 'w \<Rightarrow> bool" where
  "same_outcome x y \<longleftrightarrow> fst x = fst y \<and> write_side (fst (snd x)) = write_side (fst (snd y))
     \<and> snd (snd x) = snd (snd y)"

lemma same_outcome_simps [simp]:
  "same_outcome (r, t, s) (r', t', s') \<longleftrightarrow> r = r' \<and> write_side t = write_side t' \<and> s = s'"
  by (auto simp: same_outcome_def)

lemma same_outcome_split:
  "same_outcome (case x of (r, t) \<Rightarrow> (r, t, s)) (case y of (r, t) \<Rightarrow> (r, t, s'))
     \<longleftrightarrow> fst x = fst y \<and> write_side (snd x) = write_side (snd y) \<and> s = s'"
  by (auto split: prod.split)

lemma on_envelope_alike:
  assumes ws: "write_side t = write_side u"
    and k: "\<And>ns2 t2 u2 st2 w2. write_side t2 = write_side u2 \<Longrightarrow> inbound t2 = inbound t \<Longrightarrow>
      inbound u2 = inbound u \<Longrightarrow> same_outcome (k ns2 t2 st2 w2) (k' ns2 u2 st2 w2)"
  shows "same_outcome (on_envelope env h ns e t st w k) (on_envelope env h ns e u st w k')"
proof -
  have err: "same_outcome
      (case send_error_and_close env t n code of (r, t2) \<Rightarrow> (r, t2, st, w))
      (case send_error_and_close env u n code of (r, t2) \<Rightarrow> (r, t2, st, w))" for n code
    using send_error_alike [OF ws] by (cases "send_error_and_close env t n code") (fastforce split: prod.split)
  have frame: "same_outcome
      (case write_frame env t ns' f of
         (Inl e, t2, _) \<Rightarrow> (Inl e, t2, st1, w1)
       | (Inr wrote, t2, nonces2) \<Rightarrow>
           if \<not> wrote then (Inr (), t2, st1, w1)
           else if response_closes_connection f then (Inr (), tls_shutdown t2, st1, w1)
           else k nonces2 t2 st1 w1)
      (case write_frame env u ns' f of
         (Inl e, t2, _) \<Rightarrow> (Inl e, t2, st1, w1)
       | (Inr wrote, t2, nonces2) \<Rightarrow>
           if \<not> wrote then (Inr (), t2, st1, w1)
           else if response_closes_connection f then (Inr (), tls_shutdown t2, st1, w1)
           else k' nonces2 t2 st1 w1)" for ns' f st1 w1
  proof (cases "write_frame env t ns' f")
    case (fields r t2 ns2)
    from write_frame_alike [OF ws fields] obtain u2
      where u: "write_frame env u ns' f = (r, u2, ns2)" "write_side u2 = write_side t2" by blast
    show ?thesis
      using fields u k [of t2 u2] write_frame_pair [OF fields] write_frame_pair [OF u(1)]
      by (cases r) (simp_all add: write_side_shutdown)
  qed
  note [simp del] = same_outcome_simps
  obtain acc recv' where acc: "accept (recv ns) (nonce e) = (acc, recv')" by fastforce
  show ?thesis
  proof (cases acc)
    case (Inl err')
    with acc err show ?thesis by (simp add: on_envelope_def)
  next
    case ok: (Inr u')
    show ?thesis
    proof (cases "decode_client_frame (e_client_codec env) (payload e)")
      case (Inl err')
      with acc ok err show ?thesis by (simp add: on_envelope_def)
    next
      case (Inr f)
      obtain r st1 w1 where "dispatch env h f (nonce e) st w = (r, st1, w1)"
        by (cases "dispatch env h f (nonce e) st w")
      with acc ok Inr frame show ?thesis by (simp add: on_envelope_def)
    qed
  qed
qed

lemma conn_loop_alike:
  "alike buf t buf' u \<Longrightarrow>
     same_outcome (conn_loop env h ns buf t st w) (conn_loop env h ns buf' u st w)"
proof (induction ns buf t st w arbitrary: buf' u rule: conn_loop_induct)
  case (failed ns buf t st w e buf1 t1)
  from alike_read [OF failed(2,1)] failed(1) show ?case
    by (auto simp: conn_loop_error)
next
  case (eof ns buf t st w buf1 t1)
  from alike_read [OF eof(2,1)] eof(1) show ?case
    by (auto simp: conn_loop_end)
next
  case (envelope ns buf t st w e buf1 t1)
  from alike_read [OF envelope(3,1)] obtain buf1' u1
    where u: "read_envelope buf' u = (Inr (Some e), buf1', u1)" "write_side t1 = write_side u1"
      "alike buf1 t1 buf1' u1" by auto
  show ?case
    unfolding conn_loop_envelope [OF envelope(1)] conn_loop_envelope [OF u(1)]
  proof (rule on_envelope_alike [OF u(2)], goal_cases)
    case (1 ns2 t2 u2 st2 w2)
    then have "alike buf1 t2 buf1' u2" using u(3) by (simp add: alike_def pending_def)
    with 1(2) show ?case by (rule envelope(2))
  qed
qed

lemma same_stream_alike: "same_stream t u \<Longrightarrow> alike [] t [] u"
  by (simp add: same_stream_def alike_def pending_def write_side_def)

lemma conn_run_alike:
  assumes "same_stream t u"
  shows "same_outcome (conn_run env t a st w) (conn_run env u a st w)"
proof -
  have c: "peer_certs t = peer_certs u" and ws: "write_side t = write_side u"
    using assms by (simp_all add: same_stream_def write_side_def)
  have err: "same_outcome
      (case send_error_and_close env t n code of (r, t2) \<Rightarrow> (r, t2, st, w))
      (case send_error_and_close env u n code of (r, t2) \<Rightarrow> (r, t2, st, w))" for n code
    using send_error_alike [OF ws] by (cases "send_error_and_close env t n code") (fastforce split: prod.split)
  note [simp del] = same_outcome_simps
  have p: "peer_spki_from_tls env t = peer_spki_from_tls env u"
    by (simp add: peer_spki_from_tls_def c)
  show ?thesis
  proof (cases "peer_spki_from_tls env u")
    case (Inl e)
    with p ws show ?thesis by (simp add: conn_run_def same_outcome_def)
  next
    case (Inr h)
    with p err show ?thesis
      by (cases "active_pairing (snapshot st) h"; cases "record_address h a (pairings (contents st))")
        (simp_all add: conn_run_def Let_def conn_loop_alike [OF same_stream_alike [OF assms]])
  qed
qed

subsection \<open>Invariants of a connection\<close>

text \<open>
  What it takes to be an invariant of the server: the dispatch of one frame keeps it, whatever the
  frame and the peer, and so does the recording of an acceptable peer address.
\<close>

definition outcome_holds :: "('s \<Rightarrow> 'w \<Rightarrow> bool) \<Rightarrow> 'r \<times> 't \<times> 's \<times> 'w \<Rightarrow> bool" where
  "outcome_holds P x = P (fst (snd (snd x))) (snd (snd (snd x)))"

lemma outcome_holds_simp [simp]: "outcome_holds P (r, t, st, w) = P st w"
  by (simp add: outcome_holds_def)

locale server_invariant =
  fixes env :: daemon_env
    and addr_ok :: "SocketAddr \<Rightarrow> bool"
    and P :: "'o SharedState \<Rightarrow> 'o world \<Rightarrow> bool"
  assumes dispatch_inv: "P st w \<Longrightarrow> dispatch env h f n st w = (r, st', w') \<Longrightarrow> P st' w'"
    and address_inv: "P st w \<Longrightarrow> addr_ok a \<Longrightarrow> record_address h a (pairings (contents st)) = (ch, ps) \<Longrightarrow>
      P (state_write (\<lambda>c. c\<lparr>pairings := ps\<rparr>) st)
        (if ch then snd (state_save env (state_write (\<lambda>c. c\<lparr>pairings := ps\<rparr>) st) w) else w)"
begin

abbreviation "holds \<equiv> outcome_holds P"

lemma on_envelope_inv:
  assumes "P st w" and k: "\<And>ns2 t2 st2 w2. inbound t2 = inbound t \<Longrightarrow> P st2 w2 \<Longrightarrow> holds (k ns2 t2 st2 w2)"
  shows "holds (on_envelope env h ns e t st w k)"
proof -
  obtain acc recv' where acc: "accept (recv ns) (nonce e) = (acc, recv')" by fastforce
  show ?thesis
  proof (cases acc)
    case (Inl err)
    with acc assms(1) show ?thesis by (simp add: on_envelope_def split: prod.split)
  next
    case ok: (Inr u)
    show ?thesis
    proof (cases "decode_client_frame (e_client_codec env) (payload e)")
      case (Inl err)
      with acc ok assms(1) show ?thesis by (simp add: on_envelope_def split: prod.split)
    next
      case (Inr f)
      obtain r st1 w1 where d: "dispatch env h f (nonce e) st w = (r, st1, w1)"
        by (cases "dispatch env h f (nonce e) st w")
      from dispatch_inv [OF assms(1) d] have P1: "P st1 w1" .
      show ?thesis
      proof (cases "write_frame env t (ns\<lparr>recv := recv'\<rparr>) r")
        case (fields wr t2 ns2)
        with acc ok Inr d P1 k [of t2 st1 w1 ns2] write_frame_pair [OF fields] show ?thesis
          by (cases wr) (simp_all add: on_envelope_def)
      qed
    qed
  qed
qed

lemma conn_loop_inv: "P st w \<Longrightarrow> holds (conn_loop env h ns buf t st w)"
proof (induction ns buf t st w rule: conn_loop_induct)
  case (failed ns buf t st w e buf1 t1)
  then show ?case by (simp add: conn_loop_error)
next
  case (eof ns buf t st w buf1 t1)
  then show ?case by (simp add: conn_loop_end)
next
  case (envelope ns buf t st w e buf1 t1)
  show ?case
    unfolding conn_loop_envelope [OF envelope(1)]
    by (rule on_envelope_inv [OF envelope(3)]) (rule envelope(2))
qed

lemma conn_run_inv:
  assumes "P st w" "addr_ok a"
  shows "holds (conn_run env t a st w)"
proof (cases "peer_spki_from_tls env t")
  case (Inl e)
  with assms show ?thesis by (simp add: conn_run_def)
next
  case (Inr h)
  obtain ch ps where r: "record_address h a (pairings (contents st)) = (ch, ps)" by fastforce
  from Inr r assms conn_loop_inv [OF address_inv [OF assms r]] show ?thesis
    by (simp add: conn_run_def Let_def split: prod.split option.split)
qed

end

subsection \<open>What no connection can change\<close>

text \<open>
  The part of the keystore that decides who may do what: the daemon's key and certificate, the time
  of the last credential prompt, and the active pairings but for the cached addresses.
\<close>

definition core_view :: "KeystoreContents \<Rightarrow> bytes \<times> bytes \<times> u64 \<times> DaemonPairingRecord list" where
  "core_view c = (ks_key_pkcs8_der c, ks_cert_der c, ks_last_authenticated_at_unix_ms c,
     map (\<lambda>p. p\<lparr>last_known_address := None\<rparr>) (filter is_active (pairings c)))"

lemma core_view_days [simp]: "core_view (c\<lparr>reauth_interval_days := d\<rparr>) = core_view c"
  by (simp add: core_view_def)

lemma core_view_ack [simp]:
  "core_view (c\<lparr>pairings := filter (\<lambda>p. client_spki p = h \<longrightarrow> \<not> revoked p) (pairings c)\<rparr>) = core_view c"
  by (auto simp: core_view_def is_active_def intro!: arg_cong [of _ _ "map _"] filter_cong)

lemma record_address_core:
  "record_address h a ps = (ch, ps') \<Longrightarrow>
     map (\<lambda>p. p\<lparr>last_known_address := None\<rparr>) (filter is_active ps')
       = map (\<lambda>p. p\<lparr>last_known_address := None\<rparr>) (filter is_active ps)"
  by (induction ps arbitrary: ch ps') (auto simp: is_active_def map_prod_def split: if_splits prod.splits)

lemma record_address_same: "record_address h a ps = (False, ps') \<Longrightarrow> ps' = ps"
  by (induction ps arbitrary: ps') (auto simp: map_prod_def split: if_splits prod.splits)

lemma record_address_wf:
  "record_address h a ps = (ch, ps') \<Longrightarrow> list_all wf_pairing ps \<Longrightarrow> wf_addr a \<Longrightarrow>
     list_all wf_pairing ps' \<and> length ps' = length ps"
  by (induction ps arbitrary: ch ps') (auto simp: wf_pairing_def map_prod_def split: if_splits prod.splits)

lemma wf_contents_updates [simp]:
  "wf_contents c \<Longrightarrow> wf_contents (c\<lparr>reauth_interval_days := d\<rparr>)"
  "wf_contents c \<Longrightarrow> wf_contents (c\<lparr>pairings := filter Q (pairings c)\<rparr>)"
  by (auto simp: wf_contents_def list_all_iff intro: le_less_trans [OF length_filter_le])

text \<open>Memory and disk agree on the view \<open>v\<close>, and the constant parts are those of the start.\<close>

definition keeps_view ::
    "daemon_env \<Rightarrow> DeviceIdentity \<Rightarrow> Config \<Rightarrow> 'o Handlers \<Rightarrow> bytes \<times> bytes \<times> u64 \<times> DaemonPairingRecord list
       \<Rightarrow> 'o SharedState \<Rightarrow> 'o world \<Rightarrow> bool" where
  "keeps_view env i cfg hs v st w \<longleftrightarrow>
     ks_ok (e_ks env) \<and> identity st = i \<and> config st = cfg \<and> handlers st = hs
     \<and> wf_contents (contents st) \<and> core_view (contents st) = v
     \<and> (\<exists>c. disk env cfg w = Inr (Some c) \<and> core_view c = v)"

lemma keeps_view_save:
  assumes "keeps_view env i cfg hs v st w" "wf_contents c" "core_view c = v" "st' = st\<lparr>contents := c\<rparr>"
  shows "keeps_view env i cfg hs v st' (snd (state_save env st' w))"
  using assms state_save_disk [of env st' w]
  by (auto simp: keeps_view_def split: sum.splits)

lemma keeps_view_same_fs:
  "keeps_view env i cfg hs v st w \<Longrightarrow> w_fs w' = w_fs w \<Longrightarrow> keeps_view env i cfg hs v st w'"
  by (simp add: keeps_view_def disk_def)

lemma keeps_view_memory:
  "keeps_view env i cfg hs v st w \<Longrightarrow> wf_contents c \<Longrightarrow> core_view c = v \<Longrightarrow>
     keeps_view env i cfg hs v (st\<lparr>contents := c\<rparr>) w"
  by (simp add: keeps_view_def)

lemmas dispatch_simps = dispatch_def Let_def snapshot_def state_write_def

lemma on_os_pair: "on_os f w = (r, w') \<Longrightarrow> w_fs w' = w_fs w"
  using on_os_os(3) [of f w] by (metis snd_conv)

lemma gated_fs:
  "gated rs handler n st w = (r, st', w') \<Longrightarrow> st' = st \<and> w_fs w' = w_fs w"
  by (auto simp: gated_def dest: on_os_pair split: option.splits prod.splits)

lemma dispatch_cases:
  assumes "dispatch env h f n st w = (r, st', w')"
  obtains (same) "st' = st" "w_fs w' = w_fs w" "\<And>i. f \<noteq> ReauthConfig i" "f \<noteq> RevokeAck"
    | (config) i where "f = ReauthConfig i"
        "st' = st\<lparr>contents := (contents st)\<lparr>reauth_interval_days := interval_to_days i\<rparr>\<rparr>"
        "w' = snd (state_save env st' (snd (unix_ms_now w)))"
        "r = (if is_ok (fst (state_save env st' (snd (unix_ms_now w)))) then Ack n
              else DaemonFrame.Error n Internal)"
    | (ack) "f = RevokeAck"
        "st' = st\<lparr>contents := (contents st)\<lparr>pairings :=
            filter (\<lambda>p. client_spki p = h \<longrightarrow> \<not> revoked p) (pairings (contents st))\<rparr>\<rparr>"
        "w' = snd (unix_ms_now w) \<or> w' = snd (state_save env st' (snd (unix_ms_now w)))"
proof -
  obtain t w1 where t: "unix_ms_now w = (t, w1)" by fastforce
  then have fs: "w_fs w1 = w_fs w" using unix_ms_now_kept(2) [of w] by simp
  note d = assms [unfolded dispatch_simps t prod.case]
  show ?thesis
  proof (cases f)
    case (ReauthConfig i)
    show ?thesis
      by (rule config [OF ReauthConfig])
        (use d t in \<open>auto simp: ReauthConfig is_ok_def split: prod.splits sum.splits\<close>)
  next
    case RevokeAck
    show ?thesis
      by (rule ack [OF RevokeAck]) (use d t in \<open>auto simp: RevokeAck split: if_splits\<close>)
  next
    case StateProbe
    show ?thesis
      by (rule same)
        (use d fs StateProbe in \<open>auto dest: on_os_pair split: prod.splits sum.splits\<close>)
  qed (rule same; use d fs in \<open>auto dest: gated_fs\<close>)+
qed

interpretation keystore_view: server_invariant env wf_addr "keeps_view env i cfg hs v"
  for env :: daemon_env and i cfg and hs :: "'o Handlers" and v
proof
  fix st st' :: "'o SharedState" and w w' :: "'o world" and h f n r
  assume P: "keeps_view env i cfg hs v st w" and d: "dispatch env h f n st w = (r, st', w')"
  have P1: "keeps_view env i cfg hs v st (snd (unix_ms_now w))"
    by (rule keeps_view_same_fs [OF P]) simp
  have wf: "wf_contents (contents st)" "core_view (contents st) = v"
    using P by (simp_all add: keeps_view_def)
  from d show "keeps_view env i cfg hs v st' w'"
  proof (cases rule: dispatch_cases)
    case same
    then show ?thesis using keeps_view_same_fs [OF P] by simp
  next
    case (config i)
    then show ?thesis using keeps_view_save [OF P1 _ _ config(2)] wf by simp
  next
    case ack
    let ?c = "(contents st)\<lparr>pairings :=
      filter (\<lambda>p. client_spki p = h \<longrightarrow> \<not> revoked p) (pairings (contents st))\<rparr>"
    have c: "wf_contents ?c" "core_view ?c = v" using wf by simp_all
    from ack(3) show ?thesis
    proof
      assume "w' = snd (unix_ms_now w)"
      with keeps_view_memory [OF P1 c] ack(2) show ?thesis by simp
    next
      assume "w' = snd (state_save env st' (snd (unix_ms_now w)))"
      with keeps_view_save [OF P1 c ack(2)] show ?thesis by simp
    qed
  qed
next
  fix st :: "'o SharedState" and w :: "'o world" and a h ch ps
  assume P: "keeps_view env i cfg hs v st w" and a: "wf_addr a"
    and r: "record_address h a (pairings (contents st)) = (ch, ps)"
  have wf: "wf_contents ((contents st)\<lparr>pairings := ps\<rparr>)"
    using P record_address_wf [OF r _ a] by (simp add: keeps_view_def wf_contents_def)
  have v: "core_view ((contents st)\<lparr>pairings := ps\<rparr>) = v"
    using P record_address_core [OF r] by (auto simp: keeps_view_def core_view_def)
  show "keeps_view env i cfg hs v (state_write (\<lambda>c. c\<lparr>pairings := ps\<rparr>) st)
      (if ch then snd (state_save env (state_write (\<lambda>c. c\<lparr>pairings := ps\<rparr>) st) w) else w)"
    using keeps_view_save [OF P wf v refl] keeps_view_memory [OF P wf v]
    by (simp add: state_write_def)
qed

text \<open>Every invariant of a set of handlers is one of the connections that use them.\<close>

lemma dispatch_os:
  assumes "dispatch env h f n st w = (r, st', w')"
  shows "handlers st' = handlers st \<and> w_os w' \<in>
     {w_os w, snd (h_sleep (handlers st) (w_os w)), snd (h_lock (handlers st) (w_os w)),
      snd (h_power_off (handlers st) (w_os w)), snd (h_session_state (handlers st) (w_os w))}"
proof -
  obtain t w1 where t: "unix_ms_now w = (t, w1)" by fastforce
  then have os: "w_os w1 = w_os w" using unix_ms_now_kept(1) [of w] by (simp add: os_kept_def)
  have save': "w_os (snd (state_save env st2 w1)) = w_os w" for st2 :: "'a SharedState"
    using state_save_kept [of w1 env st2] os by (simp add: os_kept_def)
  have save: "w_os w2 = w_os w" if "state_save env st2 w1 = (x, w2)" for st2 :: "'a SharedState" and x w2
    using save' [of st2] that by simp
  have onos: "w_os w2 = snd (k (w_os w))" if "on_os k w1 = (x, w2)" for x w2 and k :: "'a \<Rightarrow> 'b \<times> 'a"
    using that os by (auto simp: on_os_def split: prod.splits)
  note d = assms [unfolded dispatch_simps gated_def t prod.case]
  show ?thesis
    by (cases f) (use d os in \<open>auto simp: save' dest: save onos split: option.splits prod.splits sum.splits if_splits\<close>)
qed

sublocale os_handlers \<subseteq> served: server_invariant env "\<lambda>a. True" "\<lambda>st w. handlers st = h \<and> inv (w_os w)"
  for env :: daemon_env
proof (unfold_locales, goal_cases)
  case (1 st w p f n r st' w')
  then have "handlers st = h" and i: "inv (w_os w)" by simp_all
  from dispatch_os [OF 1(2), unfolded this(1)] i call_invs [OF i] show ?case by auto
next
  case (2 st w a p ch ps)
  then show ?case
    using state_save_kept [of w env "state_write (\<lambda>c. c\<lparr>pairings := ps\<rparr>) st"]
    by (simp add: state_write_def os_kept_def)
qed

end
