(* ===== verification/Connection_Session.thy ===== *)
theory Connection_Session
  imports Connection_Facts Protocol_Wire
begin

section \<open>The session a connection implements\<close>

text \<open>
  The specification of \<open>PROTOCOL.md\<close> sections 5 and 7 as a function on envelopes: \<open>serve\<close> takes the
  envelopes a peer sends one after the other, checks the nonce, decodes, dispatches, and stops at
  the first refusal or closing response. The loop over chunks, buffers and counters refines it.
\<close>

datatype session_end =
    Open
  | Answered
  | Refused u64 ProtocolError

fun serve ::
    "daemon_env \<Rightarrow> SpkiHash \<Rightarrow> u64 \<Rightarrow> Envelope list \<Rightarrow> 'o SharedState \<Rightarrow> 'o world
       \<Rightarrow> DaemonFrame list \<times> session_end \<times> 'o SharedState \<times> 'o world" where
  "serve env h seen [] st w = ([], Open, st, w)"
| "serve env h seen (e # es) st w =
     (if nonce e \<le> seen then ([], Refused (nonce e) NonceReplay, st, w)
      else
        (case decode_client_frame (e_client_codec env) (payload e) of
           Inl err \<Rightarrow> ([], Refused (nonce e) (to_wire_code err), st, w)
         | Inr f \<Rightarrow>
             (case dispatch env h f (nonce e) st w of
                (r, st1, w1) \<Rightarrow>
                  if response_closes_connection r then ([r], Answered, st1, w1)
                  else (case serve env h (nonce e) es st1 w1 of (rs, fin) \<Rightarrow> (r # rs, fin)))))"

text \<open>The envelopes a list of bytes holds, and the bytes after the last whole one.\<close>

function split_frames :: "bytes \<Rightarrow> Envelope list \<times> bytes" where
  "split_frames bs =
     (case decode_envelope bs of
        Inr (Frame e rest) \<Rightarrow> map_prod ((#) e) id (split_frames rest)
      | _ \<Rightarrow> ([], bs))"
  by pat_completeness auto
termination
  by (relation "measure length") (auto dest: decode_frame_shrinks)

declare split_frames.simps [simp del]

text \<open>How a connection ends that has served every whole envelope.\<close>

definition end_result :: "bytes \<Rightarrow> string option \<Rightarrow> anyhow_error + unit" where
  "end_result rest stop = map_ok (\<lambda>_. ()) (flat_read rest stop)"

text \<open>The bytes of the responses, with consecutive nonces.\<close>

definition body_of :: "daemon_env \<Rightarrow> DaemonFrame \<Rightarrow> bytes" where
  "body_of env f = (case to_allocvec (e_daemon_codec env) f of Inr b \<Rightarrow> b | Inl _ \<Rightarrow> [])"

definition response_frame :: "daemon_env \<Rightarrow> u64 \<Rightarrow> DaemonFrame \<Rightarrow> Envelope" where
  "response_frame env n f = \<lparr>version = PROTOCOL_VERSION, nonce = n, payload = body_of env f\<rparr>"

primrec responses :: "daemon_env \<Rightarrow> u64 \<Rightarrow> DaemonFrame list \<Rightarrow> Envelope list" where
  "responses env n [] = []"
| "responses env n (f # fs) = response_frame env (n + 1) f # responses env (n + 1) fs"

definition closing :: "daemon_env \<Rightarrow> session_end \<Rightarrow> Envelope list" where
  "closing env fin =
     (case fin of Refused n code \<Rightarrow> [response_frame env 1 (DaemonFrame.Error n code)] | _ \<Rightarrow> [])"

text \<open>What is asked of the encoder of responses.\<close>

definition encodes_responses :: "daemon_env \<Rightarrow> bool" where
  "encodes_responses env \<longleftrightarrow>
     (\<forall>f. wf_daemon f \<longrightarrow>
        (\<exists>b. to_allocvec (e_daemon_codec env) f = Inr b \<and> b \<noteq> [] \<and> length b \<le> MAX_FRAME_LEN - 9))"

lemma encodes_response:
  assumes "encodes_responses env" "wf_daemon f"
  shows "to_allocvec (e_daemon_codec env) f = Inr (body_of env f)"
    and "receivable (response_frame env n f)"
    and "encode_envelope (response_frame env n f) = Inr (frame_bytes (response_frame env n f))"
proof -
  obtain b where b: "to_allocvec (e_daemon_codec env) f = Inr b" "b \<noteq> []" "length b \<le> MAX_FRAME_LEN - 9"
    using assms by (auto simp: encodes_responses_def)
  then show "to_allocvec (e_daemon_codec env) f = Inr (body_of env f)" by (simp add: body_of_def)
  show r: "receivable (response_frame env n f)"
    using b by (simp add: receivable_def sendable_def response_frame_def body_of_def envelope_consts)
  then show "encode_envelope (response_frame env n f) = Inr (frame_bytes (response_frame env n f))"
    by (intro encode_envelope_ok) (simp add: receivable_def)
qed

lemma dispatch_wf: "dispatch env h f n st w = (r, st', w') \<Longrightarrow> wf_daemon r"
  by (cases f) (auto simp: dispatch_simps gated_def handler_to_response_def wf_daemon_def
      split: prod.splits option.splits sum.splits if_splits)

lemma send_error_calm:
  assumes "encodes_responses env" "write_script t = []"
  shows "send_error_and_close env t n code =
     (Inr (), t\<lparr>outbound := outbound t @ frame_bytes (response_frame env 1 (DaemonFrame.Error n code)),
                closed := True\<rparr>)"
proof -
  have "wf_daemon (DaemonFrame.Error n code)" by (simp add: wf_daemon_def)
  note e = encodes_response [OF assms(1) this]
  from e(3) [of 1, unfolded response_frame_def] show ?thesis
    by (simp add: send_error_and_close_def encode_daemon_frame_def e(1) tls_write_all_def assms(2)
        response_frame_def tls_shutdown_def)
qed

lemma write_frame_calm:
  assumes "encodes_responses env" "wf_daemon f" "write_script t = []" "unat (send_next (send ns)) + 1 < 2 ^ 64"
  shows "write_frame env t ns f =
     (Inr True, t\<lparr>outbound := outbound t @ frame_bytes (response_frame env (send_next (send ns) + 1) f)\<rparr>,
      ns\<lparr>send := \<lparr>send_next = send_next (send ns) + 1\<rparr>\<rparr>)"
proof -
  note e = encodes_response [OF assms(1,2)]
  from e(3) [of "send_next (send ns) + 1", unfolded response_frame_def] show ?thesis
    by (simp add: write_frame_def issue_succ [OF assms(4)] assms(3) encode_daemon_frame_def e(1) tls_write_all_def
        response_frame_def Let_def)
qed

subsection \<open>The loop refines the session\<close>

lemma split_frames_frame:
  "decode_envelope bs = Inr (Frame e rest) \<Longrightarrow> split_frames bs = map_prod ((#) e) id (split_frames rest)"
  by (simp add: split_frames.simps [of bs])

lemma split_frames_stop:
  "(\<And>e rest. decode_envelope bs \<noteq> Inr (Frame e rest)) \<Longrightarrow> split_frames bs = ([], bs)"
  by (auto simp: split_frames.simps [of bs] split: sum.split DecodeOutcome.split)

lemma read_some:
  assumes "read_envelope buf t = (Inr (Some e), buf1, t1)"
  shows "split_frames (pending buf t) = map_prod ((#) e) id (split_frames (pending buf1 t1))"
    and "ending (inbound t1) = ending (inbound t)" and "write_side t1 = write_side t"
  using read_envelope_reads [of buf t] assms
  by (auto simp: reads_as_def flat_read_def intro!: split_frames_frame
      split: sum.splits DecodeOutcome.splits option.splits if_splits)

lemma read_stop:
  assumes "read_envelope buf t = (r, buf1, t1)" "\<And>e. r \<noteq> Inr (Some e)"
  shows "split_frames (pending buf t) = ([], pending buf t)"
    and "map_ok (\<lambda>_. ()) r = end_result (pending buf t) (ending (inbound t))"
    and "write_side t1 = write_side t"
  using read_envelope_reads [of buf t] assms
  by (auto simp: reads_as_def flat_read_def end_result_def intro!: split_frames_stop
      split: sum.splits DecodeOutcome.splits option.splits if_splits)

text \<open>What the loop's outcome must be, given the session.\<close>

definition sent_by :: "daemon_env \<Rightarrow> u64 \<Rightarrow> DaemonFrame list \<Rightarrow> session_end \<Rightarrow> bytes" where
  "sent_by env n rs fin = concat (map frame_bytes (responses env n rs @ closing env fin))"

definition session_outcome ::
    "daemon_env \<Rightarrow> u64 \<Rightarrow> tls_stream \<Rightarrow> anyhow_error + unit
       \<Rightarrow> DaemonFrame list \<times> session_end \<times> 'o SharedState \<times> 'o world
       \<Rightarrow> (anyhow_error + unit) \<times> tls_stream \<times> 'o SharedState \<times> 'o world \<Rightarrow> bool" where
  "session_outcome env n t r0 sess out \<longleftrightarrow>
     (case sess of (rs, fin, st', w') \<Rightarrow> case out of (r, t', st2, w2) \<Rightarrow>
        st2 = st' \<and> w2 = w' \<and> outbound t' = outbound t @ sent_by env n rs fin
        \<and> closed t' = (closed t \<or> fin \<noteq> Open) \<and> r = (if fin = Open then r0 else Inr ()))"

lemma write_side_fields:
  "write_side t = write_side u \<Longrightarrow>
     peer_certs t = peer_certs u \<and> write_script t = write_script u \<and> outbound t = outbound u
     \<and> closed t = closed u"
  by (simp add: write_side_def)

text \<open>One envelope, when the continuation does the rest of the session.\<close>

lemma on_envelope_serves:
  assumes env: "encodes_responses env" and calm: "write_script t = []"
    and le: "send_next (send ns) \<le> recv_last_seen (recv ns)"
    and rest: "\<And>ns2 t2 st1 w1. write_script t2 = [] \<Longrightarrow> inbound t2 = inbound t \<Longrightarrow>
        send_next (send ns2) \<le> recv_last_seen (recv ns2) \<Longrightarrow>
        session_outcome env (send_next (send ns2)) t2 r0 (serve env h (recv_last_seen (recv ns2)) es st1 w1) (k ns2 t2 st1 w1)"
  shows "session_outcome env (send_next (send ns)) t r0 (serve env h (recv_last_seen (recv ns)) (e # es) st w)
      (on_envelope env h ns e t st w k)"
proof -
  consider (replay) "nonce e \<le> recv_last_seen (recv ns)"
    | (bad) err where "\<not> nonce e \<le> recv_last_seen (recv ns)" "decode_client_frame (e_client_codec env) (payload e) = Inl err"
    | (frame) f where "\<not> nonce e \<le> recv_last_seen (recv ns)" "decode_client_frame (e_client_codec env) (payload e) = Inr f"
    by (cases "decode_client_frame (e_client_codec env) (payload e)") auto
  then show ?thesis
  proof cases
    case frame
    obtain r st1 w1 where d: "dispatch env h f (nonce e) st w = (r, st1, w1)"
      by (cases "dispatch env h f (nonce e) st w")
    let ?ns1 = "ns\<lparr>recv := \<lparr>recv_last_seen = nonce e\<rparr>\<rparr>"
    have lt: "send_next (send ns) < nonce e" using frame(1) le by simp
    then have s: "unat (send_next (send ns)) + 1 < 2 ^ 64"
      using unsigned_less [of "nonce e", where ?'a = nat] by (simp add: word_less_nat_alt)
    have inc: "send_next (send ns) + 1 \<le> nonce e" using lt by (simp add: inc_le)
    note wr = write_frame_calm [OF env dispatch_wf [OF d] calm, of ?ns1]
    have recv: "recv ns\<lparr>recv_last_seen := nonce e\<rparr> = \<lparr>recv_last_seen = nonce e\<rparr>" by simp
    note step = on_envelope_def accept_def recv session_outcome_def sent_by_def
    show ?thesis
    proof (cases "response_closes_connection r")
      case True
      with frame d s wr show ?thesis by (simp add: step closing_def tls_shutdown_def)
    next
      case False
      let ?t2 = "t\<lparr>outbound := outbound t @ frame_bytes (response_frame env (send_next (send ns) + 1) r)\<rparr>"
      let ?ns2 = "?ns1\<lparr>send := \<lparr>send_next = send_next (send ns) + 1\<rparr>\<rparr>"
      obtain rs fin st' w' where sv: "serve env h (nonce e) es st1 w1 = (rs, fin, st', w')"
        by (cases "serve env h (nonce e) es st1 w1")
      have "session_outcome env (send_next (send ns) + 1) ?t2 r0 (rs, fin, st', w') (k ?ns2 ?t2 st1 w1)"
        using rest [of ?t2 ?ns2 st1 w1] calm inc sv by simp
      with frame d s wr False sv show ?thesis by (simp add: step split: prod.splits)
    qed
  qed (simp_all add: on_envelope_def accept_def send_error_calm [OF env calm] session_outcome_def sent_by_def closing_def)
qed

lemma session_outcome_stream:
  "outbound t = outbound u \<Longrightarrow> closed t = closed u \<Longrightarrow>
     session_outcome env n t r0 sess out = session_outcome env n u r0 sess out"
  by (simp add: session_outcome_def)

lemma conn_loop_serves:
  fixes st :: "'o SharedState" and w :: "'o world"
  assumes env: "encodes_responses env"
  shows "write_script t = [] \<Longrightarrow> send_next (send ns) \<le> recv_last_seen (recv ns) \<Longrightarrow>
     session_outcome env (send_next (send ns)) t
       (end_result (snd (split_frames (pending buf t))) (ending (inbound t)))
       (serve env h (recv_last_seen (recv ns)) (fst (split_frames (pending buf t))) st w)
       (conn_loop env h ns buf t st w)"
proof (induction ns buf t st w rule: conn_loop_induct)
  case (failed ns buf t st w e buf1 t1)
  note r = read_stop [OF failed(1)] write_side_fields [OF read_stop(3) [OF failed(1)]]
  then show ?case
    by (simp add: conn_loop_error [OF failed(1)] session_outcome_def sent_by_def closing_def)
next
  case (eof ns buf t st w buf1 t1)
  note r = read_stop [OF eof(1)] write_side_fields [OF read_stop(3) [OF eof(1)]]
  then show ?case
    by (simp add: conn_loop_end [OF eof(1)] session_outcome_def sent_by_def closing_def)
next
  case (envelope ns buf t st w e buf1 t1)
  note split = read_some [OF envelope(1)]
  note t1 = write_side_fields [OF split(3)]
  let ?es = "fst (split_frames (pending buf1 t1))"
    and ?r0 = "end_result (snd (split_frames (pending buf t))) (ending (inbound t))"
  have "session_outcome env (send_next (send ns)) t1 ?r0 (serve env h (recv_last_seen (recv ns)) (e # ?es) st w)
      (on_envelope env h ns e t1 st w (\<lambda>ns2 t2 st2 w2. conn_loop env h ns2 buf1 t2 st2 w2))"
  proof (rule on_envelope_serves [OF env])
    fix ns2 :: NonceCounter and t2 :: tls_stream and st1 :: "'o SharedState" and w1 :: "'o world"
    assume a: "write_script t2 = []" "inbound t2 = inbound t1" "send_next (send ns2) \<le> recv_last_seen (recv ns2)"
    then have "pending buf1 t2 = pending buf1 t1" by (simp add: pending_def)
    with envelope(2) [of t2 ns2 st1 w1] a split(1,2)
    show "session_outcome env (send_next (send ns2)) t2 ?r0 (serve env h (recv_last_seen (recv ns2)) ?es st1 w1)
        (conn_loop env h ns2 buf1 t2 st1 w1)" by simp
  qed (use t1 envelope(3,4) in simp_all)
  then show ?case
    using t1 by (simp add: session_outcome_stream [of t t1] conn_loop_envelope [OF envelope(1)] split(1) del: serve.simps)
qed

end
