(* ===== verification/Server_Properties.thy ===== *)
theory Server_Properties
  imports Connection_Session
begin

section \<open>Properties of the server's connections\<close>

text \<open>
  What \<open>daemon/src/server/connection.rs\<close> guarantees, over the facts of \<open>Connection_Facts\<close> and the
  refinement of \<open>Connection_Session\<close>; and an environment at which the statements are run.
\<close>

subsection \<open>A concrete environment\<close>

lemma length_put_varint: "n < 128 ^ k \<Longrightarrow> 0 < k \<Longrightarrow> length (put_varint n) \<le> k"
proof (induction k arbitrary: n)
  case (Suc k)
  show ?case
  proof (cases "n < 128")
    case False
    then have "n div 128 < 128 ^ k" "0 < k"
      using Suc.prems by (simp add: less_mult_imp_div_less mult.commute, cases k) simp_all
    with Suc.IH [of "n div 128"] False show ?thesis by (subst put_varint.simps) simp
  qed simp
qed simp

lemma length_put_u64: "length (put_u64 x) \<le> 10"
proof -
  have "unat x < 2 ^ 64" using unsigned_less [of x, where ?'a = nat] by simp
  then have "unat x < 128 ^ 10" by simp
  then show ?thesis unfolding put_u64_def by (rule length_put_varint) simp
qed

lemma length_put_tag [simp]: "n < 128 \<Longrightarrow> length (put_tag n) = 1"
  by (simp add: put_tag_def)

lemma tags_small [simp]: "state_tag s < 128" "code_tag c < 128" "interval_tag i < 128"
  by ((cases s; simp), (cases c; simp), (cases i; simp))

lemma length_put_daemon: "wf_daemon f \<Longrightarrow> length (put_daemon f) \<le> 60"
proof (cases f)
  case (Ack n)
  then show ?thesis using length_put_u64 [of n] by simp
next
  case (Revoke h n)
  moreover assume "wf_daemon f"
  ultimately show ?thesis using length_put_u64 [of n] by (cases h) (simp add: wf_daemon_def wf_spki_def)
next
  case (Error n c)
  then show ?thesis using length_put_u64 [of n] by simp
next
  case (ReauthInfo a i e)
  then show ?thesis using length_put_u64 [of a] length_put_u64 [of e] by simp
qed simp

definition sample_rustls :: rustls_lib where
  "sample_rustls =
     \<lparr>with_protocol_versions = (\<lambda>v. Inr ()), with_client_auth_cert = (\<lambda>c k. Inr ()),
      with_single_cert = (\<lambda>c k. Inr ()), default_tls13_tickets = 2, default_early_data = 0\<rparr>"

definition sample_provider :: crypto_provider where
  "sample_provider =
     \<lparr>signature_verification_algorithms = [''ED25519''],
      rustls_verify_tls12 = (\<lambda>m c d a. Inr ()), rustls_verify_tls13 = (\<lambda>m c d a. Inr ()),
      rustls_supported_schemes = (\<lambda>a. a)\<rparr>"

definition sample_daemon :: daemon_env where
  "sample_daemon =
     \<lparr>e_ks = sample_env 7, e_rcgen = sample_rcgen, e_x509 = sample_x509, e_rustls = sample_rustls,
      e_provider = sample_provider, e_rng = (\<lambda>i. Inr [7, 0, 0, 0]),
      e_client_codec = client_codec, e_daemon_codec = daemon_codec\<rparr>"

lemma sample_daemon_encodes [simp]: "encodes_responses sample_daemon"
  by (auto simp: encodes_responses_def sample_daemon_def daemon_codec_def MAX_FRAME_LEN_def
      dest!: length_put_daemon)

lemma sample_daemon_ks [simp]: "ks_ok (e_ks sample_daemon)"
  by (simp add: sample_daemon_def)

text \<open>A paired phone, its certificate, and the server's state before it connects.\<close>

definition alice_cert :: bytes where "alice_cert = 0x30 # replicate 32 1"

definition alice :: SpkiHash where "alice = SpkiHash (replicate 32 1)"

definition sample_shared :: "'o Handlers \<Rightarrow> 'o SharedState" where
  "sample_shared hs =
     \<lparr>contents = sample_contents,
      identity = \<lparr>id_key_pkcs8_der = [7, 7], id_cert_der = [0x30, 7, 7], id_spki_hash = SpkiHash [7, 7]\<rparr>,
      config = for_test [''data''], handlers = hs\<rparr>"

definition sample_world :: "int \<Rightarrow> 'o \<Rightarrow> 'o world" where
  "sample_world now os =
     \<lparr>w_fs = sample_fs [], w_clock = (\<lambda>i. now), w_ticks = 0, w_rng = 0, w_os = os\<rparr>"

definition sample_stream :: "bytes list option \<Rightarrow> read_event list \<Rightarrow> tls_stream" where
  "sample_stream certs evs =
     \<lparr>peer_certs = certs, inbound = evs, write_script = [], outbound = [], closed = False\<rparr>"

lemma alice_spki [simp]: "peer_spki_from_tls sample_daemon (sample_stream (Some [alice_cert]) evs) = Inr alice"
  by (simp add: peer_spki_from_tls_def sample_stream_def alice_cert_def alice_def sample_daemon_def
      extract_spki_hash_def compute_spki_hash_def sample_x509_def slice_first_def)

lemma alice_active [simp]:
  "active_pairing (contents (sample_shared hs)) alice = Some (hd (pairings sample_contents))"
  by (simp add: active_pairing_def sample_shared_def sample_contents_def alice_def is_active_def)

subsection \<open>Properties\<close>

lemma conn_run_serves:
  assumes "encodes_responses env" "write_script t = []"
    and "peer_spki_from_tls env t = Inr h" "active_pairing (contents st) h = Some p"
    and "record_address h a (pairings (contents st)) = (changed, ps)"
    and "split_frames (arriving (inbound t)) = (es, rest)"
    and "st1 = st\<lparr>contents := (contents st)\<lparr>pairings := ps\<rparr>\<rparr>"
    and "serve env h 0 es st1 (if changed then snd (state_save env st1 w) else w) = (rs, fin, st', w')"
  shows "\<exists>t'. conn_run env t a st w =
       (if fin = Open then end_result rest (ending (inbound t)) else Inr (), t', st', w')
     \<and> outbound t' = outbound t @ concat (map frame_bytes (responses env 0 rs @ closing env fin))
     \<and> closed t' = (closed t \<or> fin \<noteq> Open)"
proof -
  have p: "pending [] t = arriving (inbound t)" by (simp add: pending_def)
  have "conn_run env t a st w =
      conn_loop env h counter_new [] t st1 (if changed then snd (state_save env st1 w) else w)"
    using assms(3-5,7) by (simp add: conn_run_def snapshot_def state_write_def Let_def)
  with conn_loop_serves [OF assms(1,2), of counter_new "[]" h st1
      "if changed then snd (state_save env st1 w) else w"] assms(6,8)
  show ?thesis
    by (auto simp: p counter_new_def sender_new_def receiver_new_def session_outcome_def sent_by_def
        split: prod.splits)
qed

text \<open>
  C10: A connection of a paired phone is the session of the protocol: however its bytes are cut into
  chunks, the phone's envelopes are served one at a time in order (nonce check first, then decode,
  then dispatch, stopping at the first refusal or closing response), the bytes written are exactly
  the responses under the nonces 1, 2, 3, ... and at a refusal the error frame, the connection is
  shut down exactly when the session ends it, and otherwise the loop returns \<open>Ok\<close> at a clean end
  and an error at bad framing, a cut frame or a transport error. The state and the world are those
  of the session. The send counter never overflows. This is where the transport takes the writes.
\<close>
theorem connection_refines_session:
  assumes "encodes_responses env" "write_script t = []"
    and "peer_spki_from_tls env t = Inr h" "active_pairing (contents st) h = Some p"
    and "record_address h a (pairings (contents st)) = (changed, ps)"
    and "split_frames (arriving (inbound t)) = (es, rest)"
    and "st1 = st\<lparr>contents := (contents st)\<lparr>pairings := ps\<rparr>\<rparr>"
    and "serve env h 0 es st1 (if changed then snd (state_save env st1 w) else w) = (rs, fin, st', w')"
  shows "\<exists>t'. conn_run env t a st w =
       (if fin = Open then end_result rest (ending (inbound t)) else Inr (), t', st', w')
     \<and> outbound t' = outbound t @ concat (map frame_bytes (responses env 0 rs @ closing env fin))
     \<and> closed t' = (closed t \<or> fin \<noteq> Open)"
  using assms by (rule conn_run_serves)

definition sample_envelope :: "u64 \<Rightarrow> ClientFrame \<Rightarrow> Envelope" where
  "sample_envelope n f = \<lparr>version = PROTOCOL_VERSION, nonce = n, payload = put_client f\<rparr>"

definition alice_addr :: SocketAddr where "alice_addr = V4 [192, 168, 1, 42] 51820"

lemma sample_split [simp]:
  "split_frames (frame_bytes (sample_envelope n StateProbe)) = ([sample_envelope n StateProbe], [])"
proof -
  have "decode_envelope (frame_bytes (sample_envelope n StateProbe) @ [])
      = Inr (Frame (sample_envelope n StateProbe) [])"
    by (rule decode_frame) (simp add: receivable_def sendable_def sample_envelope_def envelope_consts put_tag_def)
  moreover have "decode_envelope [] = Inr Incomplete" by (simp add: decode_envelope_eq)
  ultimately show ?thesis by (simp add: split_frames_frame split_frames_stop)
qed

lemma sample_decode [simp]:
  "wf_client f \<Longrightarrow> decode_client_frame (e_client_codec sample_daemon) (put_client f) = Inr f"
  using client.decode_enc [of f "put_client f"]
  by (simp add: decode_client_frame_def sample_daemon_def client_codec_def)

lemma sample_address [simp]:
  "record_address alice alice_addr (pairings (contents (sample_shared hs)))
     = (False, pairings (contents (sample_shared hs)))"
  by (simp add: sample_shared_def sample_contents_def alice_def alice_addr_def)

lemma sample_dispatch [simp]:
  "dispatch sample_daemon alice StateProbe n (sample_shared stub_handlers) (sample_world 0 ())
     = (StateReport OnLoggedIn, sample_shared stub_handlers, snd (unix_ms_now (sample_world 0 ())))"
  by (simp add: dispatch_simps on_os_def stub_handlers_def stub_session_state_def sample_shared_def
      unix_ms_now_def sample_world_def)

lemma sample_probe [simp]:
  "serve sample_daemon alice 0 [sample_envelope 1 StateProbe] (sample_shared stub_handlers) (sample_world 0 ())
     = ([StateReport OnLoggedIn], Open, sample_shared stub_handlers, snd (unix_ms_now (sample_world 0 ())))"
  using sample_decode [of StateProbe]
  by (simp add: wf_client_def sample_envelope_def response_closes_connection_def)

theorem connection_refines_session_witness:
  "\<exists>t'. conn_run sample_daemon
      (sample_stream (Some [alice_cert]) [Chunk (frame_bytes (sample_envelope 1 StateProbe))])
      alice_addr (sample_shared stub_handlers) (sample_world 0 ())
      = (Inr (), t', sample_shared stub_handlers, snd (unix_ms_now (sample_world 0 ())))
    \<and> outbound t' = frame_bytes (response_frame sample_daemon 1 (StateReport OnLoggedIn))
    \<and> \<not> closed t'"
proof -
  let ?t = "sample_stream (Some [alice_cert]) [Chunk (frame_bytes (sample_envelope 1 StateProbe))]"
  let ?st = "sample_shared stub_handlers :: unit SharedState"
  have f: "frame_bytes (sample_envelope 1 StateProbe) \<noteq> []" by (simp add: frame_bytes_def)
  have t: "write_script ?t = []" "split_frames (arriving (inbound ?t)) = ([sample_envelope 1 StateProbe], [])"
    "outbound ?t = []" "\<not> closed ?t" "ending (inbound ?t) = None"
    using f by (simp_all add: sample_stream_def)
  have st: "?st = ?st\<lparr>contents := (contents ?st)\<lparr>pairings := pairings (contents ?st)\<rparr>\<rparr>" by simp
  have sv: "serve sample_daemon alice 0 [sample_envelope 1 StateProbe] ?st
      (if False then snd (state_save sample_daemon ?st (sample_world 0 ())) else sample_world 0 ())
     = ([StateReport OnLoggedIn], Open, ?st, snd (unix_ms_now (sample_world 0 ())))"
    by (simp only: if_False sample_probe)
  have fin: "end_result [] None = Inr ()"
    by (simp add: end_result_def flat_read_def decode_envelope_eq)
  show ?thesis
    using connection_refines_session [OF sample_daemon_encodes t(1) alice_spki alice_active sample_address
        t(2) st sv] t(3-5) fin
    by (simp add: closing_def)
qed

text \<open>
  C14: What a connection does depends on the bytes the peer sends and not on how the transport cuts
  them into reads: for two streams that deliver the same bytes and end alike, the result of the whole
  connection, the state and the keystore it leaves, the effects on the host, the bytes written and the
  shutdown are the same, for every peer, also when saves and writes fail.
\<close>
theorem connection_independent_of_chunking:
  assumes "same_stream t u"
  shows "case conn_run env t a st w of (r, t', st', w') \<Rightarrow>
    (\<exists>u'. conn_run env u a st w = (r, u', st', w') \<and> outbound u' = outbound t' \<and> closed u' = closed t')"
  using conn_run_alike [OF assms, of env a st w]
  by (cases "conn_run env t a st w"; cases "conn_run env u a st w") (auto simp: write_side_def)

theorem connection_independent_of_chunking_witness:
  "case conn_run sample_daemon (sample_stream (Some [alice_cert]) [Chunk [0, 0], Chunk [0, 10, 1, 0]])
      (V4 [127, 0, 0, 1] 9) (sample_shared stub_handlers) (sample_world 0 ()) of (r, t', st', w') \<Rightarrow>
    (\<exists>u'. conn_run sample_daemon (sample_stream (Some [alice_cert]) [Chunk [0, 0, 0, 10, 1, 0], Chunk [], ReadErr ''late''])
       (V4 [127, 0, 0, 1] 9) (sample_shared stub_handlers) (sample_world 0 ()) = (r, u', st', w')
       \<and> outbound u' = outbound t' \<and> closed u' = closed t')"
  by (rule connection_independent_of_chunking) (simp add: same_stream_def sample_stream_def)



text \<open>The handler a command stands for.\<close>

fun command_handler :: "ClientFrame \<Rightarrow> 'o Handlers \<Rightarrow> ('o \<Rightarrow> (OsHandlerError + unit) \<times> 'o) option" where
  "command_handler Sleep hs = Some (h_sleep hs)"
| "command_handler Lock hs = Some (h_lock hs)"
| "command_handler PowerOff hs = Some (h_power_off hs)"
| "command_handler _ hs = None"

lemma dispatch_command:
  "command_handler f (handlers st) = Some run \<Longrightarrow>
     dispatch env h f n st w = gated (evaluate (fst (unix_ms_now w))
       (ks_last_authenticated_at_unix_ms (contents st)) (reauth_interval_days (contents st))) run n st
       (snd (unix_ms_now w))"
  by (cases f) (auto simp: dispatch_simps split: prod.split)

lemma gated_outcome:
  "case gated rs run n st w of (r, st', w') \<Rightarrow>
     st' = st \<and> w_fs w' = w_fs w
     \<and> (if rs = Active
        then w_os w' = snd (run (w_os w))
             \<and> r = (if is_ok (fst (run (w_os w))) then Ack n else DaemonFrame.Error n Internal)
        else w_os w' = w_os w \<and> r = DaemonFrame.Error n RequiresReauth)"
  by (cases rs) (auto simp: gated_def block_state_change_def on_os_def handler_to_response_def
      os_to_wire_code_def is_ok_def split: prod.split sum.split)

lemma unix_ms_now_os [simp]: "w_os (snd (unix_ms_now w)) = w_os w"
  using unix_ms_now_kept(1) [of w] by (simp add: os_kept_def)

lemma unix_ms_now_pair: "unix_ms_now w = (now, w') \<Longrightarrow> w_os w' = w_os w"
  using unix_ms_now_os [of w] by simp

lemma dispatch_no_command:
  "command_handler f (handlers st) = None \<Longrightarrow> f \<noteq> StateProbe \<Longrightarrow>
     dispatch env h f n st w = (r, st', w') \<Longrightarrow> w_os w' = w_os w"
proof (cases f)
  case (ReauthConfig i)
  assume "dispatch env h f n st w = (r, st', w')"
  then show ?thesis
    using ReauthConfig state_save_kept [of "snd (unix_ms_now w)" env st']
    by (cases rule: dispatch_cases) (auto simp: os_kept_def)
next
  case RevokeAck
  assume "dispatch env h f n st w = (r, st', w')"
  then show ?thesis
    using RevokeAck state_save_kept [of "snd (unix_ms_now w)" env st']
    by (cases rule: dispatch_cases) (auto simp: os_kept_def dispatch_simps split: prod.splits)
qed (auto simp: dispatch_simps dest: unix_ms_now_pair split: prod.splits)

text \<open>
  C1: The gate in front of the host: a state-changing command runs its handler exactly once, and
  only if the re-authentication window is open at the time of the request; it is answered \<open>Ack\<close>
  exactly if the handler succeeded and \<open>Internal\<close> (nothing of the cause) if it failed; outside the
  window it is answered \<open>RequiresReauth\<close> and the host is not touched. No command writes the
  keystore, and no other frame but the state probe touches the host at all.
\<close>
theorem commands_pass_the_gate:
  "case dispatch env h f n st w of (r, st', w') \<Rightarrow>
     (case command_handler f (handlers st) of
        Some run \<Rightarrow>
          st' = st \<and> w_fs w' = w_fs w
          \<and> (if evaluate (fst (unix_ms_now w)) (ks_last_authenticated_at_unix_ms (contents st))
                 (reauth_interval_days (contents st)) = Active
             then w_os w' = snd (run (w_os w))
                  \<and> r = (if is_ok (fst (run (w_os w))) then Ack n else DaemonFrame.Error n Internal)
             else w_os w' = w_os w \<and> r = DaemonFrame.Error n RequiresReauth)
      | None \<Rightarrow> f = StateProbe \<or> w_os w' = w_os w)"
proof (cases "command_handler f (handlers st)")
  case None
  then show ?thesis
    using dispatch_no_command [OF None, of env h n w]
    by (cases "f = StateProbe"; cases "dispatch env h f n st w") simp_all
next
  case (Some run)
  show ?thesis
    using gated_outcome [where rs = "evaluate (fst (unix_ms_now w))
        (ks_last_authenticated_at_unix_ms (contents st)) (reauth_interval_days (contents st))"
        and w = "snd (unix_ms_now w)" and run = run and st = st and n = n]
    by (simp add: dispatch_command [OF Some] Some split: prod.splits)
qed

text \<open>
  C31: Changing the interval is acknowledged only when it is durable: after \<open>Ack\<close> the keystore on disk
  holds the new interval. When the save fails the phone is told \<open>Internal\<close> and the disk keeps its old
  contents; the running server however keeps the new interval in memory, in this case too.
\<close>
theorem reauth_config_acks_durable:
  assumes "ks_ok (e_ks env)" "wf_contents (contents st)"
    and "dispatch env h (ReauthConfig i) n st w = (r, st', w')"
  shows "contents st' = (contents st)\<lparr>reauth_interval_days := interval_to_days i\<rparr>
     \<and> (r = Ack n \<and> disk env (config st) w' = Inr (Some (contents st'))
        \<or> r = DaemonFrame.Error n Internal \<and> disk env (config st) w' = disk env (config st) w)"
  using assms(3)
proof (cases rule: dispatch_cases)
  case (config j)
  let ?w1 = "snd (unix_ms_now w)"
  have d: "disk env (config st') ?w1 = disk env (config st') w" by (simp add: disk_def)
  have c: "config st' = config st" "wf_contents (contents st')" using config assms(2) by simp_all
  show ?thesis
    using config state_save_disk [OF assms(1) c(2), of ?w1] d c(1)
    by (cases "fst (state_save env st' ?w1)") simp_all
next
  case same
  then show ?thesis using same(3) [of i] by simp
qed simp

theorem reauth_config_acks_durable_witness:
  "\<exists>r st' w'. dispatch sample_daemon alice (ReauthConfig OneDay) 1 (sample_shared stub_handlers)
       (sample_world 0 ()) = (r, st', w')
     \<and> reauth_interval_days (contents st') = 1
     \<and> (r = Ack 1 \<and> disk sample_daemon (for_test [''data'']) w' = Inr (Some (contents st'))
        \<or> r = DaemonFrame.Error 1 Internal
          \<and> disk sample_daemon (for_test [''data'']) w' = disk sample_daemon (for_test [''data'']) (sample_world 0 ()))"
proof -
  let ?st = "sample_shared stub_handlers :: unit SharedState"
  obtain r st' w' where d: "dispatch sample_daemon alice (ReauthConfig OneDay) 1 ?st (sample_world 0 ()) = (r, st', w')"
    by (cases "dispatch sample_daemon alice (ReauthConfig OneDay) 1 ?st (sample_world 0 ())")
  have "wf_contents (contents ?st)" "config ?st = for_test [''data'']"
    by (simp_all add: sample_shared_def)
  with reauth_config_acks_durable [OF sample_daemon_ks _ d] d show ?thesis by auto
qed

text \<open>
  No connection can extend anyone's rights: whatever the peer sends and whatever fails, a
  connection leaves the daemon's key and certificate, the time of the last credential prompt and
  the active pairings (all but the cached address) as they were, in memory and on disk, and it
  leaves a well-formed keystore on disk. So no phone can pair, un-revoke or re-authenticate itself
  or another over the connection. Memory and disk agree on these at the start.
\<close>
lemma connection_keeps_rights:
  assumes "ks_ok (e_ks env)" "wf_contents (contents st)" "wf_addr a"
    and "disk env (config st) w = Inr (Some c)" "core_view c = core_view (contents st)"
    and "conn_run env t a st w = (r, t', st', w')"
  shows "core_view (contents st') = core_view (contents st)
     \<and> identity st' = identity st \<and> config st' = config st \<and> wf_contents (contents st')
     \<and> (\<exists>c'. disk env (config st) w' = Inr (Some c') \<and> core_view c' = core_view (contents st))"
proof -
  have "keeps_view env (identity st) (config st) (handlers st) (core_view (contents st)) st w"
    using assms(1-5) by (simp add: keeps_view_def)
  from keystore_view.conn_run_inv [OF this assms(3), of t] assms(6) show ?thesis
    by (simp add: keeps_view_def)
qed

text \<open>A world whose disk holds the keystore.\<close>

definition saved_world :: "int \<Rightarrow> 'o \<Rightarrow> 'o world" where
  "saved_world now os = snd (state_save sample_daemon (sample_shared stub_handlers :: 'o SharedState) (sample_world now os))"

lemma sample_saved:
  "fst (state_save sample_daemon (sample_shared hs) (sample_world now os)) = Inr ()"
proof -
  have "keystore_path (for_test [''data'']) = sample_path"
    by (simp add: keystore_path_def for_test_def join_def)
  with sample_save_ok show ?thesis
    by (auto simp: state_save_def sample_shared_def snapshot_def sample_daemon_def sample_world_def)
qed

lemma sample_shared_fields [simp]:
  "contents (sample_shared hs) = sample_contents" "config (sample_shared hs) = for_test [''data'']"
  "handlers (sample_shared hs) = hs"
  by (simp_all add: sample_shared_def)

lemma saved_world_disk [simp]:
  "disk sample_daemon (for_test [''data'']) (saved_world now os) = Inr (Some sample_contents)"
  using state_save_disk [of sample_daemon "sample_shared stub_handlers :: 'a SharedState" "sample_world now os"]
  by (simp add: saved_world_def sample_saved)

lemma connection_keeps_rights_example:
  "\<exists>r t' st' w'. conn_run sample_daemon
      (sample_stream (Some [alice_cert]) [Chunk (frame_bytes (sample_envelope 1 StateProbe)), ReadErr ''reset''])
      (V4 [10, 0, 0, 9] 4) (sample_shared stub_handlers) (saved_world 0 ()) = (r, t', st', w')
    \<and> core_view (contents st') = core_view sample_contents
    \<and> (\<exists>c'. disk sample_daemon (for_test [''data'']) w' = Inr (Some c') \<and> core_view c' = core_view sample_contents)"
proof -
  let ?t = "sample_stream (Some [alice_cert]) [Chunk (frame_bytes (sample_envelope 1 StateProbe)), ReadErr ''reset'']"
  obtain r t' st' w' where c: "conn_run sample_daemon ?t (V4 [10, 0, 0, 9] 4) (sample_shared stub_handlers)
      (saved_world 0 ()) = (r, t', st', w')"
    by (cases "conn_run sample_daemon ?t (V4 [10, 0, 0, 9] 4) (sample_shared stub_handlers) (saved_world 0 ())")
  have "core_view (contents st') = core_view sample_contents
    \<and> (\<exists>c'. disk sample_daemon (for_test [''data'']) w' = Inr (Some c') \<and> core_view c' = core_view sample_contents)"
    using connection_keeps_rights [OF sample_daemon_ks _ _ _ _ c, of sample_contents] by simp
  with c show ?thesis by blast
qed

subsection \<open>What the phone sees\<close>

lemma split_frames_concat:
  "list_all receivable es \<Longrightarrow> split_frames (concat (map frame_bytes es)) = (es, [])"
proof (induction es)
  case Nil
  show ?case by (simp add: split_frames_stop decode_envelope_eq)
next
  case (Cons e es)
  then show ?case by (simp add: split_frames_frame [OF decode_frame])
qed

lemma responses_receivable:
  "encodes_responses env \<Longrightarrow> list_all wf_daemon rs \<Longrightarrow> list_all receivable (responses env n rs)"
  by (induction rs arbitrary: n) (simp_all add: encodes_response(2))

lemma closing_receivable: "encodes_responses env \<Longrightarrow> list_all receivable (closing env fin)"
  by (cases fin) (simp_all add: closing_def encodes_response(2) wf_daemon_def)

lemma responses_pass:
  "unat n + length rs < 2 ^ 64 \<Longrightarrow>
     passed accept \<lparr>recv_last_seen = n\<rparr> (map nonce (responses env n rs) @ ms)
       = map nonce (responses env n rs) @ passed accept \<lparr>recv_last_seen = n + of_nat (length rs)\<rparr> ms"
proof (induction rs arbitrary: n)
  case (Cons r rs)
  have u: "unat (n + 1) = unat n + 1"
    using Cons.prems by (intro unat_add_no_overflow [THEN trans]) simp_all
  then have "n < n + 1" by (simp add: word_less_nat_alt)
  with Cons.IH [of "n + 1"] Cons.prems u show ?case
    by (simp add: accept_def response_frame_def add.assoc leD flip: not_less)
qed simp

lemma responses_decode:
  assumes "encodes_responses env" "payload_codec (e_daemon_codec env) wf_daemon" "list_all wf_daemon rs"
  shows "map (decode_daemon_frame (e_daemon_codec env) \<circ> payload) (responses env n rs) = map Inr rs"
  using assms(3)
  by (induction rs arbitrary: n)
    (simp_all add: decode_daemon_frame_def response_frame_def
      payload_codec.decode_enc [OF assms(2)] encodes_response(1) [OF assms(1)])

text \<open>
  Where a session of the envelopes \<open>es\<close> is refused: the \<open>k\<close>-th one has a nonce that is not above the one
  before, or a payload that does not decode.
\<close>

definition refuses :: "daemon_env \<Rightarrow> u64 \<Rightarrow> Envelope list \<Rightarrow> nat \<Rightarrow> bool" where
  "refuses env seen es k \<longleftrightarrow> k < length es
     \<and> (nonce (es ! k) \<le> (seen # map nonce es) ! k
        \<or> \<not> is_ok (decode_client_frame (e_client_codec env) (payload (es ! k))))"

lemma serve_outcome:
  "serve env h seen es st w = (rs, fin, st', w') \<Longrightarrow>
     list_all wf_daemon rs \<and> unat seen + length rs < 2 ^ 64 \<and> length rs \<le> length es
     \<and> (fin = Open \<longrightarrow> length rs = length es)
     \<and> (\<forall>n code. fin = Refused n code \<longrightarrow> refuses env seen es (length rs))"
proof (induction es arbitrary: seen st w rs)
  case Nil
  then show ?case using unsigned_less [of seen, where ?'a = nat] by simp
next
  case (Cons e es)
  show ?case
  proof (cases "nonce e \<le> seen \<or> \<not> is_ok (decode_client_frame (e_client_codec env) (payload e))")
    case True
    with Cons.prems show ?thesis
      using unsigned_less [of seen, where ?'a = nat]
      by (auto simp: refuses_def is_ok_def split: if_splits sum.splits)
  next
    case False
    then obtain f where f: "\<not> nonce e \<le> seen" "decode_client_frame (e_client_codec env) (payload e) = Inr f"
      by (auto simp: is_ok_def split: sum.splits)
    then have u: "unat seen + 1 \<le> unat (nonce e)" by (simp add: word_le_nat_alt)
    obtain r st1 w1 where d: "dispatch env h f (nonce e) st w = (r, st1, w1)"
      by (cases "dispatch env h f (nonce e) st w")
    show ?thesis
    proof (cases "response_closes_connection r")
      case True
      with Cons.prems f d dispatch_wf [OF d] u show ?thesis
        using unsigned_less [of "nonce e", where ?'a = nat] by auto
    next
      case open_still: False
      obtain rs1 where rs1: "serve env h (nonce e) es st1 w1 = (rs1, fin, st', w')" "rs = r # rs1"
        using Cons.prems f d open_still by (auto split: prod.splits)
      from Cons.IH [OF rs1(1)] rs1(2) u dispatch_wf [OF d] show ?thesis
        by (auto simp: refuses_def)
    qed
  qed
qed

lemma length_responses [simp]: "length (responses env n rs) = length rs"
  by (induction rs arbitrary: n) simp_all

lemma responses_nonces:
  "map nonce (responses env n rs) = map (\<lambda>i. n + of_nat i) [1..<Suc (length rs)]"
proof (induction rs arbitrary: n)
  case (Cons r rs)
  have "[1..<Suc (length (r # rs))] = 1 # map Suc [1..<Suc (length rs)]"
    by (subst upt_conv_Cons, simp) (simp only: map_Suc_upt list.size Suc_eq_plus1 add_0 one_add_one)
  then have "map (\<lambda>i. n + of_nat i) [1..<Suc (length (r # rs))]
      = (n + 1) # map (\<lambda>i. (n + 1) + of_nat i) [1..<Suc (length rs)]"
    by (simp only: list.map of_nat_1 map_map) (simp add: o_def algebra_simps del: upt_Suc)
  with Cons [of "n + 1"] show ?case by (simp add: response_frame_def del: upt_Suc)
qed simp

lemma closing_reads:
  assumes "encodes_responses env" "payload_codec (e_daemon_codec env) wf_daemon"
  shows "decode_daemon_frame (e_daemon_codec env) (payload (response_frame env 1 (DaemonFrame.Error n code)))
     = Inr (DaemonFrame.Error n code)"
  using responses_decode [OF assms, of "[DaemonFrame.Error n code]" 0] by (simp add: wf_daemon_def)

text \<open>What the phone makes of the frames of a session.\<close>

lemma session_reads:
  assumes "encodes_responses env" "payload_codec (e_daemon_codec env) wf_daemon"
    and "list_all wf_daemon rs" "length rs < 2 ^ 64"
  shows "split_frames (concat (map frame_bytes (responses env 0 rs @ closing env fin)))
       = (responses env 0 rs @ closing env fin, [])"
    and "\<forall>e \<in> set (responses env 0 rs @ closing env fin). is_ok (decode_daemon_frame (e_daemon_codec env) (payload e))"
    and "passed accept receiver_new (map nonce (responses env 0 rs @ closing env fin))
       = map nonce (responses env 0 rs) @ (if rs = [] then map nonce (closing env fin) else [])"
proof -
  show "split_frames (concat (map frame_bytes (responses env 0 rs @ closing env fin)))
       = (responses env 0 rs @ closing env fin, [])"
    by (rule split_frames_concat)
      (simp add: responses_receivable [OF assms(1,3)] closing_receivable [OF assms(1)])
  have "is_ok (decode_daemon_frame (e_daemon_codec env) (payload e))" if "e \<in> set (responses env 0 rs)" for e
  proof -
    have "(decode_daemon_frame (e_daemon_codec env) \<circ> payload) e
        \<in> set (map (decode_daemon_frame (e_daemon_codec env) \<circ> payload) (responses env 0 rs))"
      using that by simp
    then show ?thesis unfolding responses_decode [OF assms(1-3), of 0] by (auto simp: is_ok_def)
  qed
  then show "\<forall>e \<in> set (responses env 0 rs @ closing env fin). is_ok (decode_daemon_frame (e_daemon_codec env) (payload e))"
    using closing_reads [OF assms(1,2)] by (cases fin) (auto simp: closing_def)
  have "unat (of_nat (length rs) :: u64) = length rs" using assms(4) by (simp add: unat_of_nat)
  then have "(1 :: u64) \<le> of_nat (length rs) \<longleftrightarrow> rs \<noteq> []"
    by (cases rs) (simp_all add: word_le_nat_alt)
  then show "passed accept receiver_new (map nonce (responses env 0 rs @ closing env fin))
       = map nonce (responses env 0 rs) @ (if rs = [] then map nonce (closing env fin) else [])"
    using responses_pass [of 0 rs env "map nonce (closing env fin)"] assms(4)
    by (cases fin) (simp_all add: receiver_new_def closing_def response_frame_def accept_def)
qed



text \<open>
  C36: The gate can be opened from the phone: the frame \<open>ReauthConfig\<close> is served outside the
  re-authentication window too and needs no credential prompt, so a phone whose commands are
  refused gets them served by first setting the interval to \<open>Off\<close>. From then on no time that passes
  closes the window.
\<close>
theorem reauth_off_opens_gate:
  assumes "dispatch env h (ReauthConfig ReauthInterval.Off) n st w = (r, st1, w1)"
    and "command_handler f (handlers st) = Some run"
  shows "case dispatch env h f m st1 w1 of (r', st2, w2) \<Rightarrow>
     w_os w2 = snd (run (w_os w)) \<and> r' = (if is_ok (fst (run (w_os w))) then Ack m else DaemonFrame.Error m Internal)"
  using assms(1)
proof (cases rule: dispatch_cases)
  case (config i)
  have s: "reauth_interval_days (contents st1) = 0" "handlers st1 = handlers st" "w_os w1 = w_os w"
    using config dispatch_os [OF assms(1)] state_save_kept [of "snd (unix_ms_now w)" env st1]
      unix_ms_now_kept(1) [of w]
    by (simp_all add: os_kept_def)
  then have "evaluate now lst (reauth_interval_days (contents st1)) = Active" for now lst
    by (simp add: evaluate_def)
  moreover from s assms(2) have "command_handler f (handlers st1) = Some run" by simp
  ultimately show ?thesis
    using gated_outcome [where rs = Active and run = run and n = m and st = st1 and w = "snd (unix_ms_now w1)"] s(3)
    by (simp add: dispatch_command split: prod.splits)
next
  case same
  then show ?thesis by blast
qed simp

theorem reauth_off_opens_gate_witness:
  "fst (dispatch sample_daemon alice Lock 1 (sample_shared stub_handlers) (sample_world 1000000000000 ()))
     = DaemonFrame.Error 1 RequiresReauth
   \<and> (case dispatch sample_daemon alice (ReauthConfig ReauthInterval.Off) 2 (sample_shared stub_handlers)
          (sample_world 1000000000000 ()) of (r, st1, w1) \<Rightarrow>
        fst (dispatch sample_daemon alice Lock 3 st1 w1) = DaemonFrame.Error 3 Internal)"
proof -
  let ?st = "sample_shared stub_handlers :: unit SharedState"
  let ?w = "sample_world 1000000000000 () :: unit world"
  have l: "command_handler Lock (handlers ?st) = Some stub_lock" by (simp add: stub_handlers_def)
  obtain r st1 w1 where d: "dispatch sample_daemon alice (ReauthConfig ReauthInterval.Off) 2 ?st ?w = (r, st1, w1)"
    by (cases "dispatch sample_daemon alice (ReauthConfig ReauthInterval.Off) 2 ?st ?w")
  have "evaluate (fst (unix_ms_now ?w)) 0 7 = NeedsReauth"
    by (simp add: evaluate_def expires_at_unix_ms_def unix_ms_now_def unix_ms_def sample_world_def
        Let_def saturating_mul_def saturating_add_def)
  then have "fst (dispatch sample_daemon alice Lock 1 ?st ?w) = DaemonFrame.Error 1 RequiresReauth"
    by (simp add: dispatch_command [OF l] sample_contents_def gated_def block_state_change_def)
  moreover have "fst (dispatch sample_daemon alice Lock 3 st1 w1) = DaemonFrame.Error 3 Internal"
    using reauth_off_opens_gate [OF d l, of 3] by (auto simp: stub_lock_def split: prod.splits)
  ultimately show ?thesis using d by simp
qed

end
