(* ===== verification/Server_Listener.thy ===== *)
theory Server_Listener
  imports Server_Properties
begin

section \<open>Accepting connections\<close>

text \<open>
  \<open>daemon/src/server/listener.rs\<close> and \<open>daemon/src/server/mod.rs\<close>. The TLS handshake is foreign: it is
  an argument \<open>tls_accept\<close> that turns a server configuration and a TCP connection into an
  established stream or an error. A bound listener is the list of what its \<open>select!\<close> loop sees, in
  order; at the end of the list the loop is still waiting, which is the result \<open>None\<close>. A spawned
  connection task runs to completion where it is spawned; \<open>Server_System\<close> treats the interleavings.
\<close>

type_synonym 'c tls_accept = "ServerConfig \<Rightarrow> 'c \<Rightarrow> io_error + tls_stream"

datatype 'c accept_event =
    ShutdownSignal
  | AcceptFailed io_error
  | Connected 'c SocketAddr

record 'c tcp_listener =
  local_addr :: "io_error + SocketAddr"
  accepts :: "'c accept_event list"

definition build_acceptor :: "daemon_env \<Rightarrow> 'o SharedState \<Rightarrow> anyhow_error + ServerConfig" where
  "build_acceptor env st =
     (let snap = contents st;
          active = map client_spki (filter is_active (pairings snap));
          pinset = with_pins active
      in map_err FromCrypto
           (server_config_for_pinned_clients (e_rustls env) pinset (identity st) (e_provider env)))"

definition handle_connection ::
    "daemon_env \<Rightarrow> 'c tls_accept \<Rightarrow> ServerConfig \<Rightarrow> 'c \<Rightarrow> SocketAddr \<Rightarrow> 'o SharedState \<Rightarrow> 'o world
       \<Rightarrow> (anyhow_error + unit) \<times> 'o SharedState \<times> 'o world" where
  "handle_connection env tls_accept acceptor tcp peer_addr st w =
     (case map_err (\<lambda>e. Context ''TLS handshake'' (FromIo e)) (tls_accept acceptor tcp) of
        Inl e \<Rightarrow> (Inl e, st, w)
      | Inr t \<Rightarrow> (case conn_run env t peer_addr st w of (r, _, st', w') \<Rightarrow> (r, st', w')))"

fun accept_events ::
    "daemon_env \<Rightarrow> 'c tls_accept \<Rightarrow> 'c accept_event list \<Rightarrow> 'o SharedState \<Rightarrow> 'o world
       \<Rightarrow> (anyhow_error + unit) option \<times> 'o SharedState \<times> 'o world" where
  "accept_events env tls_accept [] st w = (None, st, w)"
| "accept_events env tls_accept (ShutdownSignal # evs) st w = (Some (Inr ()), st, w)"
| "accept_events env tls_accept (AcceptFailed e # evs) st w = accept_events env tls_accept evs st w"
| "accept_events env tls_accept (Connected tcp peer_addr # evs) st w =
     (case build_acceptor env st of
        Inl e \<Rightarrow> accept_events env tls_accept evs st w
      | Inr a \<Rightarrow>
          (case handle_connection env tls_accept a tcp peer_addr st w of
             (_, st', w') \<Rightarrow> accept_events env tls_accept evs st' w'))"

definition accept_loop ::
    "daemon_env \<Rightarrow> 'c tls_accept \<Rightarrow> 'c tcp_listener \<Rightarrow> 'o SharedState \<Rightarrow> 'o world
       \<Rightarrow> (anyhow_error + unit) option \<times> 'o SharedState \<times> 'o world" where
  "accept_loop env tls_accept l st w =
     (case local_addr l of
        Inl e \<Rightarrow> (Some (Inl (FromIo e)), st, w)
      | Inr _ \<Rightarrow> accept_events env tls_accept (accepts l) st w)"

text \<open>\<open>None\<close> in the place of the state is a server that never came up.\<close>

definition run_with_listener_handlers_shutdown ::
    "daemon_env \<Rightarrow> 'c tls_accept \<Rightarrow> Config \<Rightarrow> 'c tcp_listener \<Rightarrow> 'o Handlers \<Rightarrow> 'o world
       \<Rightarrow> (anyhow_error + unit) option \<times> 'o SharedState option \<times> 'o world" where
  "run_with_listener_handlers_shutdown env tls_accept cfg l hs w =
     (case on_fs (ensure_data_dir (data_dir cfg)) w of
        (Inl e, w1) \<Rightarrow> (Some (Inl (FromKeystore e)), None, w1)
      | (Inr _, w1) \<Rightarrow>
          (case on_fs (ks_load (e_ks env) (keystore_path cfg)) w1 of
             (Inl e, w2) \<Rightarrow> (Some (Inl (FromKeystore e)), None, w2)
           | (Inr None, w2) \<Rightarrow> (Some (Inl (Anyhow ''no keystore'')), None, w2)
           | (Inr (Some c), w2) \<Rightarrow>
               (case map_err (\<lambda>e. Context ''loading device identity from keystore'' (FromCrypto e))
                       (device_from_bytes (e_rcgen env) (e_x509 env) (device_identity_bytes c)) of
                  Inl e \<Rightarrow> (Some (Inl e), None, w2)
                | Inr i \<Rightarrow>
                    (case on_os (h_prepare hs) w2 of
                       (_, w3) \<Rightarrow>
                         (case accept_loop env tls_accept l (with_handlers c i cfg hs) w3 of
                            (r, st, w4) \<Rightarrow> (r, Some st, w4))))))"

text \<open>Ctrl-C is the shutdown signal among what the listener sees.\<close>

definition run_with_listener_and_handlers ::
    "daemon_env \<Rightarrow> 'c tls_accept \<Rightarrow> Config \<Rightarrow> 'c tcp_listener \<Rightarrow> 'o Handlers \<Rightarrow> 'o world
       \<Rightarrow> (anyhow_error + unit) option \<times> 'o SharedState option \<times> 'o world" where
  "run_with_listener_and_handlers env tls_accept cfg l hs w =
     run_with_listener_handlers_shutdown env tls_accept cfg l hs w"

definition run_with_listener ::
    "daemon_env \<Rightarrow> target \<Rightarrow> 'o winapi \<Rightarrow> 'c tls_accept \<Rightarrow> Config \<Rightarrow> 'c tcp_listener \<Rightarrow> 'o process world
       \<Rightarrow> (anyhow_error + unit) option \<times> 'o process SharedState option \<times> 'o process world" where
  "run_with_listener env t api tls_accept cfg l w =
     run_with_listener_and_handlers env tls_accept cfg l (platform_handlers t api) w"

definition server_run ::
    "daemon_env \<Rightarrow> target \<Rightarrow> 'o winapi \<Rightarrow> 'c tls_accept \<Rightarrow> (SocketAddr \<Rightarrow> io_error + 'c tcp_listener) \<Rightarrow> Config
       \<Rightarrow> 'o process world \<Rightarrow> (anyhow_error + unit) option \<times> 'o process SharedState option \<times> 'o process world" where
  "server_run env t api tls_accept bind cfg w =
     (case bind (bind_addr cfg) of
        Inl e \<Rightarrow> (Some (Inl (Context ''binding TCP listener'' (FromIo e))), None, w)
      | Inr l \<Rightarrow> run_with_listener env t api tls_accept cfg l w)"

subsection \<open>Invariants of the listener\<close>

text \<open>
  Documented of \<open>rustls\<close>: a handshake under a configuration with mandatory client authentication
  completes only for a client whose leaf certificate the verifier accepted.
\<close>

definition handshake_verifies :: "daemon_env \<Rightarrow> 'c tls_accept \<Rightarrow> bool" where
  "handshake_verifies env tls_accept \<longleftrightarrow>
     (\<forall>a tcp t. tls_accept a tcp = Inr t \<longrightarrow>
        (\<exists>leaf rest. peer_certs t = Some (leaf # rest)
           \<and> verify_client_cert (e_x509 env) (sc_verifier a) leaf = Inr ()))"

context server_invariant
begin

lemma conn_run_keeps:
  "P st w \<Longrightarrow> addr_ok a \<Longrightarrow> conn_run env t a st w = (r, t', st', w') \<Longrightarrow> P st' w'"
  using conn_run_inv [of st w a t] by simp

lemma handle_connection_inv:
  assumes "P st w" "addr_ok a" "handle_connection env tls_accept acc tcp a st w = (r, st', w')"
  shows "P st' w'"
  using assms by (auto simp: handle_connection_def dest: conn_run_keeps split: sum.splits prod.splits)

lemma accept_events_inv:
  "P st w \<Longrightarrow> (\<forall>tcp a. Connected tcp a \<in> set evs \<longrightarrow> addr_ok a) \<Longrightarrow>
     accept_events env tls_accept evs st w = (r, st', w') \<Longrightarrow> P st' w'"
proof (induction evs arbitrary: st w)
  case (Cons ev evs)
  show ?case
  proof (cases ev)
    case (Connected tcp a)
    show ?thesis
    proof (cases "build_acceptor env st")
      case (Inl e)
      with Connected Cons.IH [OF Cons.prems(1)] Cons.prems show ?thesis by auto
    next
      case (Inr acc)
      obtain x st1 w1 where h: "handle_connection env tls_accept acc tcp a st w = (x, st1, w1)"
        by (cases "handle_connection env tls_accept acc tcp a st w")
      have "addr_ok a" using Cons.prems(2) Connected by auto
      from handle_connection_inv [OF Cons.prems(1) this h] Cons.IH [of st1 w1] Cons.prems Connected Inr h
      show ?thesis by auto
    qed
  qed (use Cons in auto)
qed simp

lemma accept_loop_inv:
  "P st w \<Longrightarrow> (\<forall>tcp a. Connected tcp a \<in> set (accepts l) \<longrightarrow> addr_ok a) \<Longrightarrow>
     accept_loop env tls_accept l st w = (r, st', w') \<Longrightarrow> P st' w'"
  using accept_events_inv [of st w "accepts l"] by (auto simp: accept_loop_def split: sum.splits)

end

subsection \<open>Properties\<close>

lemma build_acceptor_mode:
  "build_acceptor env st = Inr a \<Longrightarrow>
     hardened a \<and> cv_mode (sc_verifier a) = Pinned (with_pins (map client_spki (filter is_active (pairings (contents st)))))"
  using server_config_Inr
  by (auto simp: build_acceptor_def server_config_for_pinned_clients_def Let_def client_verifier_pinned_def)

lemma pinned_client_active:
  assumes "build_acceptor env st = Inr a" "verify_client_cert (e_x509 env) (sc_verifier a) leaf = Inr ()"
  shows "\<exists>h. extract_spki_hash (e_x509 env) leaf = Inr h \<and> active_pairing (contents st) h \<noteq> None"
  using assms(2) build_acceptor_mode [OF assms(1)]
  by (auto simp: verify_client_cert_def with_pins_def pinset_contains_def active_pairing_None is_active_def
      split: sum.splits if_splits)

text \<open>
  C3: Only active pairings reach the daemon: if a connection has any effect at all (on the state, the
  disk, the clock or the host), the peer's certificate hash belongs to a pairing that was active
  both when the connection was accepted and when its protocol loop started. So a pairing revoked
  between the two gets nothing, and neither does one that was only paired after the accept. The TLS
  library lets through only clients its verifier accepted.
\<close>
theorem only_active_pairings_have_effect:
  assumes "handshake_verifies env tls_accept" "build_acceptor env st0 = Inr acc"
    and "handle_connection env tls_accept acc tcp a st w = (r, st', w')"
    and "st' \<noteq> st \<or> w' \<noteq> w"
  shows "\<exists>t leaf rest h. tls_accept acc tcp = Inr t \<and> peer_certs t = Some (leaf # rest)
     \<and> extract_spki_hash (e_x509 env) leaf = Inr h
     \<and> active_pairing (contents st0) h \<noteq> None \<and> active_pairing (contents st) h \<noteq> None"
proof (cases "tls_accept acc tcp")
  case (Inl e)
  with assms(3,4) show ?thesis by (simp add: handle_connection_def)
next
  case (Inr t)
  from Inr assms(1) obtain leaf rest where leaf: "peer_certs t = Some (leaf # rest)"
    "verify_client_cert (e_x509 env) (sc_verifier acc) leaf = Inr ()"
    unfolding handshake_verifies_def by blast
  obtain h where h: "extract_spki_hash (e_x509 env) leaf = Inr h" "active_pairing (contents st0) h \<noteq> None"
    using pinned_client_active [OF assms(2) leaf(2)] by blast
  have "peer_spki_from_tls env t = Inr h"
    using leaf(1) h(1) by (simp add: peer_spki_from_tls_def slice_first_def)
  then have "active_pairing (contents st) h \<noteq> None"
    using assms(3,4) Inr
    by (cases "active_pairing (contents st) h")
      (auto simp: handle_connection_def conn_run_def snapshot_def split: prod.splits)
  with Inr leaf(1) h show ?thesis by blast
qed

lemma ensure_data_dir_files [simp]: "files (snd (ensure_data_dir d s)) = files s"
  using fs_create_dir_all_same [of d s]
  by (cases "fs_create_dir_all d s") (auto simp: ensure_data_dir_def split: sum.splits)

text \<open>The address of every accepted connection carries no flow information or scope.\<close>

definition plain_addresses :: "'c accept_event list \<Rightarrow> bool" where
  "plain_addresses evs = list_all (\<lambda>ev. case ev of Connected tcp a \<Rightarrow> wf_addr a | _ \<Rightarrow> True) evs"

lemma plain_addresses_iff:
  "plain_addresses evs \<longleftrightarrow> (\<forall>tcp a. Connected tcp a \<in> set evs \<longrightarrow> wf_addr a)"
  by (auto simp: plain_addresses_def list_all_iff split: accept_event.splits)

definition sample_accept :: "read_event list tls_accept" where
  "sample_accept a tcp =
     (if verify_client_cert sample_x509 (sc_verifier a) alice_cert = Inr ()
      then Inr (sample_stream (Some [alice_cert]) tcp) else Inl (OtherIo ''certificate''))"

lemma sample_accept_verifies [simp]: "handshake_verifies sample_daemon sample_accept"
  by (auto simp: handshake_verifies_def sample_accept_def sample_stream_def sample_daemon_def split: if_splits)

theorem only_active_pairings_have_effect_witness:
  "\<exists>acc st' w'. build_acceptor sample_daemon (sample_shared stub_handlers :: unit SharedState) = Inr acc
     \<and> handle_connection sample_daemon sample_accept acc [] (V4 [10, 0, 0, 9] 4) (sample_shared stub_handlers)
         (sample_world 0 ()) = (Inr (), st', w')
     \<and> map last_known_address (pairings (contents st')) = [Some (V4 [10, 0, 0, 9] 4)]
     \<and> (\<exists>leaf h. extract_spki_hash (e_x509 sample_daemon) leaf = Inr h
          \<and> active_pairing sample_contents h \<noteq> None)"
proof -
  let ?st = "sample_shared stub_handlers :: unit SharedState"
  let ?t = "sample_stream (Some [alice_cert]) []"
  obtain acc where acc: "build_acceptor sample_daemon ?st = Inr acc"
    by (simp add: build_acceptor_def server_config_for_pinned_clients_def server_config_def sample_daemon_def
        sample_rustls_def Let_def identity_to_rustls_def)
  have mode: "cv_mode (sc_verifier acc) = Pinned (with_pins [alice])"
    using build_acceptor_mode [OF acc] by (simp add: sample_contents_def is_active_def alice_def)
  have "extract_spki_hash sample_x509 alice_cert = Inr alice"
    by (simp add: extract_spki_hash_def compute_spki_hash_def sample_x509_def alice_cert_def alice_def)
  with mode have a: "sample_accept acc [] = Inr ?t"
    by (simp add: sample_accept_def verify_client_cert_def with_pins_def pinset_contains_def)
  have "read_envelope [] ?t = (Inr None, [], ?t)"
    by (simp add: read_envelope.simps [of "[]"] decode_envelope_eq tls_read_def sample_stream_def)
  then have loop: "conn_loop sample_daemon alice counter_new [] ?t st w = (Inr (), ?t, st, w)"
    for st :: "unit SharedState" and w
    by (rule conn_loop_end)
  obtain st' w' where r: "handle_connection sample_daemon sample_accept acc [] (V4 [10, 0, 0, 9] 4) ?st
        (sample_world 0 ()) = (Inr (), st', w')"
      "map last_known_address (pairings (contents st')) = [Some (V4 [10, 0, 0, 9] 4)]"
    using alice_active [of "stub_handlers :: unit Handlers"]
    by (simp add: handle_connection_def a conn_run_def snapshot_def loop [unfolded alice_def] Let_def sample_contents_def alice_def
        state_write_def)
  have "st' \<noteq> ?st" using r(2) by (auto simp: sample_contents_def)
  then have e: "\<exists>leaf h. extract_spki_hash (e_x509 sample_daemon) leaf = Inr h \<and> active_pairing sample_contents h \<noteq> None"
    using only_active_pairings_have_effect [OF sample_accept_verifies acc r(1)] by auto
  show ?thesis by (rule exI [of _ acc], rule exI [of _ st'], rule exI [of _ w'])
    (intro conjI, rule acc, rule r(1), rule r(2), rule e)
qed

text \<open>
  The whole server keeps the keystore: from its start on a keystore, through any sequence of
  accepted connections, failing accepts, failing handshakes, failing writes and failing saves, up to
  its shutdown or at any time before, the disk holds a keystore with the same key, certificate,
  time of the last credential prompt and active pairings as at the start, but for cached addresses.
  If it does not come up, the disk is unchanged and the host has not been touched.
\<close>
text \<open>What the start reads leaves files and host alone.\<close>

lemma start_reads:
  assumes "on_fs (ensure_data_dir d) w = (r1, w1)" "on_fs (ks_load e p) w1 = (r2, w2)"
  shows "files (w_fs w1) = files (w_fs w) \<and> files (w_fs w2) = files (w_fs w) \<and> w_os w1 = w_os w \<and> w_os w2 = w_os w"
  using assms on_fs_fs(1) [of "ensure_data_dir d" w] on_fs_fs(1) [of "ks_load e p" w1]
    on_fs_kept(1) [of w "ensure_data_dir d"] on_fs_kept(1) [of w1 "ks_load e p"]
  by (simp add: os_kept_def)

lemma server_keeps_keystore:
  assumes "ks_ok (e_ks env)" "disk env cfg w = Inr (Some c)" "wf_contents c"
    and "plain_addresses (accepts l)"
    and "run_with_listener_handlers_shutdown env tls_accept cfg l hs w = (r, st, w')"
  shows "case st of
      None \<Rightarrow> disk env cfg w' = Inr (Some c) \<and> w_os w' = w_os w \<and> (\<exists>e. r = Some (Inl e))
    | Some st' \<Rightarrow> core_view (contents st') = core_view c \<and> config st' = cfg
        \<and> (\<exists>c'. disk env cfg w' = Inr (Some c') \<and> core_view c' = core_view c)"
proof -
  obtain r1 w1 where d: "on_fs (ensure_data_dir (data_dir cfg)) w = (r1, w1)" by fastforce
  obtain r2 w2 where l: "on_fs (ks_load (e_ks env) (keystore_path cfg)) w1 = (r2, w2)" by fastforce
  note f = start_reads [OF d l]
  then have os: "w_os w1 = w_os w" "w_os w2 = w_os w" by simp_all
  have disk: "disk env cfg w1 = Inr (Some c)" "disk env cfg w2 = Inr (Some c)"
    using assms(2) f ks_stored_files by (simp_all add: disk_def ks_stored_def)
  show ?thesis
  proof (cases r1)
    case (Inl e)
    with assms(5) d disk os show ?thesis by (auto simp: run_with_listener_handlers_shutdown_def)
  next
    case r1: (Inr u)
    show ?thesis
    proof (cases r2)
      case (Inl e)
      with r1 assms(5) d l disk os show ?thesis by (auto simp: run_with_listener_handlers_shutdown_def)
    next
      case (Inr out)
      have "fst (ks_load (e_ks env) (keystore_path cfg) (w_fs w1)) = Inr out"
        using l Inr on_fs_fs(2) [of "ks_load (e_ks env) (keystore_path cfg)" w1] by simp
      then have out: "out = Some c"
        using store.load_Inr disk(1) by (fastforce simp: disk_def)
      show ?thesis
      proof (cases "device_from_bytes (e_rcgen env) (e_x509 env) (device_identity_bytes c)")
        case (Inl e)
        with Inr out r1 assms(5) d l disk os show ?thesis
          by (auto simp: run_with_listener_handlers_shutdown_def)
      next
        case i: (Inr i)
        obtain rp w3 where p: "on_os (h_prepare hs) w2 = (rp, w3)" by fastforce
        have "w_fs w3 = w_fs w2" using on_os_pair [OF p] .
        then have "keeps_view env i cfg hs (core_view c) (with_handlers c i cfg hs) w3"
          using assms(1,3) disk(2) by (simp add: keeps_view_def with_handlers_def disk_def)
        moreover obtain st' where st': "st = Some st'"
          "accept_loop env tls_accept l (with_handlers c i cfg hs) w3 = (r, st', w')"
          using Inr out r1 assms(5) d l i p
          by (auto simp: run_with_listener_handlers_shutdown_def split: prod.splits)
        ultimately have "keeps_view env i cfg hs (core_view c) st' w'"
          using keystore_view.accept_loop_inv assms(4) by (fastforce simp: plain_addresses_iff)
        then show ?thesis by (simp add: st'(1) keeps_view_def)
      qed
    qed
  qed
qed

lemma server_keeps_keystore_example:
  "\<exists>r st w'. run_with_listener_handlers_shutdown sample_daemon sample_accept (for_test [''data''])
      \<lparr>local_addr = Inr (V4 [127, 0, 0, 1] 9), accepts = [Connected [Chunk [1]] alice_addr, ShutdownSignal]\<rparr>
      stub_handlers (saved_world 0 ()) = (r, st, w')
    \<and> (\<exists>c'. disk sample_daemon (for_test [''data'']) w' = Inr (Some c') \<and> core_view c' = core_view sample_contents)"
proof -
  let ?l = "\<lparr>local_addr = Inr (V4 [127, 0, 0, 1] 9), accepts = [Connected [Chunk [1]] alice_addr, ShutdownSignal]\<rparr>"
  obtain r st w' where run: "run_with_listener_handlers_shutdown sample_daemon sample_accept (for_test [''data''])
      ?l stub_handlers (saved_world 0 ()) = (r, st, w')"
    by (cases "run_with_listener_handlers_shutdown sample_daemon sample_accept (for_test [''data''])
      ?l stub_handlers (saved_world 0 ())")
  have "plain_addresses (accepts ?l)" by (simp add: plain_addresses_def alice_addr_def)
  from server_keeps_keystore [OF sample_daemon_ks saved_world_disk sample_contents_wf this run] run
  show ?thesis by (cases st) auto
qed

end
