(* ===== verification/Connection_Steps.thy ===== *)
theory Connection_Steps
  imports Server_Listener
begin

section \<open>A connection as a sequence of steps\<close>

text \<open>
  The functions of \<open>connection.rs\<close> and \<open>server/mod.rs\<close> cut where other tasks get to run: the start of
  a connection (\<open>conn_start\<close>: peer, pairing, address), one turn of its loop (\<open>conn_step\<close>), and the
  start of the server (\<open>server_start\<close>). Run to completion with nothing between them, the steps are the
  functions of \<open>Server_Connection\<close> and \<open>Server_Listener\<close>.
\<close>

definition conn_start ::
    "daemon_env \<Rightarrow> tls_stream \<Rightarrow> SocketAddr \<Rightarrow> 'o SharedState \<Rightarrow> 'o world
       \<Rightarrow> ((anyhow_error + unit) + SpkiHash) \<times> tls_stream \<times> 'o SharedState \<times> 'o world" where
  "conn_start env t peer_addr st w =
     (case map_err (Context ''extracting peer SPKI from TLS session'') (peer_spki_from_tls env t) of
        Inl e \<Rightarrow> (Inl (Inl e), t, st, w)
      | Inr peer_spki \<Rightarrow>
          (case active_pairing (snapshot st) peer_spki of
             None \<Rightarrow> (case send_error_and_close env t 0 Revoked of (r, t1) \<Rightarrow> (Inl r, t1, st, w))
           | Some _ \<Rightarrow>
               let (changed, ps) = record_address peer_spki peer_addr (pairings (contents st));
                   st1 = state_write (\<lambda>c. c\<lparr>pairings := ps\<rparr>) st;
                   w1 = (if changed then snd (state_save env st1 w) else w)
               in (Inr peer_spki, t, st1, w1)))"

datatype turn = Ended "anyhow_error + unit" | Next NonceCounter bytes

definition conn_step ::
    "daemon_env \<Rightarrow> SpkiHash \<Rightarrow> NonceCounter \<Rightarrow> bytes \<Rightarrow> tls_stream \<Rightarrow> 'o SharedState \<Rightarrow> 'o world
       \<Rightarrow> turn \<times> tls_stream \<times> 'o SharedState \<times> 'o world" where
  "conn_step env peer_spki nonces buf t st w =
     (case read_envelope buf t of
        (Inl e, _, t1) \<Rightarrow> (Ended (Inl e), t1, st, w)
      | (Inr None, _, t1) \<Rightarrow> (Ended (Inr ()), t1, st, w)
      | (Inr (Some envelope), buf1, t1) \<Rightarrow>
          (case accept (recv nonces) (nonce envelope) of
             (Inl _, _) \<Rightarrow>
               (case send_error_and_close env t1 (nonce envelope) NonceReplay of (r, t2) \<Rightarrow> (Ended r, t2, st, w))
           | (Inr _, recv') \<Rightarrow>
               (case decode_client_frame (e_client_codec env) (payload envelope) of
                  Inl e \<Rightarrow>
                    (case send_error_and_close env t1 (nonce envelope) (to_wire_code e) of
                       (r, t2) \<Rightarrow> (Ended r, t2, st, w))
                | Inr frame \<Rightarrow>
                    (case dispatch env peer_spki frame (nonce envelope) st w of
                       (response, st1, w1) \<Rightarrow>
                         (case write_frame env t1 (nonces\<lparr>recv := recv'\<rparr>) response of
                            (Inl e, t2, _) \<Rightarrow> (Ended (Inl e), t2, st1, w1)
                          | (Inr wrote, t2, nonces2) \<Rightarrow>
                              if \<not> wrote then (Ended (Inr ()), t2, st1, w1)
                              else if response_closes_connection response
                              then (Ended (Inr ()), tls_shutdown t2, st1, w1)
                              else (Next nonces2 buf1, t2, st1, w1))))))"

definition server_start ::
    "daemon_env \<Rightarrow> Config \<Rightarrow> 'o Handlers \<Rightarrow> 'o world \<Rightarrow> (anyhow_error + 'o SharedState) \<times> 'o world" where
  "server_start env cfg hs w =
     (case on_fs (ensure_data_dir (data_dir cfg)) w of
        (Inl e, w1) \<Rightarrow> (Inl (FromKeystore e), w1)
      | (Inr _, w1) \<Rightarrow>
          (case on_fs (ks_load (e_ks env) (keystore_path cfg)) w1 of
             (Inl e, w2) \<Rightarrow> (Inl (FromKeystore e), w2)
           | (Inr None, w2) \<Rightarrow> (Inl (Anyhow ''no keystore''), w2)
           | (Inr (Some c), w2) \<Rightarrow>
               (case map_err (\<lambda>e. Context ''loading device identity from keystore'' (FromCrypto e))
                       (device_from_bytes (e_rcgen env) (e_x509 env) (device_identity_bytes c)) of
                  Inl e \<Rightarrow> (Inl e, w2)
                | Inr i \<Rightarrow>
                    (case on_os (h_prepare hs) w2 of (_, w3) \<Rightarrow> (Inr (with_handlers c i cfg hs), w3)))))"

subsection \<open>The steps make up the functions\<close>

lemma conn_run_steps:
  "conn_run env t a st w =
     (case conn_start env t a st w of
        (Inl r, t1, st1, w1) \<Rightarrow> (r, t1, st1, w1)
      | (Inr h, t1, st1, w1) \<Rightarrow> conn_loop env h counter_new [] t1 st1 w1)"
  by (simp add: conn_run_def conn_start_def Let_def split: sum.split option.split prod.split)

lemma conn_loop_steps:
  "conn_loop env h ns buf t st w =
     (case conn_step env h ns buf t st w of
        (Ended r, t1, st1, w1) \<Rightarrow> (r, t1, st1, w1)
      | (Next ns1 buf1, t1, st1, w1) \<Rightarrow> conn_loop env h ns1 buf1 t1 st1 w1)"
  by (simp add: conn_loop.simps [of env h ns buf t st w] conn_step_def
      split: prod.split sum.split option.split)

lemma run_with_listener_steps:
  "run_with_listener_handlers_shutdown env tls_accept cfg l hs w =
     (case server_start env cfg hs w of
        (Inl e, w1) \<Rightarrow> (Some (Inl e), None, w1)
      | (Inr st, w1) \<Rightarrow> (case accept_loop env tls_accept l st w1 of (r, st', w2) \<Rightarrow> (r, Some st', w2)))"
  by (simp add: run_with_listener_handlers_shutdown_def server_start_def
      split: prod.split sum.split option.split)

text \<open>A turn that goes on has taken its bytes from the stream, so a connection has finitely many.\<close>

lemma conn_step_Next:
  "conn_step env h ns buf t st w = (Next ns1 buf1, t1, st1, w1) \<Longrightarrow>
     length (pending buf1 t1) < length (pending buf t)"
  by (auto simp: conn_step_def pending_def dest!: read_envelope_shrinks write_frame_pair
      split: prod.splits sum.splits option.splits if_splits)

text \<open>What a turn leaves behind is what the loop's treatment of one envelope leaves.\<close>

lemma conn_step_on_envelope:
  "snd (snd (conn_step env h ns buf t st w)) =
     (case read_envelope buf t of
        (Inr (Some e), _, t1) \<Rightarrow>
          snd (snd (on_envelope env h ns e t1 st w (\<lambda>ns2 t2 st2 w2. (Inr (), t2, st2, w2))))
      | _ \<Rightarrow> (st, w))"
  by (simp add: conn_step_def on_envelope_def split: prod.split sum.split option.split)

context server_invariant
begin

lemma conn_start_inv:
  assumes "P st w" "addr_ok a" "conn_start env t a st w = (r, t', st', w')"
  shows "P st' w'"
  using assms(3) address_inv [OF assms(1,2)] assms(1)
  by (auto simp: conn_start_def Let_def split: sum.splits option.splits prod.splits)

lemma conn_step_inv:
  assumes "P st w" "conn_step env h ns buf t st w = (r, t', st', w')"
  shows "P st' w'"
proof -
  have k: "holds (on_envelope env h ns e t1 st w (\<lambda>ns2 t2 st2 w2. (Inr (), t2, st2, w2)))" for e t1
    by (rule on_envelope_inv [OF assms(1)]) simp
  have "snd (snd (conn_step env h ns buf t st w)) = (st', w')" using assms(2) by simp
  with k assms(1) show ?thesis
    unfolding conn_step_on_envelope outcome_holds_def
    by (auto split: prod.splits sum.splits option.splits) (metis fst_conv snd_conv)
qed

end

text \<open>A served connection is one of an active pairing.\<close>

lemma conn_start_active:
  "conn_start env t a st w = (Inr h, t', st', w') \<Longrightarrow>
     peer_spki_from_tls env t = Inr h \<and> active_pairing (contents st) h \<noteq> None"
  by (auto simp: conn_start_def snapshot_def Let_def map_err_def split: sum.splits option.splits prod.splits)

end
