(* ===== verification/Daemon_Admin.thy ===== *)
theory Daemon_Admin
  imports Server_State
begin

section \<open>The local commands on the keystore\<close>

text \<open>
  \<open>daemon/src/admin.rs\<close>: \<open>list-paired\<close>, \<open>revoke\<close>, \<open>reauth-now\<close> and \<open>uninstall-revoke-broadcast\<close>.
  Each is a process of its own that loads the keystore, changes it and saves it. What a command
  prints is part of its result, one constructor of \<open>admin_line\<close> for each \<open>println!\<close>; the texts of
  errors keep their fixed part. The TCP connect under its timeout is an argument.
\<close>

datatype admin_line =
    NoPairingsLine
  | HeaderLine
  | PairingRow string u64 u64 bool string
  | RevokedLine string
  | ReauthLine u64 ReauthInterval u64
  | NothingToBroadcastLine
  | MarkedLine nat
  | NoAddressLine string
  | ReachableLine string SocketAddr
  | UnreachableLine string SocketAddr string
  | TimeoutLine string SocketAddr
  | SummaryLine nat nat nat nat
  | NoteLine

datatype connect_result = ConnectOk | ConnectErr string | ConnectTimeout

definition require_keystore ::
    "daemon_env \<Rightarrow> Config \<Rightarrow> 'o world \<Rightarrow> (anyhow_error + KeystoreContents) \<times> 'o world" where
  "require_keystore env cfg w =
     (case on_fs (ks_load (e_ks env) (keystore_path cfg)) w of
        (Inl e, w') \<Rightarrow> (Inl (Context ''loading keystore'' (FromKeystore e)), w')
      | (Inr None, w') \<Rightarrow> (Inl (Anyhow ''no keystore''), w')
      | (Inr (Some c), w') \<Rightarrow> (Inr c, w'))"

definition pairing_row :: "DaemonPairingRecord \<Rightarrow> admin_line" where
  "pairing_row p =
     PairingRow (phone_name p) (paired_at_unix_ms p) (last_authenticated_at_unix_ms p) (revoked p)
       (to_hex (client_spki p))"

definition list_paired ::
    "daemon_env \<Rightarrow> Config \<Rightarrow> 'o world \<Rightarrow> (anyhow_error + unit) \<times> admin_line list \<times> 'o world" where
  "list_paired env cfg w =
     (case require_keystore env cfg w of
        (Inl e, w1) \<Rightarrow> (Inl e, [], w1)
      | (Inr c, w1) \<Rightarrow>
          if pairings c = [] then (Inr (), [NoPairingsLine], w1)
          else (Inr (), HeaderLine # map pairing_row (pairings c), w1))"

text \<open>The loop over the pairings that both \<open>revoke\<close> and the uninstaller write through.\<close>

definition mark_revoked :: "(DaemonPairingRecord \<Rightarrow> bool) \<Rightarrow> KeystoreContents \<Rightarrow> KeystoreContents" where
  "mark_revoked hit c =
     c\<lparr>pairings := map (\<lambda>p. if hit p then p\<lparr>revoked := True, revoke_pending := True\<rparr> else p) (pairings c)\<rparr>"

definition ks_save_cmd ::
    "daemon_env \<Rightarrow> Config \<Rightarrow> KeystoreContents \<Rightarrow> 'o world \<Rightarrow> (anyhow_error + unit) \<times> 'o world" where
  "ks_save_cmd env cfg c w =
     map_prod (map_err FromKeystore) id (on_fs (ks_save (e_ks env) (keystore_path cfg) c) w)"

definition revoke_command ::
    "daemon_env \<Rightarrow> Config \<Rightarrow> string \<Rightarrow> 'o world \<Rightarrow> (anyhow_error + unit) \<times> admin_line list \<times> 'o world" where
  "revoke_command env cfg name w =
     (case require_keystore env cfg w of
        (Inl e, w1) \<Rightarrow> (Inl e, [], w1)
      | (Inr c, w1) \<Rightarrow>
          let found = list_ex (\<lambda>p. phone_name p = name) (pairings c);
              c' = mark_revoked (\<lambda>p. phone_name p = name) c
          in if \<not> found then (Inl (Anyhow ''no pairing named''), [], w1)
             else (case ks_save_cmd env cfg c' w1 of
                     (Inl e, w2) \<Rightarrow> (Inl e, [], w2)
                   | (Inr _, w2) \<Rightarrow> (Inr (), [RevokedLine name], w2)))"

definition run_credential_prompt_stub :: bool where
  "run_credential_prompt_stub = True"

definition reauth_now ::
    "daemon_env \<Rightarrow> Config \<Rightarrow> 'o world \<Rightarrow> (anyhow_error + unit) \<times> admin_line list \<times> 'o world" where
  "reauth_now env cfg w =
     (case require_keystore env cfg w of
        (Inl e, w1) \<Rightarrow> (Inl e, [], w1)
      | (Inr c, w1) \<Rightarrow>
          if \<not> run_credential_prompt_stub then (Inl (Anyhow ''credential prompt cancelled''), [], w1)
          else
            (case unix_ms_now w1 of (now, w2) \<Rightarrow>
               let c' = c\<lparr>ks_last_authenticated_at_unix_ms := now\<rparr> in
               (case ks_save_cmd env cfg c' w2 of
                  (Inl e, w3) \<Rightarrow> (Inl e, [], w3)
                | (Inr _, w3) \<Rightarrow>
                    (Inr (), [ReauthLine now (interval_from_days (reauth_interval_days c'))
                                (expires_at_unix_ms now (reauth_interval_days c'))], w3))))"

text \<open>The push to every phone: the lines printed, and the counts of phones not reached.\<close>

fun broadcast ::
    "(SocketAddr \<Rightarrow> connect_result) \<Rightarrow> (string \<times> SocketAddr option) list
       \<Rightarrow> nat \<Rightarrow> nat \<Rightarrow> admin_line list \<times> nat \<times> nat" where
  "broadcast connect [] unreachable no_address = ([], unreachable, no_address)"
| "broadcast connect ((name, None) # ts) unreachable no_address =
     apfst ((#) (NoAddressLine name)) (broadcast connect ts unreachable (no_address + 1))"
| "broadcast connect ((name, Some addr) # ts) unreachable no_address =
     apfst ((#) (case connect addr of
                   ConnectOk \<Rightarrow> ReachableLine name addr
                 | ConnectErr e \<Rightarrow> UnreachableLine name addr e
                 | ConnectTimeout \<Rightarrow> TimeoutLine name addr))
       (broadcast connect ts (unreachable + 1) no_address)"

definition uninstall_revoke_broadcast ::
    "daemon_env \<Rightarrow> (SocketAddr \<Rightarrow> connect_result) \<Rightarrow> Config \<Rightarrow> 'o world
       \<Rightarrow> (anyhow_error + unit) \<times> admin_line list \<times> 'o world" where
  "uninstall_revoke_broadcast env connect cfg w =
     (case require_keystore env cfg w of
        (Inl e, w1) \<Rightarrow> (Inl e, [], w1)
      | (Inr c, w1) \<Rightarrow>
          let targets = map (\<lambda>p. (phone_name p, last_known_address p)) (pairings c);
              c' = mark_revoked (\<lambda>p. True) c
          in (case ks_save_cmd env cfg c' w1 of
                (Inl e, w2) \<Rightarrow> (Inl e, [], w2)
              | (Inr _, w2) \<Rightarrow>
                  if targets = [] then (Inr (), [NothingToBroadcastLine], w2)
                  else
                    let delivered = 0;
                        (ls, unreachable, no_address) = broadcast connect targets 0 0
                    in (Inr (), MarkedLine (length targets) # ls @
                          [SummaryLine delivered unreachable no_address (length targets), NoteLine], w2)))"

subsection \<open>Lemmas\<close>

lemma mark_revoked_fields [simp]:
  "ks_key_pkcs8_der (mark_revoked hit c) = ks_key_pkcs8_der c" "ks_cert_der (mark_revoked hit c) = ks_cert_der c"
  "reauth_interval_days (mark_revoked hit c) = reauth_interval_days c"
  "ks_last_authenticated_at_unix_ms (mark_revoked hit c) = ks_last_authenticated_at_unix_ms c"
  "length (pairings (mark_revoked hit c)) = length (pairings c)"
  by (simp_all add: mark_revoked_def)

lemma mark_revoked_wf [simp]: "wf_contents c \<Longrightarrow> wf_contents (mark_revoked hit c)"
  by (auto simp: wf_contents_def mark_revoked_def list_all_iff wf_pairing_def)

text \<open>Marking takes exactly the hit pairings out of the active ones.\<close>

lemma mark_revoked_active:
  "(\<And>p. hit (p\<lparr>revoked := True, revoke_pending := True\<rparr>) = hit p) \<Longrightarrow>
   filter is_active (pairings (mark_revoked hit c)) = filter (\<lambda>p. \<not> hit p) (filter is_active (pairings c))"
proof -
  have "filter is_active (map (\<lambda>p. if hit p then p\<lparr>revoked := True, revoke_pending := True\<rparr> else p) ps)
      = filter (\<lambda>p. \<not> hit p) (filter is_active ps)" for ps
    by (induction ps) (simp_all add: is_active_def)
  then show ?thesis by (simp add: mark_revoked_def)
qed

lemma on_fs_pair:
  "on_fs f w = (r, w') \<Longrightarrow> r = fst (f (w_fs w)) \<and> w_fs w' = snd (f (w_fs w)) \<and> os_kept w w' \<and> w_ticks w' = w_ticks w"
  by (auto simp: on_fs_def os_kept_def split: prod.splits)

lemma require_keystore_disk:
  assumes "require_keystore env cfg w = (r, w')"
  shows "disk env cfg w' = disk env cfg w \<and> os_kept w w' \<and> (\<forall>c. r = Inr c \<longrightarrow> disk env cfg w = Inr (Some c))"
proof -
  obtain x where x: "on_fs (ks_load (e_ks env) (keystore_path cfg)) w = (x, w')"
      "r = Inr c \<Longrightarrow> x = Inr (Some c)" for c
    using assms by (auto simp: require_keystore_def split: prod.splits sum.splits option.splits)
  from on_fs_pair [OF x(1)] x(2)
    store.load_keeps [of "e_ks env" "keystore_path cfg" "keystore_path cfg" "w_fs w"]
    store.load_Inr [of "e_ks env" "keystore_path cfg" "w_fs w"]
  show ?thesis by (metis disk_def)
qed

lemma require_keystore_ticks: "require_keystore env cfg w = (r, w') \<Longrightarrow> w_ticks w' = w_ticks w"
  by (auto simp: require_keystore_def dest: on_fs_pair split: prod.splits sum.splits option.splits)

lemma ks_save_cmd_disk:
  assumes "ks_ok (e_ks env)" "wf_contents c" "ks_save_cmd env cfg c w = (r, w')"
  shows "disk env cfg w' = (case r of Inl _ \<Rightarrow> disk env cfg w | Inr _ \<Rightarrow> Inr (Some c)) \<and> os_kept w w'"
proof -
  obtain x where x: "on_fs (ks_save (e_ks env) (keystore_path cfg) c) w = (x, w')" "r = map_err FromKeystore x"
    using assms(3) by (auto simp: ks_save_cmd_def map_prod_def split: prod.splits)
  have "disk env cfg w' = (case x of Inl _ \<Rightarrow> disk env cfg w | Inr _ \<Rightarrow> Inr (Some c))"
    using on_fs_pair [OF x(1)] store.save_all_or_nothing [OF assms(1) keystore_path_place assms(2), of cfg "w_fs w"]
    by (simp add: disk_def cong: sum.case_cong)
  moreover have "os_kept w w'" using on_fs_pair [OF x(1)] by simp
  ultimately show ?thesis using x(2) by (cases x) (simp_all add: map_err_def)
qed

text \<open>The three commands that write, as one read-modify-write of the keystore.\<close>

definition ks_rewritten ::
    "daemon_env \<Rightarrow> Config \<Rightarrow> 'o world \<Rightarrow> anyhow_error + unit \<Rightarrow> 'o world
       \<Rightarrow> KeystoreContents \<Rightarrow> KeystoreContents \<Rightarrow> bool" where
  "ks_rewritten env cfg w r w' c c' \<longleftrightarrow>
     os_kept w w' \<and> disk env cfg w' = Inr (Some (case r of Inl _ \<Rightarrow> c | Inr _ \<Rightarrow> c'))"

lemma ks_rewrittenI:
  assumes "ks_ok (e_ks env)" "require_keystore env cfg w = (Inr c, w1)" "os_kept w1 w2" "w_fs w2 = w_fs w1"
    and "wf_contents c'" "ks_save_cmd env cfg c' w2 = (r, w')"
  shows "ks_rewritten env cfg w r w' c c'"
proof -
  from require_keystore_disk [OF assms(2)] have a: "disk env cfg w1 = Inr (Some c)" "os_kept w w1" by auto
  then have "disk env cfg w2 = Inr (Some c)" using assms(4) by (simp add: disk_def)
  with ks_save_cmd_disk [OF assms(1,5,6)] show ?thesis
    using a(2) assms(3) by (cases r) (auto simp: ks_rewritten_def dest: os_kept_trans)
qed

lemma ks_rewritten_stop:
  assumes "disk env cfg w = Inr (Some c)" "require_keystore env cfg w = (q, w')"
  shows "ks_rewritten env cfg w (Inl e) w' c c'"
  using require_keystore_disk [OF assms(2)] assms(1) by (simp add: ks_rewritten_def)

lemma revoke_command_rewrites:
  assumes "ks_ok (e_ks env)" "disk env cfg w = Inr (Some c)" "wf_contents c"
    and "revoke_command env cfg name w = (r, out, w')"
  shows "ks_rewritten env cfg w r w' c (mark_revoked (\<lambda>p. phone_name p = name) c)
     \<and> (r = Inr () \<longrightarrow> (\<exists>p \<in> set (pairings c). phone_name p = name) \<and> out = [RevokedLine name])
     \<and> (\<not> is_ok r \<longrightarrow> out = [])"
proof (cases "require_keystore env cfg w")
  case (Pair q w1)
  note rk = require_keystore_disk [OF Pair]
  show ?thesis
  proof (cases q)
    case (Inl e)
    with Pair assms(4) have "r = Inl e" "out = []" "w' = w1" by (auto simp: revoke_command_def)
    with ks_rewritten_stop [OF assms(2) Pair, of e] show ?thesis by simp
  next
    case (Inr c1)
    with rk assms(2) have c1: "c1 = c" by auto
    show ?thesis
    proof (cases "list_ex (\<lambda>p. phone_name p = name) (pairings c)")
      case False
      with Pair Inr c1 assms(4) have "r = Inl (Anyhow ''no pairing named'')" "out = []" "w' = w1"
        by (auto simp: revoke_command_def)
      with ks_rewritten_stop [OF assms(2) Pair, of "Anyhow ''no pairing named''"] show ?thesis by simp
    next
      case True
      obtain s w2 where s: "ks_save_cmd env cfg (mark_revoked (\<lambda>p. phone_name p = name) c) w1 = (s, w2)" by fastforce
      with Pair Inr c1 True assms(4) have "r = s" "w' = w2" "out = (case s of Inl _ \<Rightarrow> [] | Inr _ \<Rightarrow> [RevokedLine name])"
        by (auto simp: revoke_command_def split: sum.splits)
      with ks_rewrittenI [OF assms(1) Pair [unfolded Inr c1] _ _ _ s] assms(3) True show ?thesis
        by (auto simp: list_ex_iff split: sum.splits)
    qed
  qed
qed

lemma reauth_now_rewrites:
  assumes "ks_ok (e_ks env)" "disk env cfg w = Inr (Some c)" "wf_contents c"
    and "reauth_now env cfg w = (r, out, w')"
  shows "\<exists>now. ks_rewritten env cfg w r w' c (c\<lparr>ks_last_authenticated_at_unix_ms := now\<rparr>)
     \<and> (r = Inr () \<longrightarrow> now = fst (unix_ms_now w)
          \<and> out = [ReauthLine now (interval_from_days (reauth_interval_days c)) (expires_at_unix_ms now (reauth_interval_days c))])"
proof (cases "require_keystore env cfg w")
  case (Pair q w1)
  note rk = require_keystore_disk [OF Pair]
  show ?thesis
  proof (cases q)
    case (Inl e)
    with Pair assms(4) have "r = Inl e" "w' = w1" by (auto simp: reauth_now_def)
    with ks_rewritten_stop [OF assms(2) Pair, of e] show ?thesis by auto
  next
    case (Inr c1)
    with rk assms(2) have c1: "c1 = c" by auto
    obtain now w2 where n: "unix_ms_now w1 = (now, w2)" by fastforce
    obtain s w3 where s: "ks_save_cmd env cfg (c\<lparr>ks_last_authenticated_at_unix_ms := now\<rparr>) w2 = (s, w3)" by fastforce
    have now: "now = fst (unix_ms_now w)"
      using n rk require_keystore_ticks [OF Pair] by (auto simp: unix_ms_now_def os_kept_def)
    have k: "os_kept w1 w2" "w_fs w2 = w_fs w1" using unix_ms_now_kept [of w1] n by simp_all
    have wf: "wf_contents (c\<lparr>ks_last_authenticated_at_unix_ms := now\<rparr>)" using assms(3) by (simp add: wf_contents_def)
    have "r = s" "w' = w3" "out = (case s of Inl _ \<Rightarrow> []
        | Inr _ \<Rightarrow> [ReauthLine now (interval_from_days (reauth_interval_days c)) (expires_at_unix_ms now (reauth_interval_days c))])"
      using Pair Inr c1 n s assms(4)
      by (auto simp: reauth_now_def run_credential_prompt_stub_def Let_def split: sum.splits)
    with ks_rewrittenI [OF assms(1) Pair [unfolded Inr c1] k wf s] now show ?thesis by auto
  qed
qed

lemma uninstall_rewrites:
  assumes "ks_ok (e_ks env)" "disk env cfg w = Inr (Some c)" "wf_contents c"
    and "uninstall_revoke_broadcast env connect cfg w = (r, out, w')"
  shows "ks_rewritten env cfg w r w' c (mark_revoked (\<lambda>p. True) c)"
proof (cases "require_keystore env cfg w")
  case (Pair q w1)
  note rk = require_keystore_disk [OF Pair]
  show ?thesis
  proof (cases q)
    case (Inl e)
    with Pair assms(4) have "r = Inl e" "w' = w1" by (auto simp: uninstall_revoke_broadcast_def)
    with ks_rewritten_stop [OF assms(2) Pair, of e] show ?thesis by simp
  next
    case (Inr c1)
    with rk assms(2) have c1: "c1 = c" by auto
    obtain s w2 where s: "ks_save_cmd env cfg (mark_revoked (\<lambda>p. True) c) w1 = (s, w2)" by fastforce
    with Pair Inr c1 assms(4) have "r = s" "w' = w2"
      by (auto simp: uninstall_revoke_broadcast_def Let_def split: sum.splits if_splits prod.splits)
    with ks_rewrittenI [OF assms(1) Pair [unfolded Inr c1] _ _ _ s] assms(3) show ?thesis by simp
  qed
qed

text \<open>Every phone is accounted for in the summary, one line for each.\<close>

lemma broadcast_counts:
  "broadcast connect ts u n = (ls, u', n') \<Longrightarrow>
     length ls = length ts \<and> u' + n' = u + n + length ts
     \<and> n' = n + length (filter (\<lambda>t. snd t = None) ts)"
proof (induction ts arbitrary: u n ls)
  case (Cons t ts)
  obtain name a where t: "t = (name, a)" by fastforce
  with Cons.prems obtain ls1 where
    "broadcast connect ts (if a = None then u else u + 1) (if a = None then n + 1 else n) = (ls1, u', n')"
    "length ls = Suc (length ls1)"
    by (cases a) (auto simp: apfst_def map_prod_def split: prod.splits)
  from Cons.IH [OF this(1)] this(2) t show ?case by (cases a) simp_all
qed simp

end
