(* ===== verification/Pairing_Flow.thy ===== *)
theory Pairing_Flow
  imports Server_Listener
begin

section \<open>The pairing window\<close>

text \<open>
  \<open>daemon/src/pairing_flow.rs\<close>: the \<open>pair\<close> command. The pairing listener is the list of what its
  \<open>select!\<close> sees: the deadline, or the outcome of an accept. The select is unbiased, so any order is
  a possible run. The end of the list is a command still waiting, the result \<open>None\<close>; so is the random
  code generator when its source makes it loop. The printed code is part of the result.
\<close>

datatype 'c pair_event =
    DeadlineElapsed
  | PairAccepted "io_error + 'c \<times> SocketAddr"

record 'c pair_listener =
  pl_local_addr :: "io_error + SocketAddr"
  pl_events :: "'c pair_event list"

definition pair_peer_spki_from_tls :: "daemon_env \<Rightarrow> tls_stream \<Rightarrow> anyhow_error + SpkiHash" where
  "pair_peer_spki_from_tls env t =
     (case peer_certs t of
        None \<Rightarrow> Inl (Anyhow ''no peer cert'')
      | Some certs \<Rightarrow>
          (case slice_first certs of
             None \<Rightarrow> Inl (Anyhow ''empty peer cert chain'')
           | Some leaf \<Rightarrow> map_err FromCrypto (extract_spki_hash (e_x509 env) leaf)))"

definition pair_send ::
    "daemon_env \<Rightarrow> tls_stream \<Rightarrow> NonceCounter \<Rightarrow> DaemonFrame
       \<Rightarrow> (anyhow_error + unit) \<times> tls_stream \<times> NonceCounter" where
  "pair_send env t nonces frame =
     (case issue (send nonces) of
        (None, s) \<Rightarrow> (Inl (Anyhow ''send nonce overflow''), t, nonces\<lparr>send := s\<rparr>)
      | (Some n, s) \<Rightarrow>
          let nonces' = nonces\<lparr>send := s\<rparr> in
          (case map_err FromProtocol (encode_daemon_frame (e_daemon_codec env) frame) of
             Inl e \<Rightarrow> (Inl e, t, nonces')
           | Inr body \<Rightarrow>
               (case map_err FromProtocol
                       (encode_envelope \<lparr>version = PROTOCOL_VERSION, nonce = n, payload = body\<rparr>) of
                  Inl e \<Rightarrow> (Inl e, t, nonces')
                | Inr b \<Rightarrow>
                    (case tls_write_all b t of
                       (Inl e, t') \<Rightarrow> (Inl (FromIo e), t', nonces')
                     | (Inr _, t') \<Rightarrow> (Inr (), t', nonces')))))"

definition send_ack ::
    "daemon_env \<Rightarrow> tls_stream \<Rightarrow> NonceCounter \<Rightarrow> u64
       \<Rightarrow> (anyhow_error + unit) \<times> tls_stream \<times> NonceCounter" where
  "send_ack env t nonces request_nonce = pair_send env t nonces (Ack request_nonce)"

definition send_error ::
    "daemon_env \<Rightarrow> tls_stream \<Rightarrow> NonceCounter \<Rightarrow> u64 \<Rightarrow> ProtocolError
       \<Rightarrow> (anyhow_error + unit) \<times> tls_stream \<times> NonceCounter" where
  "send_error env t nonces request_nonce code =
     pair_send env t nonces (DaemonFrame.Error request_nonce code)"

text \<open>The state of the command: handshake, keystore contents, world.\<close>

record 'o pair_state =
  handshake :: PairingHandshake
  p_contents :: KeystoreContents
  p_world :: "'o world"

definition add_pairing :: "DaemonPairingRecord \<Rightarrow> KeystoreContents \<Rightarrow> KeystoreContents" where
  "add_pairing p c = c\<lparr>pairings := filter (\<lambda>q. client_spki q \<noteq> client_spki p) (pairings c) @ [p]\<rparr>"

text \<open>The end of an attempt: what is done with the transition of the handshake.\<close>

definition finish_attempt ::
    "daemon_env \<Rightarrow> Config \<Rightarrow> u64 \<Rightarrow> PairingTransition \<Rightarrow> NonceCounter \<Rightarrow> tls_stream \<Rightarrow> 'o pair_state
       \<Rightarrow> (anyhow_error + bool) \<times> tls_stream \<times> 'o pair_state" where
  "finish_attempt env cfg request_nonce transition nonces t ps =
     (case transition of
        Succeeded r \<Rightarrow>
          let new_pairing = from_core r;
              ps1 = ps\<lparr>p_contents := add_pairing new_pairing (p_contents ps)\<rparr>
          in (case on_fs (ks_save (e_ks env) (keystore_path cfg) (p_contents ps1)) (p_world ps1) of
                (Inl e, w) \<Rightarrow> (Inl (FromKeystore e), t, ps1\<lparr>p_world := w\<rparr>)
              | (Inr _, w) \<Rightarrow>
                  let ps2 = ps1\<lparr>p_world := w\<rparr> in
                  (case send_ack env t nonces request_nonce of
                     (Inl e, t', _) \<Rightarrow> (Inl e, t', ps2)
                   | (Inr _, t', _) \<Rightarrow> (Inr True, tls_shutdown t', ps2)))
      | Rejected reason \<Rightarrow>
          (case send_error env t nonces request_nonce NotPaired of
             (Inl e, t', _) \<Rightarrow> (Inl e, t', ps)
           | (Inr _, t', _) \<Rightarrow> (Inr False, tls_shutdown t', ps))
      | _ \<Rightarrow> (Inl (Anyhow ''unexpected pairing transition''), t, ps))"

definition handle_pair_attempt ::
    "daemon_env \<Rightarrow> Config \<Rightarrow> tls_stream \<Rightarrow> 'o pair_state
       \<Rightarrow> (anyhow_error + bool) \<times> tls_stream \<times> 'o pair_state" where
  "handle_pair_attempt env cfg t ps =
     (case pair_peer_spki_from_tls env t of
        Inl e \<Rightarrow> (Inl e, t, ps)
      | Inr peer_spki \<Rightarrow>
          (case read_one_envelope [] t of
             (Inl e, _, t1) \<Rightarrow> (Inl e, t1, ps)
           | (Inr envelope, _, t1) \<Rightarrow>
               let send_nonces = counter_new in
               (case decode_client_frame (e_client_codec env) (payload envelope) of
                  Inl e \<Rightarrow>
                    (case send_error env t1 send_nonces (nonce envelope) (to_wire_code e) of
                       (Inl err, t2, _) \<Rightarrow> (Inl err, t2, ps)
                     | (Inr _, t2, _) \<Rightarrow> (Inr False, t2, ps))
                | Inr (Pair name pairing_code) \<Rightarrow>
                    (case unix_ms_now (p_world ps) of
                       (now, w1) \<Rightarrow>
                         (case accept_pair (handshake ps) now pairing_code name peer_spki of
                            (transition, hs1) \<Rightarrow>
                              finish_attempt env cfg (nonce envelope) transition send_nonces t1
                                (ps\<lparr>handshake := hs1, p_world := w1\<rparr>)))
                | Inr _ \<Rightarrow>
                    (case send_error env t1 send_nonces (nonce envelope) Unsupported of
                       (Inl err, t2, _) \<Rightarrow> (Inl err, t2, ps)
                     | (Inr _, t2, _) \<Rightarrow> (Inr False, t2, ps)))))"

text \<open>The accept loop, over what its select sees.\<close>

fun pair_loop ::
    "daemon_env \<Rightarrow> 'c tls_accept \<Rightarrow> ServerConfig \<Rightarrow> Config \<Rightarrow> 'c pair_event list \<Rightarrow> 'o pair_state
       \<Rightarrow> (anyhow_error + unit) option \<times> 'o pair_state" where
  "pair_loop env tls_accept acceptor cfg evs ps =
     (case unix_ms_now (p_world ps) of (now, w1) \<Rightarrow>
      (case tick (handshake ps) now of (transition, hs1) \<Rightarrow>
       let ps1 = ps\<lparr>handshake := hs1, p_world := w1\<rparr> in
       if transition = PairingTransition.Expired then (Some (Inl (Anyhow ''pairing window expired'')), ps1)
       else
         (case evs of
            [] \<Rightarrow> (None, ps1)
          | DeadlineElapsed # _ \<Rightarrow> (Some (Inl (Anyhow ''pairing window expired'')), ps1)
          | PairAccepted (Inl e) # _ \<Rightarrow> (Some (Inl (Context ''pairing accept'' (FromIo e))), ps1)
          | PairAccepted (Inr (tcp, peer)) # rest \<Rightarrow>
              (case tls_accept acceptor tcp of
                 Inl e \<Rightarrow> pair_loop env tls_accept acceptor cfg rest ps1
               | Inr t \<Rightarrow>
                   (case handle_pair_attempt env cfg t ps1 of
                      (Inr True, _, ps2) \<Rightarrow> (Some (Inr ()), ps2)
                    | (_, _, ps2) \<Rightarrow>
                        if state (handshake ps2) = Idle
                        then (Some (Inl (Anyhow ''pairing window closed (timeout or attempt budget)'')), ps2)
                        else pair_loop env tls_accept acceptor cfg rest ps2)))))"

declare pair_loop.simps [simp del]

text \<open>Existing contents, or those of a fresh identity.\<close>

definition bootstrap ::
    "daemon_env \<Rightarrow> Config \<Rightarrow> 'o world \<Rightarrow> (anyhow_error + KeystoreContents) \<times> 'o world" where
  "bootstrap env cfg w =
     (case on_fs (ks_load (e_ks env) (keystore_path cfg)) w of
        (Inl e, w1) \<Rightarrow> (Inl (FromKeystore e), w1)
      | (Inr (Some c), w1) \<Rightarrow> (Inr c, w1)
      | (Inr None, w1) \<Rightarrow>
          (case map_err (\<lambda>e. Context ''generating device identity'' (FromCrypto e))
                  (device_generate (e_rcgen env) (e_x509 env)) of
             Inl e \<Rightarrow> (Inl e, w1)
           | Inr i \<Rightarrow> (Inr (from_identity (device_to_bytes i)), w1)))"

definition open_window ::
    "daemon_env \<Rightarrow> 'o world \<Rightarrow> ((anyhow_error + u32) \<times> PairingHandshake \<times> 'o world) option" where
  "open_window env w0 =
     (case unix_ms_now w0 of (now, w) \<Rightarrow>
      (case start (e_rng env) (w_rng w) handshake_new now PAIRING_WINDOW_DEFAULT_MS of
         None \<Rightarrow> None
       | Some (Inl e, hs, i) \<Rightarrow> Some (Inl (FromCrypto e), hs, w\<lparr>w_rng := i\<rparr>)
       | Some (Inr (Started code), hs, i) \<Rightarrow> Some (Inr code, hs, w\<lparr>w_rng := i\<rparr>)
       | Some (Inr other, hs, i) \<Rightarrow>
           Some (Inl (Anyhow ''unexpected pairing transition''), hs, w\<lparr>w_rng := i\<rparr>)))"

definition pair_run_command ::
    "daemon_env \<Rightarrow> 'c tls_accept \<Rightarrow> (SocketAddr \<Rightarrow> io_error + 'c pair_listener) \<Rightarrow> Config \<Rightarrow> 'o world
       \<Rightarrow> (anyhow_error + unit) option \<times> u32 option \<times> 'o world" where
  "pair_run_command env tls_accept bind cfg w =
     (case on_fs (ensure_data_dir (data_dir cfg)) w of
        (Inl e, w1) \<Rightarrow> (Some (Inl (FromKeystore e)), None, w1)
      | (Inr _, w1) \<Rightarrow>
          (case bootstrap env cfg w1 of
             (Inl e, w2) \<Rightarrow> (Some (Inl e), None, w2)
           | (Inr c, w2) \<Rightarrow>
               (case map_err (\<lambda>e. Context ''parsing daemon device identity'' (FromCrypto e))
                       (device_from_bytes (e_rcgen env) (e_x509 env) (device_identity_bytes c)) of
                  Inl e \<Rightarrow> (Some (Inl e), None, w2)
                | Inr i \<Rightarrow>
                    (case open_window env w2 of
                       None \<Rightarrow> (None, None, w2)
                     | Some (Inl e, _, w3) \<Rightarrow> (Some (Inl e), None, w3)
                     | Some (Inr code, hs, w3) \<Rightarrow>
                         (case map_err FromCrypto
                                 (server_config_for_pairing (e_rustls env) i (e_provider env)) of
                            Inl e \<Rightarrow> (Some (Inl e), Some code, w3)
                          | Inr acceptor \<Rightarrow>
                              (case bind (bind_addr cfg) of
                                 Inl e \<Rightarrow> (Some (Inl (Context ''binding pairing listener'' (FromIo e))), Some code, w3)
                               | Inr l \<Rightarrow>
                                   (case pl_local_addr l of
                                      Inl e \<Rightarrow> (Some (Inl (FromIo e)), Some code, w3)
                                    | Inr _ \<Rightarrow>
                                        (case pair_loop env tls_accept acceptor cfg (pl_events l)
                                                \<lparr>handshake = hs, p_contents = c, p_world = w3\<rparr> of
                                           (r, ps) \<Rightarrow> (r, Some code, p_world ps)))))))))"

end
