(* ===== verification/Pairing_Properties.thy ===== *)
theory Pairing_Properties
  imports Pairing_Flow
begin

section \<open>Properties of the pairing window\<close>

text \<open>
  What one attempt does to the handshake, the contents and the disk; the invariant of the window's
  loop; and the properties of the \<open>pair\<close> command.
\<close>

text \<open>The frame a stream delivers first, if it delivers one that decodes.\<close>

definition first_frame :: "daemon_env \<Rightarrow> tls_stream \<Rightarrow> ClientFrame option" where
  "first_frame env t =
     (case fst (read_one_envelope [] t) of
        Inl _ \<Rightarrow> None
      | Inr e \<Rightarrow>
          (case decode_client_frame (e_client_codec env) (payload e) of Inl _ \<Rightarrow> None | Inr f \<Rightarrow> Some f))"

definition offers :: "daemon_env \<Rightarrow> tls_stream \<Rightarrow> string \<Rightarrow> u32 \<Rightarrow> SpkiHash \<Rightarrow> bool" where
  "offers env t name code h \<longleftrightarrow>
     pair_peer_spki_from_tls env t = Inr h \<and> first_frame env t = Some (Pair name code)"

text \<open>
  The offers among the events of a listener: a connection that was accepted, whose TLS handshake gave a
  stream, whose certificate has the key and whose first frame has name and code.
\<close>

definition offered_in ::
    "daemon_env \<Rightarrow> 'c tls_accept \<Rightarrow> ServerConfig \<Rightarrow> 'c pair_event list \<Rightarrow> string \<Rightarrow> u32 \<Rightarrow> SpkiHash \<Rightarrow> bool" where
  "offered_in env acc a evs name code h \<longleftrightarrow>
     (\<exists>tcp peer t. PairAccepted (Inr (tcp, peer)) \<in> set evs \<and> acc a tcp = Inr t \<and> offers env t name code h)"

lemma offered_in_Cons:
  "offered_in env acc a rest name code h \<Longrightarrow> offered_in env acc a (ev # rest) name code h"
  "acc a tcp = Inr t \<Longrightarrow> offers env t name code h \<Longrightarrow>
     offered_in env acc a (PairAccepted (Inr (tcp, peer)) # rest) name code h"
  by (auto simp: offered_in_def)

text \<open>An attempt stops before the handshake, or it is one offer to it.\<close>

lemma handle_pair_attempt_cases:
  obtains (no_offer) r t' where "handle_pair_attempt env cfg t ps = (r, t', ps)" "r \<noteq> Inr True"
      "\<And>name code h. \<not> offers env t name code h"
    | (offer) name code h e buf t1 where "offers env t name code h"
        "read_one_envelope [] t = (Inr e, buf, t1)"
        "handle_pair_attempt env cfg t ps =
           finish_attempt env cfg (nonce e)
             (fst (accept_pair (handshake ps) (fst (unix_ms_now (p_world ps))) code name h)) counter_new t1
             (ps\<lparr>handshake := snd (accept_pair (handshake ps) (fst (unix_ms_now (p_world ps))) code name h),
                 p_world := snd (unix_ms_now (p_world ps))\<rparr>)"
proof (cases "pair_peer_spki_from_tls env t")
  case (Inl e)
  then show ?thesis by (intro no_offer [of "Inl e" t]) (simp_all add: handle_pair_attempt_def offers_def)
next
  case h: (Inr h)
  obtain r buf t1 where rd: "read_one_envelope [] t = (r, buf, t1)" by (cases "read_one_envelope [] t")
  show ?thesis
  proof (cases r)
    case (Inl e)
    with h rd show ?thesis
      by (intro no_offer [of "Inl e" t1]) (simp_all add: handle_pair_attempt_def offers_def first_frame_def)
  next
    case e: (Inr e)
    have ff: "first_frame env t = (case decode_client_frame (e_client_codec env) (payload e) of
        Inl _ \<Rightarrow> None | Inr f \<Rightarrow> Some f)"
      by (simp add: first_frame_def rd e)
    show ?thesis
    proof (cases "\<exists>name code. first_frame env t = Some (Pair name code)")
      case True
      then obtain name code where f: "decode_client_frame (e_client_codec env) (payload e) = Inr (Pair name code)"
        by (auto simp: ff split: sum.splits)
      with ff have o: "offers env t name code h" using h by (simp add: offers_def)
      show ?thesis
        by (rule offer [OF o]) (use h rd e f in \<open>simp_all add: handle_pair_attempt_def case_prod_beta\<close>)
    next
      case False
      define code where "code = (case decode_client_frame (e_client_codec env) (payload e) of
        Inl x \<Rightarrow> to_wire_code x | Inr _ \<Rightarrow> Unsupported)"
      obtain s t2 ns where s: "send_error env t1 counter_new (nonce e) code = (s, t2, ns)"
        by (cases "send_error env t1 counter_new (nonce e) code")
      have "handle_pair_attempt env cfg t ps = (map_ok (\<lambda>_. False) s, t2, ps)"
        using h rd e False s
        by (cases s)
          (auto simp: handle_pair_attempt_def ff code_def split: sum.splits ClientFrame.splits)
      then show ?thesis
        by (rule no_offer) (use False in \<open>cases s; simp add: offers_def\<close>)+
    qed
  qed
qed

lemma finish_attempt_other:
  assumes "\<And>rec. transition \<noteq> Succeeded rec" "finish_attempt env cfg n transition ns t ps = (r, t', ps')"
  shows "ps' = ps \<and> r \<noteq> Inr True"
  using assms by (cases transition) (auto simp: finish_attempt_def split: prod.splits sum.splits)

definition disk_of :: "daemon_env \<Rightarrow> Config \<Rightarrow> 'o pair_state \<Rightarrow> KeystoreError + KeystoreContents option" where
  "disk_of env cfg ps = disk env cfg (p_world ps)"

lemma finish_attempt_success:
  assumes "ks_ok (e_ks env)" "wf_contents (add_pairing (from_core rec) (p_contents ps))"
    and "finish_attempt env cfg n (Succeeded rec) ns t ps = (r, t', ps')"
  shows "handshake ps' = handshake ps \<and> p_contents ps' = add_pairing (from_core rec) (p_contents ps)
     \<and> (disk_of env cfg ps' = Inr (Some (p_contents ps')) \<or> disk_of env cfg ps' = disk_of env cfg ps \<and> r \<noteq> Inr True)"
proof -
  let ?c = "add_pairing (from_core rec) (p_contents ps)"
  obtain sv w where sv: "on_fs (ks_save (e_ks env) (keystore_path cfg) ?c) (p_world ps) = (sv, w)" by fastforce
  have "fst (ks_save (e_ks env) (keystore_path cfg) ?c (w_fs (p_world ps))) = sv"
    "w_fs w = snd (ks_save (e_ks env) (keystore_path cfg) ?c (w_fs (p_world ps)))"
    using sv on_fs_fs [of "ks_save (e_ks env) (keystore_path cfg) ?c" "p_world ps"] by simp_all
  then have d: "disk env cfg w = (case sv of Inl _ \<Rightarrow> disk env cfg (p_world ps) | Inr _ \<Rightarrow> Inr (Some ?c))"
    using store.save_all_or_nothing [OF assms(1) keystore_path_place assms(2), of cfg "w_fs (p_world ps)"]
    by (simp add: disk_def cong: sum.case_cong)
  obtain a t2 ns2 where "send_ack env t ns n = (a, t2, ns2)" by (cases "send_ack env t ns n")
  with assms(3) sv d show ?thesis
    by (cases sv; cases a) (auto simp: finish_attempt_def disk_of_def)
qed

subsection \<open>The invariant of the window\<close>

text \<open>What is asked of decoding and hashing: names are text and hashes have 32 bytes.\<close>

definition decodes_wf :: "daemon_env \<Rightarrow> bool" where
  "decodes_wf env \<longleftrightarrow>
     (\<forall>p name code. decode_client_frame (e_client_codec env) p = Inr (Pair name code) \<longrightarrow> wf_string name)
     \<and> (\<forall>b. length (sha256 (e_x509 env) b) = 32)"

lemma wf_add_pairing:
  assumes "wf_contents c" "Suc (length (pairings c)) < 2 ^ 64" "wf_string (pr_phone_name rec)" "wf_spki (pr_client_spki rec)"
  shows "wf_contents (add_pairing (from_core rec) c)"
  using assms
  by (auto simp: wf_contents_def add_pairing_def list_all_iff wf_pairing_def from_core_def
      intro: le_less_trans [OF length_filter_le])

lemma offers_wf:
  assumes "decodes_wf env" "offers env t name code h"
  shows "wf_string name \<and> wf_spki h"
  using assms
  by (auto simp: decodes_wf_def offers_def first_frame_def pair_peer_spki_from_tls_def extract_spki_hash_def
      compute_spki_hash_def wf_spki_def map_err_def split: sum.splits option.splits)

text \<open>
  Between two attempts: the window is open for the announced code or closed, and nothing has
  changed; or the handshake is paired, by an offer of the code that was heard, the contents have that
  one pairing added, and the disk holds either the old value or these contents.
\<close>

definition window_inv ::
    "daemon_env \<Rightarrow> Config \<Rightarrow> KeystoreError + KeystoreContents option \<Rightarrow> KeystoreContents
       \<Rightarrow> (string \<Rightarrow> u32 \<Rightarrow> SpkiHash \<Rightarrow> bool) \<Rightarrow> u32 \<Rightarrow> 'o pair_state \<Rightarrow> bool" where
  "window_inv env cfg d0 c0 heard code ps \<longleftrightarrow>
     (case state (handshake ps) of
        Paired rec \<Rightarrow>
          p_contents ps = add_pairing (from_core rec) c0
          \<and> disk_of env cfg ps \<in> {d0, Inr (Some (p_contents ps))}
          \<and> heard (pr_phone_name rec) code (pr_client_spki rec)
      | st \<Rightarrow> p_contents ps = c0 \<and> disk_of env cfg ps = d0 \<and> (st = Idle \<or> (\<exists>e k. st = Awaiting code e k)))"

lemma disk_now [simp]: "disk env cfg (snd (unix_ms_now w)) = disk env cfg w"
  by (simp add: disk_def)

lemma window_inv_tick:
  "window_inv env cfg d0 c0 heard code ps \<Longrightarrow>
     window_inv env cfg d0 c0 heard code
       (ps\<lparr>handshake := snd (tick (handshake ps) now), p_world := snd (unix_ms_now (p_world ps))\<rparr>)"
  by (auto simp: window_inv_def tick_def disk_of_def split: PairingState.splits if_splits)

lemma window_inv_attempt:
  assumes "ks_ok (e_ks env)" "decodes_wf env" "wf_contents c0" "Suc (length (pairings c0)) < 2 ^ 64"
    and inv: "window_inv env cfg d0 c0 heard code ps"
    and att: "handle_pair_attempt env cfg t ps = (r, t', ps')"
    and heard: "\<And>name cd h. offers env t name cd h \<Longrightarrow> heard name cd h"
  shows "window_inv env cfg d0 c0 heard code ps' \<and> (r = Inr True \<longrightarrow> disk_of env cfg ps' = Inr (Some (p_contents ps'))
           \<and> (\<exists>rec. state (handshake ps') = Paired rec))"
proof (cases rule: handle_pair_attempt_cases [of env cfg t ps])
  case (no_offer r t')
  with inv att show ?thesis by auto
next
  case (offer name cd h e buf t1)
  let ?now = "fst (unix_ms_now (p_world ps))"
  obtain tr hs where ap: "accept_pair (handshake ps) ?now cd name h = (tr, hs)" by fastforce
  let ?ps1 = "ps\<lparr>handshake := hs, p_world := snd (unix_ms_now (p_world ps))\<rparr>"
  have att1: "finish_attempt env cfg (nonce e) tr counter_new t1 ?ps1 = (r, t', ps')"
    using att offer(3) ap by simp
  show ?thesis
  proof (cases "\<exists>rec. tr = Succeeded rec")
    case False
    with finish_attempt_other [OF _ att1] have "ps' = ?ps1" "r \<noteq> Inr True" by auto
    moreover have "window_inv env cfg d0 c0 heard code ?ps1"
      using inv ap False
      by (auto simp: window_inv_def accept_pair_def disk_of_def Let_def split: PairingState.splits if_splits)
    ultimately show ?thesis by simp
  next
    case True
    then obtain rec where rec: "tr = Succeeded rec" by blast
    then have aw: "\<exists>ex k. state (handshake ps) = Awaiting cd ex k" "state hs = Paired rec"
        "rec = \<lparr>pr_phone_name = name, pr_client_spki = h, pr_paired_at_unix_ms = ?now\<rparr>"
      using ap by (auto simp: accept_pair_def Let_def split: PairingState.splits if_splits)
    with inv have c: "cd = code" "p_contents ps = c0" "disk_of env cfg ps = d0"
      by (auto simp: window_inv_def)
    have wf: "wf_contents (add_pairing (from_core rec) (p_contents ?ps1))"
      using wf_add_pairing [OF assms(3,4), of rec] offers_wf [OF assms(2) offer(1)] aw(3) c(2) by simp
    have fa: "finish_attempt env cfg (nonce e) (Succeeded rec) counter_new t1 ?ps1 = (r, t', ps')"
      using att1 rec by simp
    have d: "disk_of env cfg ?ps1 = d0" using c(3) by (simp add: disk_of_def)
    from finish_attempt_success [OF assms(1) wf fa] d aw c(1,2) heard [OF offer(1)]
    show ?thesis by (auto simp: window_inv_def)
  qed
qed

subsection \<open>The window as a whole\<close>

text \<open>Induction over the loop: one iteration, given what the rest does.\<close>

lemma pair_events_cases:
  obtains (none) "evs = []" | (deadline) rest where "evs = DeadlineElapsed # rest"
    | (broken) e rest where "evs = PairAccepted (Inl e) # rest"
    | (connected) tcp peer rest where "evs = PairAccepted (Inr (tcp, peer)) # rest"
  by (metis list.exhaust pair_event.exhaust sum.exhaust surj_pair)

lemma pair_loop_step:
  obtains (now) r where "pair_loop env acc a cfg evs ps = (r, ps\<lparr>handshake := snd (tick (handshake ps) (fst (unix_ms_now (p_world ps)))),
        p_world := snd (unix_ms_now (p_world ps))\<rparr>)" "r \<noteq> Some (Inr ())" "evs \<noteq> [] \<Longrightarrow> r \<noteq> None"
    | (handshake_failed) tcp peer rest where "evs = PairAccepted (Inr (tcp, peer)) # rest" "\<not> is_ok (acc a tcp)"
        "pair_loop env acc a cfg evs ps = pair_loop env acc a cfg rest
          (ps\<lparr>handshake := snd (tick (handshake ps) (fst (unix_ms_now (p_world ps)))),
              p_world := snd (unix_ms_now (p_world ps))\<rparr>)"
        "fst (tick (handshake ps) (fst (unix_ms_now (p_world ps)))) \<noteq> PairingTransition.Expired"
    | (attempt) tcp peer rest t r t' ps2 where "evs = PairAccepted (Inr (tcp, peer)) # rest" "acc a tcp = Inr t"
        "handle_pair_attempt env cfg t
          (ps\<lparr>handshake := snd (tick (handshake ps) (fst (unix_ms_now (p_world ps)))),
              p_world := snd (unix_ms_now (p_world ps))\<rparr>) = (r, t', ps2)"
        "pair_loop env acc a cfg evs ps =
           (if r = Inr True then (Some (Inr ()), ps2)
            else if state (handshake ps2) = Idle
            then (Some (Inl (Anyhow ''pairing window closed (timeout or attempt budget)'')), ps2)
            else pair_loop env acc a cfg rest ps2)"
        "fst (tick (handshake ps) (fst (unix_ms_now (p_world ps)))) \<noteq> PairingTransition.Expired"
proof -
  obtain nw w1 where n: "unix_ms_now (p_world ps) = (nw, w1)" by fastforce
  obtain tr hs1 where tk: "tick (handshake ps) nw = (tr, hs1)" by fastforce
  let ?ps1 = "ps\<lparr>handshake := hs1, p_world := w1\<rparr>"
  note step = pair_loop.simps [of env acc a cfg evs ps, unfolded n prod.case tk Let_def]
  show ?thesis
  proof (cases "tr = PairingTransition.Expired")
    case True
    with step have "pair_loop env acc a cfg evs ps = (Some (Inl (Anyhow ''pairing window expired'')), ?ps1)" by simp
    then show ?thesis using n tk by (intro now) auto
  next
    case live: False
    have end_now: thesis
      if "pair_loop env acc a cfg evs ps = (r, ?ps1)" "r \<noteq> Some (Inr ())" "evs \<noteq> [] \<Longrightarrow> r \<noteq> None" for r
      using that n tk by (intro now) auto
    show ?thesis
    proof (cases evs rule: pair_events_cases)
      case (connected tcp peer rest)
      show ?thesis
      proof (cases "acc a tcp")
        case (Inl e)
        with step live connected have "pair_loop env acc a cfg evs ps = pair_loop env acc a cfg rest ?ps1" by simp
        with live connected Inl show ?thesis by (intro handshake_failed [of tcp peer rest]) (simp_all add: n tk)
      next
        case (Inr t)
        obtain r t' ps2 where h: "handle_pair_attempt env cfg t ?ps1 = (r, t', ps2)"
          by (cases "handle_pair_attempt env cfg t ?ps1")
        have "pair_loop env acc a cfg evs ps =
           (if r = Inr True then (Some (Inr ()), ps2)
            else if state (handshake ps2) = Idle
            then (Some (Inl (Anyhow ''pairing window closed (timeout or attempt budget)'')), ps2)
            else pair_loop env acc a cfg rest ps2)"
          using step live connected Inr h by (auto split: sum.split bool.split)
        with live connected Inr h show ?thesis by (intro attempt [of tcp peer rest t r t' ps2]) (simp_all add: n tk)
      qed
    qed (use end_now step live in auto)
  qed
qed

lemma pair_loop_inv:
  assumes "ks_ok (e_ks env)" "decodes_wf env" "wf_contents c0" "Suc (length (pairings c0)) < 2 ^ 64"
  shows "window_inv env cfg d0 c0 heard code ps \<Longrightarrow> pair_loop env acc a cfg evs ps = (r, ps') \<Longrightarrow>
     (\<And>name cd h. offered_in env acc a evs name cd h \<Longrightarrow> heard name cd h) \<Longrightarrow>
     window_inv env cfg d0 c0 heard code ps'
     \<and> (r = Some (Inr ()) \<longrightarrow> disk_of env cfg ps' = Inr (Some (p_contents ps'))
          \<and> (\<exists>rec. state (handshake ps') = Paired rec))"
proof (induction "length evs" arbitrary: evs ps rule: less_induct)
  case less
  note tick = window_inv_tick [OF less.prems(1), of "fst (unix_ms_now (p_world ps))"]
  show ?case
  proof (cases rule: pair_loop_step [of env acc a cfg evs ps])
    case (now r)
    with less.prems tick show ?thesis by auto
  next
    case (handshake_failed tcp peer rest)
    then have "heard name cd h" if "offered_in env acc a rest name cd h" for name cd h
      using less.prems(3) offered_in_Cons(1) [OF that] by simp
    with less.hyps [of rest, OF _ tick] handshake_failed less.prems(2) show ?thesis by simp
  next
    case (attempt tcp peer rest t r1 t' ps2)
    have "heard name cd h" if "offers env t name cd h" for name cd h
      using less.prems(3) offered_in_Cons(2) [of acc a tcp t, OF attempt(2) that] attempt(1) by simp
    note att = window_inv_attempt [where heard = heard, OF assms tick attempt(3) this]
    have "heard name cd h" if "offered_in env acc a rest name cd h" for name cd h
      using less.prems(3) offered_in_Cons(1) [OF that] attempt(1) by simp
    with attempt att less.hyps [of rest ps2] less.prems show ?thesis
      by (auto split: if_splits)
  qed
qed

lemma open_window_cases:
  assumes "open_window env w = Some (res, hs, w')"
  shows "w_fs w' = w_fs w \<and> (\<forall>code. res = Inr code \<longrightarrow>
     state hs = Awaiting code (saturating_add (fst (unix_ms_now w)) PAIRING_WINDOW_DEFAULT_MS) 0)"
proof -
  obtain n w1 where "unix_ms_now w = (n, w1)" by fastforce
  moreover from this have "w_fs w1 = w_fs w" using unix_ms_now_kept(2) [of w] by simp
  ultimately show ?thesis
    using assms
    by (auto simp: open_window_def start_def handshake_new_def Let_def
        split: option.splits sum.splits PairingTransition.splits if_splits)
qed

lemma on_fs_disk_kept:
  assumes "on_fs f w = (r, w')" "files (snd (f (w_fs w))) = files (w_fs w)"
  shows "disk env cfg w' = disk env cfg w"
proof -
  have "w_fs w' = snd (f (w_fs w))" using assms(1) on_fs_fs(1) [of f w] by simp
  with assms(2) ks_stored_files show ?thesis by (simp add: disk_def ks_stored_def)
qed

lemma bootstrap_disk:
  assumes "bootstrap env cfg w = (r, w')"
  shows "disk env cfg w' = disk env cfg w"
proof -
  obtain x w1 where l: "on_fs (ks_load (e_ks env) (keystore_path cfg)) w = (x, w1)" by fastforce
  have "disk env cfg w1 = disk env cfg w" by (rule on_fs_disk_kept [OF l]) simp
  with assms l show ?thesis
    by (auto simp: bootstrap_def split: sum.splits option.splits)
qed

subsection \<open>Properties\<close>

text \<open>What the command leaves, once it has something to pair with.\<close>

lemma pair_run_adds:
  assumes "ks_ok (e_ks env)" "decodes_wf env"
    and "on_fs (ensure_data_dir (data_dir cfg)) w = (Inr (), w1)"
    and "bootstrap env cfg w1 = (Inr c0, w2)"
    and "wf_contents c0" "Suc (length (pairings c0)) < 2 ^ 64"
    and "pair_run_command env tls_accept bind cfg w = (r, shown, w')"
  shows "disk env cfg w' = disk env cfg w \<and> r \<noteq> Some (Inr ())
     \<or> (\<exists>code rec i a l. shown = Some code
          \<and> disk env cfg w' = Inr (Some (add_pairing (from_core rec) c0))
          \<and> device_from_bytes (e_rcgen env) (e_x509 env) (device_identity_bytes c0) = Inr i
          \<and> server_config_for_pairing (e_rustls env) i (e_provider env) = Inr a
          \<and> bind (bind_addr cfg) = Inr l
          \<and> offered_in env tls_accept a (pl_events l) (pr_phone_name rec) code (pr_client_spki rec))"
proof -
  have d1: "disk env cfg w1 = disk env cfg w" by (rule on_fs_disk_kept [OF assms(3)]) simp
  have d2: "disk env cfg w2 = disk env cfg w" using bootstrap_disk [OF assms(4)] d1 by simp
  note run = assms(7) [unfolded pair_run_command_def assms(3,4) prod.case sum.case]
  show ?thesis
  proof (cases "disk env cfg w' = disk env cfg w \<and> r \<noteq> Some (Inr ())")
    case False
    obtain i where i: "device_from_bytes (e_rcgen env) (e_x509 env) (device_identity_bytes c0) = Inr i"
      using run False d2 by (cases "device_from_bytes (e_rcgen env) (e_x509 env) (device_identity_bytes c0)") auto
    obtain res hs w3 where ow: "open_window env w2 = Some (res, hs, w3)"
      using run False d2 i by (cases "open_window env w2") auto
    note win = open_window_cases [OF ow]
    then have d3: "disk env cfg w3 = disk env cfg w" using d2 by (simp add: disk_def)
    obtain code where code: "res = Inr code"
      using run False i ow d3 by (cases res) auto
    obtain a l ad where l: "server_config_for_pairing (e_rustls env) i (e_provider env) = Inr a"
        "bind (bind_addr cfg) = Inr l" "pl_local_addr l = Inr ad"
      using run False i ow d3 code by (auto split: sum.splits)
    let ?ps = "\<lparr>handshake = hs, p_contents = c0, p_world = w3\<rparr>"
    obtain ps' where lp: "pair_loop env tls_accept a cfg (pl_events l) ?ps = (r, ps')"
        "shown = Some code" "w' = p_world ps'"
      using run i ow code l by (auto split: prod.splits)
    let ?heard = "offered_in env tls_accept a (pl_events l)"
    have "window_inv env cfg (disk env cfg w) c0 ?heard code ?ps"
      using win code d3 by (simp add: window_inv_def disk_of_def)
    note inv = pair_loop_inv [OF assms(1,2,5,6) this lp(1)]
    from inv False lp(3) obtain rec where rec: "state (handshake ps') = Paired rec"
      by (cases "state (handshake ps')") (auto simp: window_inv_def disk_of_def)
    with inv False lp(3) have "p_contents ps' = add_pairing (from_core rec) c0"
      "disk env cfg w' = Inr (Some (p_contents ps'))"
      "?heard (pr_phone_name rec) code (pr_client_spki rec)"
      by (auto simp: window_inv_def disk_of_def)
    then have "disk env cfg w' = Inr (Some (add_pairing (from_core rec) c0))"
      "?heard (pr_phone_name rec) code (pr_client_spki rec)" by simp_all
    with lp(2) i l show ?thesis by blast
  qed simp
qed

text \<open>Before that it leaves the disk alone.\<close>

lemma pair_run_early:
  assumes "pair_run_command env tls_accept bind cfg w = (r, shown, w')"
    and "on_fs (ensure_data_dir (data_dir cfg)) w = (d, w1)"
    and "\<And>c w2. d = Inr () \<Longrightarrow> bootstrap env cfg w1 \<noteq> (Inr c, w2)"
  shows "disk env cfg w' = disk env cfg w \<and> r \<noteq> Some (Inr ())"
proof -
  have d1: "disk env cfg w1 = disk env cfg w" by (rule on_fs_disk_kept [OF assms(2)]) simp
  obtain b w2 where b: "bootstrap env cfg w1 = (b, w2)" by fastforce
  show ?thesis
    using assms(1,2,3) b d1 bootstrap_disk [OF b] by (cases d; cases b) (auto simp: pair_run_command_def)
qed

text \<open>
  C17: A pairing window adds at most one phone, and only one that presented the printed code: when the
  command ends, for whatever reason and whatever connected, either the disk is as it was and the
  command has not reported success, or the disk holds the contents it started from with exactly one
  pairing added (an older one of the same phone replaced). That pairing has the key and the name of a
  connection of this command: one that its listener accepted, whose TLS handshake under the pairing
  configuration of this identity gave a stream with a certificate of that key, and whose first frame on
  that stream is the pairing frame with that name and the printed code. In particular success is
  reported only when the pairing is on disk.
\<close>
theorem pairing_window_adds_at_most_one:
  assumes "ks_ok (e_ks env)" "decodes_wf env"
    and "on_fs (ensure_data_dir (data_dir cfg)) w = (Inr (), w1)"
    and "bootstrap env cfg w1 = (Inr c0, w2)"
    and "wf_contents c0" "Suc (length (pairings c0)) < 2 ^ 64"
    and "pair_run_command env tls_accept bind cfg w = (r, shown, w')"
  shows "disk env cfg w' = disk env cfg w \<and> r \<noteq> Some (Inr ())
     \<or> (\<exists>code rec i a l. shown = Some code
          \<and> disk env cfg w' = Inr (Some (add_pairing (from_core rec) c0))
          \<and> device_from_bytes (e_rcgen env) (e_x509 env) (device_identity_bytes c0) = Inr i
          \<and> server_config_for_pairing (e_rustls env) i (e_provider env) = Inr a
          \<and> bind (bind_addr cfg) = Inr l
          \<and> offered_in env tls_accept a (pl_events l) (pr_phone_name rec) code (pr_client_spki rec))"
  using assms by (rule pair_run_adds)

text \<open>The codes the accepted streams offer, in order.\<close>

definition event_codes :: "daemon_env \<Rightarrow> 'c tls_accept \<Rightarrow> ServerConfig \<Rightarrow> 'c pair_event \<Rightarrow> u32 list" where
  "event_codes env acc a ev =
     (case ev of
        PairAccepted (Inr (tcp, peer)) \<Rightarrow>
          (case acc a tcp of
             Inr t \<Rightarrow> (case first_frame env t of
                        Some (Pair name code) \<Rightarrow> if is_ok (pair_peer_spki_from_tls env t) then [code] else []
                      | _ \<Rightarrow> [])
           | Inl _ \<Rightarrow> [])
      | _ \<Rightarrow> [])"

definition offered_codes :: "daemon_env \<Rightarrow> 'c tls_accept \<Rightarrow> ServerConfig \<Rightarrow> 'c pair_event list \<Rightarrow> u32 list" where
  "offered_codes env acc a evs = concat (map (event_codes env acc a) evs)"

lemma event_codes_offer:
  "acc a tcp = Inr t \<Longrightarrow> offers env t name code h \<Longrightarrow> event_codes env acc a (PairAccepted (Inr (tcp, peer))) = [code]"
  by (simp add: event_codes_def offers_def)

lemma event_codes_none:
  "acc a tcp = Inr t \<Longrightarrow> (\<And>name code h. \<not> offers env t name code h) \<Longrightarrow>
     event_codes env acc a (PairAccepted (Inr (tcp, peer))) = []"
  by (auto simp: event_codes_def offers_def is_ok_def split: option.splits ClientFrame.splits sum.splits)

lemma tick_closed: "\<not> is_awaiting h \<Longrightarrow> tick h now = (NoOp, h)"
  using closed_step [of h "Tick now"] by simp

lemma tick_live:
  "fst (tick h now) \<noteq> PairingTransition.Expired \<Longrightarrow> snd (tick h now) = h"
  by (auto simp: tick_def split: PairingState.splits if_splits)

lemma pair_loop_spent:
  "\<not> is_awaiting (handshake ps) \<Longrightarrow> fst (pair_loop env acc a cfg evs ps) \<noteq> Some (Inr ())
     \<and> handshake (snd (pair_loop env acc a cfg evs ps)) = handshake ps"
proof (induction "length evs" arbitrary: evs ps rule: less_induct)
  case less
  note tk = tick_closed [OF less.prems]
  show ?case
  proof (cases rule: pair_loop_step [of env acc a cfg evs ps])
    case (now r)
    then show ?thesis by (simp add: tk)
  next
    case (handshake_failed tcp peer rest)
    with less show ?thesis by (simp add: tk)
  next
    case (attempt tcp peer rest t r t' ps2)
    let ?ps1 = "ps\<lparr>handshake := handshake ps, p_world := snd (unix_ms_now (p_world ps))\<rparr>"
    have h: "handle_pair_attempt env cfg t ?ps1 = (r, t', ps2)" using attempt(3) by (simp add: tk)
    have "r \<noteq> Inr True \<and> handshake ps2 = handshake ps"
    proof (cases rule: handle_pair_attempt_cases [of env cfg t ?ps1])
      case (no_offer r t')
      with h show ?thesis by auto
    next
      case (offer name code hh e buf t1)
      with h have "finish_attempt env cfg (nonce e) (Rejected NotInWindow) counter_new t1
          (?ps1\<lparr>handshake := handshake ps, p_world := snd (unix_ms_now (p_world ?ps1))\<rparr>) = (r, t', ps2)"
        by (simp add: accept_closed [OF less.prems])
      from finish_attempt_other [OF _ this] show ?thesis by simp
    qed
    with attempt less.hyps [of rest ps2] less.prems show ?thesis by simp
  qed
qed

lemmas pair_loop_closed = pair_loop_spent [THEN conjunct1]

text \<open>A wrong code in an open window: the attempt fails and takes one of the five, or closes the window.\<close>

lemma wrong_offer:
  assumes "state (handshake ps) = Awaiting c ex k" "k < MAX_PAIRING_ATTEMPTS" "code \<noteq> c"
    and "finish_attempt env cfg n (fst (pair_step (handshake ps) (Offer now code name hh))) counter_new t
      (ps\<lparr>handshake := snd (pair_step (handshake ps) (Offer now code name hh)), p_world := w'\<rparr>) = (r, t', ps2)"
  shows "r \<noteq> Inr True"
    and "state (handshake ps2) \<noteq> Idle \<Longrightarrow> state (handshake ps2) = Awaiting c ex (k + 1)
      \<and> k + 1 < MAX_PAIRING_ATTEMPTS \<and> unat (k + 1) = unat k + 1"
proof -
  let ?st = "pair_step (handshake ps) (Offer now code name hh)"
  have no: "fst ?st \<noteq> Succeeded rec" for rec
    using assms(1,3) by (auto simp: accept_pair_def Let_def split: if_splits)
  from finish_attempt_other [OF this assms(4)] have r: "r \<noteq> Inr True" "handshake ps2 = snd ?st" by simp_all
  from r(1) show "r \<noteq> Inr True" .
  assume open_still: "state (handshake ps2) \<noteq> Idle"
  then have "now < ex"
    using open_step_late [OF assms(1), of "Offer now code name hh"] r(2) by (cases "now < ex") auto
  from open_step_wrong [OF assms(1,2) this assms(3), of name hh] open_still r(2)
  have "unat k + 1 < unat MAX_PAIRING_ATTEMPTS" "state (handshake ps2) = Awaiting c ex (k + 1)"
    by (auto split: if_splits)
  with next_failure [OF assms(2)] show "state (handshake ps2) = Awaiting c ex (k + 1)
      \<and> k + 1 < MAX_PAIRING_ATTEMPTS \<and> unat (k + 1) = unat k + 1"
    by (simp add: word_less_nat_alt)
qed

lemma pair_loop_early_code:
  assumes "c < PAIRING_CODE_MODULUS"
  shows "state (handshake ps) = Awaiting c ex k \<Longrightarrow> k < MAX_PAIRING_ATTEMPTS \<Longrightarrow>
     fst (pair_loop env acc a cfg evs ps) = Some (Inr ()) \<Longrightarrow>
     c \<in> set (take (unat MAX_PAIRING_ATTEMPTS - unat k) (offered_codes env acc a evs))"
proof (induction "length evs" arbitrary: evs ps k rule: less_induct)
  case less
  show ?case
  proof (cases rule: pair_loop_step [of env acc a cfg evs ps])
    case (now r)
    with less.prems show ?thesis by simp
  next
    case (handshake_failed tcp peer rest)
    note tk = tick_live [OF handshake_failed(4)]
    have "c \<in> set (take (unat MAX_PAIRING_ATTEMPTS - unat k) (offered_codes env acc a rest))"
      by (rule less.hyps) (use handshake_failed less.prems in \<open>simp_all add: tk\<close>)
    moreover have "event_codes env acc a (PairAccepted (Inr (tcp, peer))) = []"
      using handshake_failed(2) by (cases "acc a tcp") (simp_all add: event_codes_def)
    ultimately show ?thesis by (simp add: handshake_failed(1) offered_codes_def)
  next
    case (attempt tcp peer rest t r t' ps2)
    note tk = tick_live [OF attempt(5)]
    let ?ps1 = "ps\<lparr>handshake := handshake ps, p_world := snd (unix_ms_now (p_world ps))\<rparr>"
    let ?now = "fst (unix_ms_now (p_world ?ps1))"
    have h: "handle_pair_attempt env cfg t ?ps1 = (r, t', ps2)" using attempt(3) by (simp add: tk)
    show ?thesis
    proof (cases rule: handle_pair_attempt_cases [of env cfg t ?ps1])
      case (no_offer r' u')
      then have "r \<noteq> Inr True" "ps2 = ?ps1" using h by auto
      with attempt(4) less.prems(1,3) have "fst (pair_loop env acc a cfg rest ?ps1) = Some (Inr ())" by simp
      moreover have "event_codes env acc a (PairAccepted (Inr (tcp, peer))) = []"
        by (rule event_codes_none [of acc a tcp t, OF attempt(2)]) (rule no_offer(3))
      ultimately show ?thesis
        using less.hyps [of rest ?ps1 k] less.prems(1,2) attempt(1) by (simp add: offered_codes_def)
    next
      case (offer name code hh e buf t1)
      let ?st = "pair_step (handshake ?ps1) (Offer ?now code name hh)"
      have codes: "offered_codes env acc a evs = code # offered_codes env acc a rest"
        by (simp add: attempt(1) offered_codes_def event_codes_offer [of acc a tcp t, OF attempt(2) offer(1)])
      have fin: "finish_attempt env cfg (nonce e) (fst ?st) counter_new t1
          (?ps1\<lparr>handshake := snd ?st, p_world := snd (unix_ms_now (p_world ?ps1))\<rparr>) = (r, t', ps2)"
        using h offer(3) by simp
      show ?thesis
      proof (cases "code = c")
        case True
        then show ?thesis
          using less.prems(2) by (simp add: codes take_Cons' word_less_nat_alt)
      next
        case False
        have "state (handshake ?ps1) = Awaiting c ex k" using less.prems(1) by simp
        note wrong = wrong_offer [OF this less.prems(2) False fin]
        with attempt(4) less.prems(3) have go: "state (handshake ps2) \<noteq> Idle"
            "fst (pair_loop env acc a cfg rest ps2) = Some (Inr ())"
          by (auto split: if_splits)
        note k = wrong(2) [OF go(1)]
        then have "c \<in> set (take (unat MAX_PAIRING_ATTEMPTS - unat (k + 1)) (offered_codes env acc a rest))"
          by (intro less.hyps [OF _ _ _ go(2)]) (simp_all add: attempt(1))
        with k show ?thesis by (auto simp: codes take_Cons' word_less_nat_alt)
      qed
    qed
  qed
qed

text \<open>
  C18: Brute force over the network: if the command reports success, the announced code was among the
  codes of the first five pairing frames that reached it, however many connections were made, in
  whatever order handshakes failed, frames were damaged or attempts erred. A client that does not
  know the code has five guesses in a million per window.
\<close>
theorem pairing_success_needs_early_code:
  assumes "c < PAIRING_CODE_MODULUS"
    and "state (handshake ps) = Awaiting c ex 0"
    and "fst (pair_loop env tls_accept a cfg evs ps) = Some (Inr ())"
  shows "c \<in> set (take 5 (offered_codes env tls_accept a evs))"
  using pair_loop_early_code [OF assms(1,2) _ assms(3)] by (simp add: MAX_PAIRING_ATTEMPTS_def)

lemma read_one_write_side:
  "read_one_envelope buf t = (r, buf', t') \<Longrightarrow> write_side t' = write_side t"
  using read_envelope_write_side [of buf t]
  by (cases "read_envelope buf t") (auto simp: read_one_envelope_eq)

lemma pair_send_calm:
  assumes "encodes_responses env" "wf_daemon f" "write_script t = []"
  shows "pair_send env t counter_new f =
     (Inr (), t\<lparr>outbound := outbound t @ frame_bytes (response_frame env 1 f)\<rparr>,
      counter_new\<lparr>send := \<lparr>send_next = 1\<rparr>\<rparr>)"
proof -
  note e = encodes_response [OF assms(1,2)]
  have i: "issue (send counter_new) = (Some 1, \<lparr>send_next = 1\<rparr>)"
    using issue_succ [of sender_new] by (simp add: counter_new_def sender_new_def)
  from e(3) [of 1, unfolded response_frame_def] show ?thesis
    by (simp add: pair_send_def i encode_daemon_frame_def e(1) tls_write_all_def assms(3)
        response_frame_def Let_def)
qed

lemma active_add_pairing:
  "active_pairing (add_pairing (from_core rec) c) (pr_client_spki rec) = Some (from_core rec)
   \<and> filter (\<lambda>q. client_spki q = pr_client_spki rec) (pairings (add_pairing (from_core rec) c)) = [from_core rec]"
proof -
  have "find (\<lambda>p. is_active p \<and> client_spki p = h) (filter (\<lambda>q. client_spki q \<noteq> h) ps @ [from_core rec])
      = (if pr_client_spki rec = h then Some (from_core rec) else None)" for h ps
    by (induction ps) auto
  then show ?thesis by (simp add: active_pairing_def add_pairing_def)
qed

lemma right_code_attempt:
  assumes "encodes_responses env" "write_script t = []"
    and "offers env t name c h" "state (handshake ps) = Awaiting c ex k"
    and "c < PAIRING_CODE_MODULUS" "fst (unix_ms_now (p_world ps)) < ex"
    and "rec = \<lparr>pr_phone_name = name, pr_client_spki = h, pr_paired_at_unix_ms = fst (unix_ms_now (p_world ps))\<rparr>"
    and "handle_pair_attempt env cfg t ps = (r, t', ps')"
  shows "handshake ps' = (handshake ps)\<lparr>state := Paired rec\<rparr> \<and> p_contents ps' = add_pairing (from_core rec) (p_contents ps)
     \<and> (case fst (ks_save (e_ks env) (keystore_path cfg) (p_contents ps') (w_fs (p_world ps))) of
          Inr _ \<Rightarrow> r = Inr True \<and> closed t'
            \<and> (\<exists>n. outbound t' = outbound t @ frame_bytes (response_frame env 1 (Ack n)))
        | Inl x \<Rightarrow> r = Inl (FromKeystore x) \<and> outbound t' = outbound t)"
proof (cases rule: handle_pair_attempt_cases [of env cfg t ps])
  case (no_offer r t')
  with assms(3) show ?thesis by blast
next
  case (offer name' c' h' e buf t1)
  then have "name' = name" "c' = c" "h' = h" using assms(3) by (simp_all add: offers_def)
  moreover have "accept_pair (handshake ps) (fst (unix_ms_now (p_world ps))) c name h
      = (Succeeded rec, (handshake ps)\<lparr>state := Paired rec\<rparr>)"
    using open_step_match [OF assms(4-6), of name h] assms(7) by (simp add: Let_def)
  ultimately have fin: "finish_attempt env cfg (nonce e) (Succeeded rec) counter_new t1
      (ps\<lparr>handshake := (handshake ps)\<lparr>state := Paired rec\<rparr>, p_world := snd (unix_ms_now (p_world ps))\<rparr>)
      = (r, t', ps')"
    using offer(3) assms(8) by simp
  note ws = write_side_fields [OF read_one_write_side [OF offer(2)]]
  have ack: "send_ack env t1 counter_new (nonce e) =
      (Inr (), t1\<lparr>outbound := outbound t1 @ frame_bytes (response_frame env 1 (Ack (nonce e)))\<rparr>,
       counter_new\<lparr>send := \<lparr>send_next = 1\<rparr>\<rparr>)"
    unfolding send_ack_def by (rule pair_send_calm) (use assms(1,2) ws in \<open>simp_all add: wf_daemon_def\<close>)
  let ?c = "add_pairing (from_core rec) (p_contents ps)"
  obtain sv w where sv: "on_fs (ks_save (e_ks env) (keystore_path cfg) ?c) (snd (unix_ms_now (p_world ps))) = (sv, w)"
    by fastforce
  then have s: "fst (ks_save (e_ks env) (keystore_path cfg) ?c (w_fs (p_world ps))) = sv"
    using on_fs_fs(2) [of "ks_save (e_ks env) (keystore_path cfg) ?c" "snd (unix_ms_now (p_world ps))"] by simp
  have c: "p_contents ps' = ?c" and hs: "handshake ps' = (handshake ps)\<lparr>state := Paired rec\<rparr>"
    using fin sv ack by (cases sv; auto simp: finish_attempt_def)+
  have out: "case sv of
      Inr _ \<Rightarrow> r = Inr True \<and> closed t' \<and> (\<exists>n. outbound t' = outbound t @ frame_bytes (response_frame env 1 (Ack n)))
    | Inl x \<Rightarrow> r = Inl (FromKeystore x) \<and> outbound t' = outbound t"
    using fin sv ack ws by (cases sv) (auto simp: finish_attempt_def tls_shutdown_def)
  show ?thesis using c s out hs by (cases sv) simp_all
qed

subsection \<open>The end of the window\<close>

text \<open>An attempt reads the clock and does not set it.\<close>

definition clock_on :: "'o world \<Rightarrow> 'o world \<Rightarrow> bool" where
  "clock_on w w' \<longleftrightarrow> w_clock w' = w_clock w \<and> w_ticks w \<le> w_ticks w'"

lemma finish_attempt_clock:
  "finish_attempt env cfg n tr ns t ps = (r, t', ps') \<Longrightarrow> clock_on (p_world ps) (p_world ps')"
  by (cases tr) (auto simp: finish_attempt_def clock_on_def on_fs_def Let_def split: prod.splits sum.splits)

lemma handle_pair_attempt_clock:
  assumes "handle_pair_attempt env cfg t ps = (r, t', ps')"
  shows "clock_on (p_world ps) (p_world ps')"
proof (cases rule: handle_pair_attempt_cases [of env cfg t ps])
  case (no_offer r t')
  with assms show ?thesis by (simp add: clock_on_def)
next
  case (offer name code h e buf t1)
  with assms finish_attempt_clock [of env cfg "nonce e"] show ?thesis
    by (fastforce simp: clock_on_def unix_ms_now_def)
qed

text \<open>An attempt leaves the deadline of an open window, closes the window, or pairs.\<close>

lemma handle_pair_attempt_window:
  assumes "handle_pair_attempt env cfg t ps = (r, t', ps')" "state (handshake ps) = Awaiting c ex k"
  shows "state (handshake ps') = Idle \<or> (\<exists>rec. state (handshake ps') = Paired rec)
     \<or> (\<exists>k'. state (handshake ps') = Awaiting c ex k')"
proof (cases rule: handle_pair_attempt_cases [of env cfg t ps])
  case (no_offer r t')
  with assms show ?thesis by simp
next
  case (offer name code h e buf t1)
  then have "handshake ps' = snd (accept_pair (handshake ps) (fst (unix_ms_now (p_world ps))) code name h)"
    using assms(1)
    by (cases "fst (accept_pair (handshake ps) (fst (unix_ms_now (p_world ps))) code name h)")
      (auto simp: finish_attempt_def Let_def split: prod.splits sum.splits)
  with assms(2) show ?thesis by (auto simp: accept_pair_def Let_def split: if_splits)
qed

text \<open>What the loop has not asked for does not matter.\<close>

lemma pair_loop_append:
  "fst (pair_loop env acc a cfg evs ps) \<noteq> None \<Longrightarrow>
     pair_loop env acc a cfg (evs @ ahead) ps = pair_loop env acc a cfg evs ps"
proof (induction evs arbitrary: ps)
  case Nil
  then show ?case
    by (auto simp: pair_loop.simps [of env acc a cfg "[]"] pair_loop.simps [of env acc a cfg ahead] Let_def
        split: prod.splits if_splits)
next
  case (Cons ev evs)
  then show ?case
    by (auto simp: pair_loop.simps [of env acc a cfg "ev # evs"] pair_loop.simps [of env acc a cfg "ev # evs @ ahead"] Let_def
        split: prod.splits if_splits pair_event.splits sum.splits bool.splits)
qed

lemma pair_loop_ends:
  "state (handshake ps) = Awaiting c ex k \<Longrightarrow> (\<And>i. T \<le> i \<Longrightarrow> ex \<le> unix_ms (w_clock (p_world ps) i)) \<Longrightarrow>
     T \<le> w_ticks (p_world ps) + length evs \<Longrightarrow>
     fst (pair_loop env acc a cfg evs ps) \<noteq> None
     \<or> (\<exists>rec. state (handshake (snd (pair_loop env acc a cfg evs ps))) = Paired rec)"
proof (induction evs arbitrary: ps k)
  case Nil
  then have "ex \<le> fst (unix_ms_now (p_world ps))" by (simp add: unix_ms_now_def)
  with Nil(1) show ?case
    by (cases "unix_ms_now (p_world ps)") (simp add: pair_loop.simps [of env acc a cfg "[]"] tick_def)
next
  case (Cons ev evs)
  note clock = Cons.prems(2) and late = Cons.prems(3)
  show ?case
  proof (cases rule: pair_loop_step [of env acc a cfg "ev # evs" ps])
    case (now r)
    then show ?thesis by simp
  next
    case (handshake_failed tcp peer rest)
    note tk = tick_live [OF handshake_failed(4)]
    have "fst (pair_loop env acc a cfg evs (ps\<lparr>p_world := snd (unix_ms_now (p_world ps))\<rparr>)) \<noteq> None
      \<or> (\<exists>rec. state (handshake (snd (pair_loop env acc a cfg evs (ps\<lparr>p_world := snd (unix_ms_now (p_world ps))\<rparr>)))) = Paired rec)"
      by (rule Cons.IH) (use Cons.prems clock late in \<open>auto simp: unix_ms_now_def\<close>)
    with handshake_failed(1,3) show ?thesis by (simp add: tk)
  next
    case (attempt tcp peer rest t r t' ps2)
    note tk = tick_live [OF attempt(5)]
    let ?ps1 = "ps\<lparr>handshake := handshake ps, p_world := snd (unix_ms_now (p_world ps))\<rparr>"
    have h: "handle_pair_attempt env cfg t ?ps1 = (r, t', ps2)" using attempt(3) by (simp add: tk)
    have w: "w_clock (p_world ps2) = w_clock (p_world ps)" "Suc (w_ticks (p_world ps)) \<le> w_ticks (p_world ps2)"
      using handle_pair_attempt_clock [OF h] by (simp_all add: clock_on_def unix_ms_now_def)
    have "state (handshake ?ps1) = Awaiting c ex k" using Cons.prems(1) by simp
    from handle_pair_attempt_window [OF h this]
    consider "state (handshake ps2) = Idle" | rec where "state (handshake ps2) = Paired rec"
      | k' where "state (handshake ps2) = Awaiting c ex k'" by blast
    then show ?thesis
    proof cases
      case 1
      with attempt(4) show ?thesis by simp
    next
      case (2 rec)
      then have "\<not> is_awaiting (handshake ps2)" by (simp add: is_awaiting_def)
      from pair_loop_spent [OF this, of env acc a cfg evs] 2
      have "\<exists>rec. state (handshake (snd (pair_loop env acc a cfg evs ps2))) = Paired rec" by simp
      with attempt(1,4) 2 show ?thesis by simp
    next
      case (3 k')
      have "fst (pair_loop env acc a cfg evs ps2) \<noteq> None
        \<or> (\<exists>rec. state (handshake (snd (pair_loop env acc a cfg evs ps2))) = Paired rec)"
        by (rule Cons.IH [OF 3]) (use clock late w in auto)
      with attempt(1,4) 3 show ?thesis by simp
    qed
  qed
qed


text \<open>
  C19: The right code in time pairs the phone: the keystore gets exactly one record of its key, active,
  with the time of the pairing, replacing an older or revoked one; it is saved first, and only then
  does the phone get the \<open>Ack\<close> of its request under nonce 1, before the shutdown. If the save fails,
  the phone gets nothing at all; but the window is spent, and no later connection can succeed in it.
\<close>
theorem right_code_pairs:
  assumes "encodes_responses env" "write_script t = []"
    and "offers env t name c h" "state (handshake ps) = Awaiting c ex k"
    and "c < PAIRING_CODE_MODULUS" "fst (unix_ms_now (p_world ps)) < ex"
    and "rec = \<lparr>pr_phone_name = name, pr_client_spki = h, pr_paired_at_unix_ms = fst (unix_ms_now (p_world ps))\<rparr>"
    and "handle_pair_attempt env cfg t ps = (r, t', ps')"
  shows "p_contents ps' = add_pairing (from_core rec) (p_contents ps)
     \<and> filter (\<lambda>q. client_spki q = h) (pairings (p_contents ps')) = [from_core rec]
     \<and> active_pairing (p_contents ps') h = Some (from_core rec)
     \<and> (case fst (ks_save (e_ks env) (keystore_path cfg) (p_contents ps') (w_fs (p_world ps))) of
          Inr _ \<Rightarrow> r = Inr True \<and> closed t'
            \<and> (\<exists>n. outbound t' = outbound t @ frame_bytes (response_frame env 1 (Ack n)))
        | Inl x \<Rightarrow> r = Inl (FromKeystore x) \<and> outbound t' = outbound t
            \<and> (\<forall>accept_tls a evs. fst (pair_loop env (accept_tls :: 'c tls_accept) a cfg evs ps') \<noteq> Some (Inr ())))"
proof -
  note att = right_code_attempt [OF assms]
  then have na: "\<not> is_awaiting (handshake ps')" by (simp add: is_awaiting_def)
  have closed: "\<forall>accept_tls a evs. fst (pair_loop env (accept_tls :: 'c tls_accept) a cfg evs ps') \<noteq> Some (Inr ())"
    by (intro allI) (rule pair_loop_closed [OF na])
  show ?thesis
    using att closed active_add_pairing [of rec "p_contents ps"] assms(7) by (auto split: sum.splits)
qed

end
