(* ===== verification/Pairing_Run.thy ===== *)
theory Pairing_Run
  imports Pairing_Properties
begin

section \<open>A pairing, evaluated\<close>

text \<open>
  One concrete run of the \<open>pair\<close> command: a fresh data directory, a random source whose first draw
  is the code 7, and a phone named Bob that connects and sends it. The properties of the pairing
  window are applied to this run.
\<close>

lemma string_bytes_string [simp]: "string_bytes (bytes_string bs) = bs"
proof -
  have "of_nat (of_char (char_of (unat b) :: char)) = b" for b :: u8
    using unsigned_less [of b, where ?'a = nat] by simp
  then show ?thesis by (simp add: string_bytes_def bytes_string_def o_def)
qed

lemma length_bytes_string [simp]: "length (bytes_string bs) = length bs"
  by (simp add: bytes_string_def)

lemma get_len_bound: "get_len bs = Some (n, rest) \<Longrightarrow> n < 2 ^ 64"
  by (auto simp: get_len_def get_varint_def split: option.splits if_splits)

lemma get_string_wf: "get_string bs = Some (s, rest) \<Longrightarrow> wf_string s"
  by (auto simp: get_string_def rbind_def rreturn_def rfail_def get_bytes_def wf_string_def
      dest!: get_len_bound split: option.splits if_splits)

lemma sample_decodes_wf [simp]: "decodes_wf sample_daemon"
proof -
  have "wf_string name" if "get_client p = Some (Pair name code, rest)" for p name code rest
    using that
    by (auto simp: get_client_def get_client_body_def rbind_def rreturn_def rfail_def
        split: option.splits if_splits) (erule get_string_wf)
  then show ?thesis
    by (auto simp: decodes_wf_def sample_daemon_def decode_client_frame_def client_codec_def sample_x509_def
        decode_payload_def map_err_def split: sum.splits option.splits if_splits prod.splits)
qed

subsection \<open>The phone and the listener\<close>

definition bob_cert :: bytes where "bob_cert = 0x30 # replicate 32 2"

definition bob :: SpkiHash where "bob = SpkiHash (replicate 32 2)"

definition bob_stream :: tls_stream where
  "bob_stream = sample_stream (Some [bob_cert]) [Chunk (frame_bytes (sample_envelope 1 (Pair ''Bob'' 7)))]"

definition bob_record :: PairingRecord where
  "bob_record = \<lparr>pr_phone_name = ''Bob'', pr_client_spki = bob, pr_paired_at_unix_ms = 0\<rparr>"

definition fresh_contents :: KeystoreContents where
  "fresh_contents = from_identity \<lparr>key_pkcs8_der = [7, 7], cert_der = [0x30, 7, 7]\<rparr>"

definition bob_accept :: "unit tls_accept" where
  "bob_accept a tcp = Inr bob_stream"

definition bob_bind :: "SocketAddr \<Rightarrow> io_error + unit pair_listener" where
  "bob_bind a = Inr \<lparr>pl_local_addr = Inr a, pl_events = [PairAccepted (Inr ((), alice_addr))]\<rparr>"

abbreviation home :: Config where "home \<equiv> for_test [''data'']"

lemma bob_envelope:
  "\<exists>buf t. read_one_envelope [] bob_stream = (Inr (sample_envelope 1 (Pair ''Bob'' 7)), buf, t)"
proof -
  let ?e = "sample_envelope 1 (Pair ''Bob'' 7)"
  have d: "decode_envelope (frame_bytes ?e @ []) = Inr (Frame ?e [])"
    by (rule decode_frame)
      (simp add: receivable_def sendable_def sample_envelope_def envelope_consts put_tag_def put_string_def
        put_len_def put_u32_def)
  have l: "length (frame_bytes ?e) \<le> 4096"
    by (simp add: sample_envelope_def put_tag_def put_string_def put_len_def put_u32_def)
  have ne: "frame_bytes ?e \<noteq> []" using length_frame_bytes [of ?e] by (metis length_0_conv add_is_0 zero_neq_numeral)
  show ?thesis
    by (subst read_one_envelope.simps, subst read_one_envelope.simps)
      (use d l ne in \<open>simp add: decode_envelope_eq [of "[]"] tls_read_def bob_stream_def sample_stream_def READ_CHUNK_def\<close>)
qed

lemma bob_offers: "offers sample_daemon bob_stream ''Bob'' 7 bob"
proof -
  have "wf_client (Pair ''Bob'' 7)" by (simp add: wf_client_def wf_string_def string_bytes_def)
  from sample_decode [OF this] bob_envelope
  have "first_frame sample_daemon bob_stream = Some (Pair ''Bob'' 7)"
    by (auto simp: first_frame_def sample_envelope_def)
  then show ?thesis
    by (simp add: offers_def pair_peer_spki_from_tls_def bob_stream_def sample_stream_def slice_first_def
        extract_spki_hash_def compute_spki_hash_def sample_x509_def bob_cert_def bob_def sample_daemon_def)
qed

subsection \<open>The run\<close>

definition paired_contents :: KeystoreContents where
  "paired_contents = add_pairing (from_core bob_record) fresh_contents"

definition open_handshake :: PairingHandshake where
  "open_handshake = \<lparr>state = Awaiting 7 PAIRING_WINDOW_DEFAULT_MS 0\<rparr>"

lemma home_keystore [simp]: "keystore_path home = sample_path"
  by (simp add: keystore_path_def for_test_def join_def)

text \<open>The file system once \<open>create_dir_all\<close> has run, and the world when the window opens.\<close>

definition home_fs :: fs where
  "home_fs = (sample_fs [])\<lparr>dirs := dirs (sample_fs []) @ ancestors [''data'']\<rparr>"

definition home_world :: "unit world" where
  "home_world = (sample_world 0 ())\<lparr>w_fs := home_fs\<rparr>"

lemma ancestors_data [simp]: "ancestors [''data''] = [[], [''data'']]"
  by (simp add: ancestors_def)

lemma home_data_dir: "on_fs (ensure_data_dir (data_dir home)) (sample_world 0 ()) = (Inr (), home_world)"
  by (simp add: on_fs_def ensure_data_dir_def fs_create_dir_all_def for_test_def sample_world_def sample_fs_def
      next_outcome_calm map_err_def list_all_iff home_world_def home_fs_def)

lemma home_bootstrap: "bootstrap sample_daemon home home_world = (Inr fresh_contents, home_world)"
  by (simp add: bootstrap_def on_fs_def ks_load_def fs_read_def home_world_def home_fs_def sample_world_def
      sample_fs_def next_outcome_calm fresh_contents_def device_generate_def sample_daemon_def sample_rcgen_def
      build_from_keypair_def extract_spki_hash_def sample_x509_def device_to_bytes_def)

definition opened :: "unit pair_state" where
  "opened = \<lparr>handshake = open_handshake, p_contents = fresh_contents,
     p_world = snd (unix_ms_now home_world)\<lparr>w_rng := 1\<rparr>\<rparr>"

lemma home_window: "open_window sample_daemon home_world = Some (Inr 7, open_handshake, p_world opened)"
proof -
  have "random_pairing_code (\<lambda>i. Inr [7, 0, 0, 0]) 0 = Some (Inr 7, 1)"
    by (subst random_code_stop)
      (simp_all add: draw_ends_def u32_from_le_bytes_def from_be_def RESAMPLE_THRESHOLD_eq PAIRING_CODE_MODULUS_def)
  then show ?thesis
    by (simp add: open_window_def opened_def unix_ms_now_def unix_ms_def home_world_def sample_world_def start_def
        handshake_new_def sample_daemon_def open_handshake_def saturating_add_def PAIRING_WINDOW_DEFAULT_MS_def)
qed

lemma bob_saved:
  assumes "w_fs w = home_fs"
  shows "fst (ks_save (e_ks sample_daemon) (keystore_path home) paired_contents (w_fs w)) = Inr ()"
proof -
  have "length (put_contents paired_contents) < 2 ^ 32 - 8"
    by (simp add: paired_contents_def add_pairing_def fresh_contents_def from_identity_def from_core_def
        bob_record_def bob_def put_contents_def put_vec_def put_list_def put_pairing_def
        put_string_def put_option_def put_len_def put_u8_def put_u64_def put_bool_def put_varint.simps)
  then show ?thesis
    by (simp add: ks_save_def sample_daemon_def sample_env_def keystore_codec_def KEYSTORE_FORMAT_VERSION_def
        platform_encrypt_def windows_encrypt_def sample_dpapi_def u32_try_from_def parent_def assms
        replace_file_def fs_write_def fs_rename_def can_create_def next_outcome_calm home_fs_def sample_fs_def join_def tmp_name_def)
qed

lemma opened_simps [simp]:
  "state (handshake opened) = Awaiting 7 PAIRING_WINDOW_DEFAULT_MS 0" "p_contents opened = fresh_contents"
  "fst (unix_ms_now (p_world opened)) = 0" "w_fs (p_world opened) = home_fs"
  by (simp_all add: opened_def open_handshake_def unix_ms_now_def unix_ms_def home_world_def sample_world_def)

text \<open>Bob's attempt in any state of the open window.\<close>

lemma bob_ready:
  "write_script bob_stream = []" "outbound bob_stream = []" "(7 :: u32) < PAIRING_CODE_MODULUS"
  "(0 :: u64) < PAIRING_WINDOW_DEFAULT_MS"
  by (simp_all add: bob_stream_def sample_stream_def PAIRING_CODE_MODULUS_def PAIRING_WINDOW_DEFAULT_MS_def)

lemma bob_attempt:
  assumes "handshake ps = open_handshake" "fst (unix_ms_now (p_world ps)) = 0"
    and "fst (ks_save (e_ks sample_daemon) (keystore_path home) (add_pairing (from_core bob_record) (p_contents ps))
      (w_fs (p_world ps))) = Inr ()"
  shows "fst (handle_pair_attempt sample_daemon home bob_stream ps) = Inr True"
proof -
  obtain r t' ps' where h: "handle_pair_attempt sample_daemon home bob_stream ps = (r, t', ps')"
    by (cases "handle_pair_attempt sample_daemon home bob_stream ps")
  have a: "state (handshake ps) = Awaiting 7 PAIRING_WINDOW_DEFAULT_MS 0" by (simp add: assms(1) open_handshake_def)
  have t: "fst (unix_ms_now (p_world ps)) < PAIRING_WINDOW_DEFAULT_MS" using bob_ready(4) by (simp add: assms(2))
  have b: "bob_record = \<lparr>pr_phone_name = ''Bob'', pr_client_spki = bob,
      pr_paired_at_unix_ms = fst (unix_ms_now (p_world ps))\<rparr>"
    by (simp add: bob_record_def assms(2))
  note p = right_code_attempt [OF sample_daemon_encodes bob_ready(1) bob_offers a bob_ready(3) t b h]
  have "p_contents ps' = add_pairing (from_core bob_record) (p_contents ps)" using p by blast
  with p assms(3) show ?thesis by (simp add: h)
qed

lemma bob_pairs_in:
  assumes "handshake ps = open_handshake" "w_clock (p_world ps) = (\<lambda>i. 0)"
    and "fst (ks_save (e_ks sample_daemon) (keystore_path home) (add_pairing (from_core bob_record) (p_contents ps))
      (w_fs (p_world ps))) = Inr ()"
  shows "fst (pair_loop sample_daemon bob_accept a home [PairAccepted (Inr ((), alice_addr))] ps) = Some (Inr ())"
proof -
  have tk: "tick (handshake ps) 0 = (NoOp, open_handshake)"
    using bob_ready(4) by (simp add: tick_def assms(1) open_handshake_def)
  let ?ps = "ps\<lparr>handshake := open_handshake, p_world := snd (unix_ms_now (p_world ps))\<rparr>"
  obtain t ps' where h: "handle_pair_attempt sample_daemon home bob_stream ?ps = (Inr True, t, ps')"
    using bob_attempt [of ?ps] assms
    by (cases "handle_pair_attempt sample_daemon home bob_stream ?ps")
      (simp add: unix_ms_now_def unix_ms_def)
  obtain w where n: "unix_ms_now (p_world ps) = (0, w)" using assms(2) by (simp add: unix_ms_now_def unix_ms_def)
  show ?thesis
    using h tk by (simp add: pair_loop.simps [of sample_daemon] n bob_accept_def)
qed

lemma bob_pairs: "fst (pair_loop sample_daemon bob_accept a home [PairAccepted (Inr ((), alice_addr))] opened) = Some (Inr ())"
proof (rule bob_pairs_in)
  show "fst (ks_save (e_ks sample_daemon) (keystore_path home) (add_pairing (from_core bob_record) (p_contents opened))
      (w_fs (p_world opened))) = Inr ()"
    using bob_saved [of "p_world opened"] by (simp add: paired_contents_def)
qed (simp_all add: opened_def home_world_def sample_world_def unix_ms_now_def)

subsection \<open>Witnesses\<close>

theorem right_code_pairs_witness:
  "\<exists>t' ps'. handle_pair_attempt sample_daemon home bob_stream opened = (Inr True, t', ps')
     \<and> p_contents ps' = paired_contents \<and> closed t'
     \<and> (\<exists>n. outbound t' = frame_bytes (response_frame sample_daemon 1 (Ack n)))"
proof -
  obtain r t' ps' where h: "handle_pair_attempt sample_daemon home bob_stream opened = (r, t', ps')"
    by (cases "handle_pair_attempt sample_daemon home bob_stream opened")
  have t: "fst (unix_ms_now (p_world opened)) < PAIRING_WINDOW_DEFAULT_MS" using bob_ready(4) by simp
  have b: "bob_record = \<lparr>pr_phone_name = ''Bob'', pr_client_spki = bob,
      pr_paired_at_unix_ms = fst (unix_ms_now (p_world opened))\<rparr>"
    by (simp add: bob_record_def)
  note p = right_code_pairs [OF sample_daemon_encodes bob_ready(1) bob_offers opened_simps(1) bob_ready(3) t b h]
  from p have c: "p_contents ps' = paired_contents" unfolding paired_contents_def opened_simps(2) by (rule conjunct1)
  have "fst (ks_save (e_ks sample_daemon) (keystore_path home) paired_contents (w_fs (p_world opened))) = Inr ()"
    by (rule bob_saved) simp
  with p show ?thesis by (simp add: c bob_ready(2) h)
qed

theorem pairing_success_needs_early_code_witness:
  "\<exists>a. fst (pair_loop sample_daemon bob_accept a home [PairAccepted (Inr ((), alice_addr))] opened) = Some (Inr ())
     \<and> 7 \<in> set (take 5 (offered_codes sample_daemon bob_accept a [PairAccepted (Inr ((), alice_addr))]))"
  using pairing_success_needs_early_code [OF bob_ready(3) opened_simps(1) bob_pairs] bob_pairs by blast

lemma bob_pair_run:
  "\<exists>w'. pair_run_command sample_daemon bob_accept bob_bind home (sample_world 0 ()) = (Some (Inr ()), Some 7, w')"
proof -
  obtain i where i: "device_from_bytes (e_rcgen sample_daemon) (e_x509 sample_daemon)
      (device_identity_bytes fresh_contents) = Inr i"
    by (simp add: device_from_bytes_def sample_daemon_def sample_rcgen_def sample_x509_def extract_spki_hash_def
        fresh_contents_def from_identity_def device_identity_bytes_def)
  obtain a where a: "server_config_for_pairing (e_rustls sample_daemon) i (e_provider sample_daemon) = Inr a"
    by (simp add: server_config_for_pairing_def server_config_def sample_daemon_def sample_rustls_def Let_def
        identity_to_rustls_def)
  have o: "\<lparr>handshake = open_handshake, p_contents = fresh_contents, p_world = p_world opened\<rparr> = opened"
    by (simp add: opened_def)
  show ?thesis
    unfolding pair_run_command_def home_data_dir home_bootstrap home_window prod.case sum.case option.case i a map_err_def
    using bob_pairs [of a] by (simp add: bob_bind_def o case_prod_beta)
qed

lemma fresh_small: "wf_contents fresh_contents" "Suc (length (pairings fresh_contents)) < 2 ^ 64"
  by (simp_all add: fresh_contents_def from_identity_def wf_contents_def)

lemma bob_pair_saved:
  "pair_run_command sample_daemon bob_accept bob_bind home (sample_world 0 ()) = (Some (Inr ()), sh, w') \<Longrightarrow>
     \<exists>c. disk sample_daemon home w' = Inr (Some c)"
  using pair_run_adds [OF sample_daemon_ks sample_decodes_wf home_data_dir home_bootstrap fresh_small] by blast

theorem pairing_window_adds_at_most_one_witness:
  "\<exists>w' rec a. pair_run_command sample_daemon bob_accept bob_bind home (sample_world 0 ()) = (Some (Inr ()), Some 7, w')
     \<and> disk sample_daemon home w' = Inr (Some (add_pairing (from_core rec) fresh_contents))
     \<and> offered_in sample_daemon bob_accept a [PairAccepted (Inr ((), alice_addr))] (pr_phone_name rec) 7 (pr_client_spki rec)"
proof -
  obtain w' where run: "pair_run_command sample_daemon bob_accept bob_bind home (sample_world 0 ()) = (Some (Inr ()), Some 7, w')"
    using bob_pair_run by blast
  from pairing_window_adds_at_most_one [OF sample_daemon_ks sample_decodes_wf home_data_dir home_bootstrap fresh_small run] run
  show ?thesis by (auto simp: bob_bind_def)
qed


end
