(* ===== verification/Server_System.thy ===== *)
theory Server_System
  imports Connection_Steps Daemon_Admin Pairing_Run
begin

section \<open>The daemon as a system of concurrent tasks\<close>

text \<open>
  The server as \<open>listener.rs\<close> spawns it: one accept loop and a task for each connection, all on one
  shared state, and beside it the processes of the local commands, which share only the disk with
  it. \<open>net_step\<close> is what the network can make the server do: accept, finish a handshake, start a
  connection, take one turn of a connection's loop; the next task to move is not determined. A turn
  (one frame, its effect and its answer) is taken as a whole. \<open>local_step\<close> is what happens on the
  machine itself: the server starts or ends, a command runs.
\<close>

datatype 'c task =
    Accepted ServerConfig 'c SocketAddr
  | Serving SpkiHash NonceCounter bytes tls_stream

record ('o, 't) system =
  sy_server :: "'o SharedState option"
  sy_tasks :: "'t list"
  sy_world :: "'o world"

inductive net_step ::
    "daemon_env \<Rightarrow> 'c tls_accept \<Rightarrow> (SocketAddr \<Rightarrow> bool) \<Rightarrow> ('o, 'c task) system \<Rightarrow> ('o, 'c task) system \<Rightarrow> bool"
  for env tls_accept addr_ok where
  accepted: "sy_server s = Some st \<Longrightarrow> build_acceptor env st = Inr a \<Longrightarrow> addr_ok addr \<Longrightarrow>
    net_step env tls_accept addr_ok s (s\<lparr>sy_tasks := sy_tasks s @ [Accepted a tcp addr]\<rparr>)"
| handshake_failed: "sy_tasks s = xs @ Accepted a tcp addr # ys \<Longrightarrow> tls_accept a tcp = Inl e \<Longrightarrow>
    net_step env tls_accept addr_ok s (s\<lparr>sy_tasks := xs @ ys\<rparr>)"
| refused: "sy_server s = Some st \<Longrightarrow> sy_tasks s = xs @ Accepted a tcp addr # ys \<Longrightarrow> tls_accept a tcp = Inr t \<Longrightarrow>
    conn_start env t addr st (sy_world s) = (Inl r, t', st', w') \<Longrightarrow>
    net_step env tls_accept addr_ok s (s\<lparr>sy_server := Some st', sy_tasks := xs @ ys, sy_world := w'\<rparr>)"
| started: "sy_server s = Some st \<Longrightarrow> sy_tasks s = xs @ Accepted a tcp addr # ys \<Longrightarrow> tls_accept a tcp = Inr t \<Longrightarrow>
    conn_start env t addr st (sy_world s) = (Inr h, t', st', w') \<Longrightarrow>
    net_step env tls_accept addr_ok s
      (s\<lparr>sy_server := Some st', sy_tasks := xs @ Serving h counter_new [] t' # ys, sy_world := w'\<rparr>)"
| turned: "sy_server s = Some st \<Longrightarrow> sy_tasks s = xs @ Serving h ns buf t # ys \<Longrightarrow>
    conn_step env h ns buf t st (sy_world s) = (Next ns' buf', t', st', w') \<Longrightarrow>
    net_step env tls_accept addr_ok s
      (s\<lparr>sy_server := Some st', sy_tasks := xs @ Serving h ns' buf' t' # ys, sy_world := w'\<rparr>)"
| ended: "sy_server s = Some st \<Longrightarrow> sy_tasks s = xs @ Serving h ns buf t # ys \<Longrightarrow>
    conn_step env h ns buf t st (sy_world s) = (Ended r, t', st', w') \<Longrightarrow>
    net_step env tls_accept addr_ok s (s\<lparr>sy_server := Some st', sy_tasks := xs @ ys, sy_world := w'\<rparr>)"

abbreviation net_steps where
  "net_steps env tls_accept addr_ok \<equiv> (net_step env tls_accept addr_ok)\<^sup>*\<^sup>*"

definition up :: "'o SharedState \<Rightarrow> 'o world \<Rightarrow> ('o, 't) system" where
  "up st w = \<lparr>sy_server = Some st, sy_tasks = [], sy_world = w\<rparr>"

inductive local_step ::
    "daemon_env \<Rightarrow> 'c tls_accept \<Rightarrow> Config \<Rightarrow> 'o Handlers \<Rightarrow> ('o, 't) system \<Rightarrow> ('o, 't) system \<Rightarrow> bool"
  for env tls_accept cfg hs where
  start_failed: "sy_server s = None \<Longrightarrow> server_start env cfg hs (sy_world s) = (Inl e, w') \<Longrightarrow>
    local_step env tls_accept cfg hs s (s\<lparr>sy_world := w'\<rparr>)"
| start_server: "sy_server s = None \<Longrightarrow> server_start env cfg hs (sy_world s) = (Inr st, w') \<Longrightarrow>
    local_step env tls_accept cfg hs s (up st w')"
| stop_server: "local_step env tls_accept cfg hs s (s\<lparr>sy_server := None, sy_tasks := []\<rparr>)"
| listing: "list_paired env cfg (sy_world s) = (r, out, w') \<Longrightarrow>
    local_step env tls_accept cfg hs s (s\<lparr>sy_world := w'\<rparr>)"
| revoking: "revoke_command env cfg name (sy_world s) = (r, out, w') \<Longrightarrow>
    local_step env tls_accept cfg hs s (s\<lparr>sy_world := w'\<rparr>)"
| reauthing: "reauth_now env cfg (sy_world s) = (r, out, w') \<Longrightarrow>
    local_step env tls_accept cfg hs s (s\<lparr>sy_world := w'\<rparr>)"
| uninstalling: "uninstall_revoke_broadcast env connect cfg (sy_world s) = (r, out, w') \<Longrightarrow>
    local_step env tls_accept cfg hs s (s\<lparr>sy_world := w'\<rparr>)"
| pairing: "pair_run_command env tls_accept bind cfg (sy_world s) = (r, shown, w') \<Longrightarrow>
    local_step env tls_accept cfg hs s (s\<lparr>sy_world := w'\<rparr>)"

inductive_simps net_step_iff: "net_step env tls_accept addr_ok s s'"

subsection \<open>Invariants under every interleaving\<close>

definition server_holds :: "('o SharedState \<Rightarrow> 'o world \<Rightarrow> bool) \<Rightarrow> ('o, 't) system \<Rightarrow> bool" where
  "server_holds P s \<longleftrightarrow> (\<exists>st. sy_server s = Some st \<and> P st (sy_world s))"

definition addresses_ok :: "(SocketAddr \<Rightarrow> bool) \<Rightarrow> 'c task list \<Rightarrow> bool" where
  "addresses_ok addr_ok ts \<longleftrightarrow> list_all (\<lambda>t. case t of Accepted a tcp addr \<Rightarrow> addr_ok addr | _ \<Rightarrow> True) ts"

lemma addresses_ok_simps [simp]:
  "addresses_ok ok []"
  "addresses_ok ok (Accepted a tcp addr # ts) \<longleftrightarrow> ok addr \<and> addresses_ok ok ts"
  "addresses_ok ok (Serving h ns b t # ts) \<longleftrightarrow> addresses_ok ok ts"
  "addresses_ok ok (ts @ us) \<longleftrightarrow> addresses_ok ok ts \<and> addresses_ok ok us"
  by (simp_all add: addresses_ok_def)

context server_invariant
begin

lemma net_step_inv:
  "net_step env tls_accept addr_ok s s' \<Longrightarrow> server_holds P s \<Longrightarrow> addresses_ok addr_ok (sy_tasks s) \<Longrightarrow>
     server_holds P s' \<and> addresses_ok addr_ok (sy_tasks s')"
proof (induction rule: net_step.induct)
  case (refused s st xs a tcp addr ys t r t' st' w')
  then have "P st (sy_world s)" "addr_ok addr" by (simp_all add: server_holds_def)
  from conn_start_inv [OF this refused(4)] refused show ?case by (simp add: server_holds_def)
next
  case (started s st xs a tcp addr ys t h t' st' w')
  then have "P st (sy_world s)" "addr_ok addr" by (simp_all add: server_holds_def)
  from conn_start_inv [OF this started(4)] started show ?case by (simp add: server_holds_def)
next
  case (turned s st xs h ns buf t ys ns' buf' t' st' w')
  then have "P st (sy_world s)" by (simp add: server_holds_def)
  from conn_step_inv [OF this turned(3)] turned show ?case by (simp add: server_holds_def)
next
  case (ended s st xs h ns buf t ys r t' st' w')
  then have "P st (sy_world s)" by (simp add: server_holds_def)
  from conn_step_inv [OF this ended(3)] ended show ?case by (simp add: server_holds_def)
qed (simp_all add: server_holds_def)

lemma net_steps_inv:
  "net_steps env tls_accept addr_ok s s' \<Longrightarrow> server_holds P s \<Longrightarrow> addresses_ok addr_ok (sy_tasks s) \<Longrightarrow>
     server_holds P s' \<and> addresses_ok addr_ok (sy_tasks s')"
  by (induction rule: rtranclp_induct) (auto dest: net_step_inv)

end

text \<open>The hashes of the active pairings, which the view decides.\<close>

lemma core_view_active:
  "core_view c = core_view c' \<Longrightarrow> (active_pairing c h = None) = (active_pairing c' h = None)"
proof -
  have "active_pairing c h = None \<longleftrightarrow> h \<notin> client_spki ` set (snd (snd (snd (core_view c))))" for c
    by (auto simp: active_pairing_None core_view_def is_active_def image_iff)
  then show "core_view c = core_view c' \<Longrightarrow> ?thesis" by simp
qed

text \<open>Whoever is served is an active pairing of the view.\<close>

definition serves_only :: "KeystoreContents \<Rightarrow> 'c task list \<Rightarrow> bool" where
  "serves_only c ts \<longleftrightarrow> list_all (\<lambda>t. case t of Serving h _ _ _ \<Rightarrow> active_pairing c h \<noteq> None | _ \<Rightarrow> True) ts"

lemma serves_only_simps [simp]:
  "serves_only c []"
  "serves_only c (Accepted a tcp addr # ts) \<longleftrightarrow> serves_only c ts"
  "serves_only c (Serving h ns b t # ts) \<longleftrightarrow> active_pairing c h \<noteq> None \<and> serves_only c ts"
  "serves_only c (ts @ us) \<longleftrightarrow> serves_only c ts \<and> serves_only c us"
  by (simp_all add: serves_only_def)

lemma net_step_serves:
  assumes "net_step env tls_accept wf_addr s s'"
    and "server_holds (keeps_view env i cfg hs (core_view c)) s" "serves_only c (sy_tasks s)"
  shows "serves_only c (sy_tasks s')"
  using assms
proof (induction rule: net_step.induct)
  case (started s st xs a tcp addr ys t h t' st' w')
  then have "core_view (contents st) = core_view c" by (simp add: server_holds_def keeps_view_def)
  from core_view_active [OF this, of h] conn_start_active [OF started(4)] started(2,6) show ?case by simp
qed simp_all

lemma net_steps_view:
  assumes "net_steps env tls_accept wf_addr s s'"
    and "server_holds (keeps_view env i cfg hs (core_view c)) s" "serves_only c (sy_tasks s)"
    and "addresses_ok wf_addr (sy_tasks s)"
  shows "server_holds (keeps_view env i cfg hs (core_view c)) s' \<and> serves_only c (sy_tasks s')
     \<and> addresses_ok wf_addr (sy_tasks s')"
  using assms
proof (induction rule: rtranclp_induct)
  case (step s1 s2)
  then show ?case
    using keystore_view.net_step_inv [OF step(2)] net_step_serves [OF step(2)] by blast
qed simp

lemma server_start_disk:
  assumes "disk env cfg w = Inr (Some c)" "server_start env cfg hs w = (Inr st, w')"
  shows "disk env cfg w' = Inr (Some c) \<and> (\<exists>i. st = with_handlers c i cfg hs)"
proof -
  obtain w1 w2 x c1 i where d: "on_fs (ensure_data_dir (data_dir cfg)) w = (Inr (), w1)"
    and l: "on_fs (ks_load (e_ks env) (keystore_path cfg)) w1 = (Inr (Some c1), w2)"
    and o: "on_os (h_prepare hs) w2 = (x, w')" and st: "st = with_handlers c1 i cfg hs"
    using assms(2) by (auto simp: server_start_def split: prod.splits sum.splits option.splits)
  have "disk env cfg w1 = Inr (Some c)" using on_fs_disk_kept [OF d] assms(1) by simp
  moreover from this have "c1 = c"
    using on_fs_pair [OF l] store.load_Inr [of "e_ks env" "keystore_path cfg" "w_fs w1" "Some c1"]
    by (simp add: disk_def)
  moreover have "disk env cfg w2 = disk env cfg w1" using on_fs_disk_kept [OF l] by simp
  moreover have "disk env cfg w' = disk env cfg w2" using on_os_pair [OF o] by (simp add: disk_def)
  ultimately show ?thesis using st by auto
qed

lemma server_start_needs_keystore:
  assumes "\<And>c. disk env cfg w \<noteq> Inr (Some c)"
  shows "fst (server_start env cfg hs w) \<noteq> Inr st"
proof -
  obtain d w1 where d: "on_fs (ensure_data_dir (data_dir cfg)) w = (d, w1)" by fastforce
  obtain x w2 where l: "on_fs (ks_load (e_ks env) (keystore_path cfg)) w1 = (x, w2)" by fastforce
  have "disk env cfg w1 = disk env cfg w" by (rule on_fs_disk_kept [OF d]) simp
  then have "x \<noteq> Inr (Some c)" for c
    using on_fs_pair [OF l] ks_load_reads [of "e_ks env" "keystore_path cfg" "w_fs w1"] assms by (auto simp: disk_def)
  with d l show ?thesis by (auto simp: server_start_def split: sum.splits option.splits)
qed

lemma server_start_view:
  assumes "ks_ok (e_ks env)" "disk env cfg w = Inr (Some c)" "wf_contents c"
    and "server_start env cfg hs w = (Inr st, w')"
  shows "contents st = c \<and> (\<exists>i. keeps_view env i cfg hs (core_view c) st w')"
  using server_start_disk [OF assms(2,4)] assms(1,3) by (auto simp: keeps_view_def with_handlers_def)

end
