(* ===== verification/System_Properties.thy ===== *)
theory System_Properties
  imports Server_System
begin

section \<open>Properties of the whole daemon\<close>

text \<open>
  What holds of the server under every interleaving of its tasks, what the local commands do to the
  keystore, and how the two meet.
\<close>

text \<open>Turns of one connection, with no other task in between, are its loop.\<close>

lemma loop_as_turns:
  assumes "sy_server s = Some st" "sy_tasks s = xs @ Serving h ns buf t # ys"
    and "conn_loop env h ns buf t st (sy_world s) = (r, t', st', w')"
  shows "net_steps env tls_accept addr_ok s (s\<lparr>sy_server := Some st', sy_tasks := xs @ ys, sy_world := w'\<rparr>)"
  using assms
proof (induction "length (pending buf t)" arbitrary: s st ns buf t rule: less_induct)
  case less
  obtain u t1 st1 w1 where step: "conn_step env h ns buf t st (sy_world s) = (u, t1, st1, w1)"
    by (cases "conn_step env h ns buf t st (sy_world s)")
  show ?case
  proof (cases u)
    case (Ended r1)
    with less.prems(3) step have "st' = st1" "w' = w1" by (simp_all add: conn_loop_steps [of env h ns buf t])
    with net_step.ended [OF less.prems(1,2) step [unfolded Ended]] show ?thesis by auto
  next
    case (Next ns1 buf1)
    let ?s1 = "s\<lparr>sy_server := Some st1, sy_tasks := xs @ Serving h ns1 buf1 t1 # ys, sy_world := w1\<rparr>"
    have "net_step env tls_accept addr_ok s ?s1"
      by (rule net_step.turned [OF less.prems(1,2) step [unfolded Next]])
    moreover have "conn_loop env h ns1 buf1 t1 st1 (sy_world ?s1) = (r, t', st', w')"
      using less.prems(3) step Next by (simp add: conn_loop_steps [of env h ns buf t])
    from less.hyps [OF conn_step_Next [OF step [unfolded Next]] _ _ this]
    have "net_steps env tls_accept addr_ok ?s1 (s\<lparr>sy_server := Some st', sy_tasks := xs @ ys, sy_world := w'\<rparr>)"
      by simp
    ultimately show ?thesis by (rule converse_rtranclp_into_rtranclp)
  qed
qed

text \<open>
  A connection handled at once is one of the interleavings, and no connection can be stuck: from
  any state of the system in which a connection waits for its handshake, the steps of this
  connection alone lead to its end, with exactly the state and world that \<open>handle_connection\<close>
  computes, whatever other connections are open.
\<close>
lemma connection_alone_runs_to_its_end:
  assumes "sy_server s = Some st" "sy_tasks s = xs @ Accepted a tcp addr # ys"
    and "handle_connection env tls_accept a tcp addr st (sy_world s) = (r, st', w')"
  shows "net_steps env tls_accept addr_ok s (s\<lparr>sy_server := Some st', sy_tasks := xs @ ys, sy_world := w'\<rparr>)"
proof (cases "tls_accept a tcp")
  case (Inl e)
  with assms(1,3) have "s\<lparr>sy_server := Some st', sy_tasks := xs @ ys, sy_world := w'\<rparr> = s\<lparr>sy_tasks := xs @ ys\<rparr>"
    by (simp add: handle_connection_def)
  moreover have "net_step env tls_accept addr_ok s (s\<lparr>sy_tasks := xs @ ys\<rparr>)"
    using assms(2) Inl by (rule net_step.handshake_failed)
  ultimately show ?thesis by simp
next
  case (Inr t)
  obtain u t1 st1 w1 where start: "conn_start env t addr st (sy_world s) = (u, t1, st1, w1)"
    by (cases "conn_start env t addr st (sy_world s)")
  show ?thesis
  proof (cases u)
    case (Inl r1)
    with Inr start assms(3) have "st' = st1" "w' = w1" by (simp_all add: handle_connection_def conn_run_steps)
    moreover have "net_step env tls_accept addr_ok s (s\<lparr>sy_server := Some st1, sy_tasks := xs @ ys, sy_world := w1\<rparr>)"
      using assms(1,2) Inr start [unfolded Inl] by (rule net_step.refused)
    ultimately show ?thesis by simp
  next
    case h: (Inr h)
    let ?s1 = "s\<lparr>sy_server := Some st1, sy_tasks := xs @ Serving h counter_new [] t1 # ys, sy_world := w1\<rparr>"
    have "net_step env tls_accept addr_ok s ?s1"
      using assms(1,2) Inr start [unfolded h] by (rule net_step.started)
    moreover obtain t2 where "conn_loop env h counter_new [] t1 st1 (sy_world ?s1) = (r, t2, st', w')"
      using Inr start h assms(3) by (auto simp: handle_connection_def conn_run_steps split: prod.splits)
    then have "net_steps env tls_accept addr_ok ?s1
        (?s1\<lparr>sy_server := Some st', sy_tasks := xs @ ys, sy_world := w'\<rparr>)"
      by (intro loop_as_turns [where st = st1]) simp_all
    ultimately show ?thesis by simp
  qed
qed

subsection \<open>Revocation\<close>

text \<open>What a read-modify-write leaves, and a server started on it.\<close>

lemma started_on:
  assumes "ks_ok (e_ks env)" "ks_rewritten env cfg w (Inr ()) w1 c c'" "wf_contents c'"
    and "server_start env cfg hs w1 = (Inr st, w2)"
  shows "contents st = c' \<and> (\<exists>i. keeps_view env i cfg hs (core_view c') st w2)"
  using server_start_view [OF assms(1) _ assms(3,4)] assms(2) by (simp add: ks_rewritten_def)

lemma keeps_view_rejects:
  assumes "core_view (contents st) = core_view c" "active_pairing c h = None"
    and "build_acceptor env st = Inr a" "extract_spki_hash (e_x509 env) leaf = Inr h"
  shows "verify_client_cert (e_x509 env) (sc_verifier a) leaf \<noteq> Inr ()"
  using pinned_client_active [OF assms(3), of leaf] core_view_active [OF assms(1), of h] assms(2,4) by auto

lemma mark_revoked_inactive:
  assumes "\<forall>p \<in> set (pairings c). client_spki p = h \<longrightarrow> hit p"
  shows "active_pairing (mark_revoked hit c) h = None"
  using assms by (auto simp: active_pairing_None mark_revoked_def)

text \<open>
  \<open>revoke\<close> is one atomic change of the keystore: whatever the file system does, afterwards the disk
  holds the contents it held, if the command returned an error, and otherwise these with every
  pairing of the name marked revoked with its push pending and everything else, the order
  included, as it was. It succeeds only if a pairing has the name, and touches nothing but the disk.
\<close>
lemma revoke_marks_exactly_the_named:
  assumes "ks_ok (e_ks env)" "disk env cfg w = Inr (Some c)" "wf_contents c"
    and "revoke_command env cfg name w = (r, out, w')"
  shows "disk env cfg w' = Inr (Some (case r of Inl _ \<Rightarrow> c | Inr _ \<Rightarrow>
        c\<lparr>pairings := map (\<lambda>p. if phone_name p = name then p\<lparr>revoked := True, revoke_pending := True\<rparr> else p)
            (pairings c)\<rparr>))
     \<and> (r = Inr () \<longrightarrow> (\<exists>p \<in> set (pairings c). phone_name p = name) \<and> out = [RevokedLine name])
     \<and> w_os w' = w_os w"
  using revoke_command_rewrites [OF assms] by (simp add: ks_rewritten_def os_kept_def mark_revoked_def)

text \<open>
  C21: A revoked phone stays out of a server started afterwards: if every pairing of a certificate
  hash has the revoked name, then under every interleaving no connection of a certificate with this
  hash is ever served, and the acceptor of every later accept rejects the certificate.
\<close>
theorem revoked_phone_stays_out:
  assumes "ks_ok (e_ks env)" "disk env cfg w = Inr (Some c)" "wf_contents c"
    and "revoke_command env cfg name w = (Inr (), out, w1)"
    and "\<forall>p \<in> set (pairings c). client_spki p = h \<longrightarrow> phone_name p = name"
    and "server_start env cfg hs w1 = (Inr st, w2)"
    and "net_steps env tls_accept wf_addr (up st w2) s"
  shows "(\<forall>ns buf t. Serving h ns buf t \<notin> set (sy_tasks s))
     \<and> (\<forall>st' a leaf. sy_server s = Some st' \<longrightarrow> build_acceptor env st' = Inr a \<longrightarrow>
           extract_spki_hash (e_x509 env) leaf = Inr h \<longrightarrow>
           verify_client_cert (e_x509 env) (sc_verifier a) leaf \<noteq> Inr ())"
proof -
  let ?c = "mark_revoked (\<lambda>p. phone_name p = name) c"
  have rw: "ks_rewritten env cfg w (Inr ()) w1 c ?c" using revoke_command_rewrites [OF assms(1-4)] by simp
  obtain i where "keeps_view env i cfg hs (core_view ?c) st w2"
    using started_on [OF assms(1) rw _ assms(6)] assms(3) by auto
  then have v: "server_holds (keeps_view env i cfg hs (core_view ?c)) s" "serves_only ?c (sy_tasks s)"
    using net_steps_view [OF assms(7), of i cfg hs ?c] by (simp_all add: server_holds_def up_def)
  have h: "active_pairing ?c h = None" by (rule mark_revoked_inactive [OF assms(5)])
  have "Serving h ns buf t \<notin> set (sy_tasks s)" for ns buf t
    using v(2) h by (fastforce simp: serves_only_def list_all_iff)
  moreover have "verify_client_cert (e_x509 env) (sc_verifier a) leaf \<noteq> Inr ()"
    if "sy_server s = Some st'" "build_acceptor env st' = Inr a" "extract_spki_hash (e_x509 env) leaf = Inr h"
    for st' a leaf
    using v(1) that keeps_view_rejects [OF _ h that(2,3)] by (auto simp: server_holds_def keeps_view_def)
  ultimately show ?thesis by blast
qed

lemma record_address_new:
  "fst (record_address h a ps) \<longleftrightarrow> (\<exists>p \<in> set ps. client_spki p = h \<and> last_known_address p \<noteq> Some a)"
  by (induction ps) auto

text \<open>
  C22: But a running server does not see the revocation, and undoes it: \<open>revoke\<close> changes the disk and
  not the memory of the server, so after it succeeded the revoked phone is still served, and when it
  connects from another address than the cached one the server saves its memory, so that the
  phone is an active pairing on disk again. A server started later lets it in.
\<close>
theorem running_server_undoes_revocation:
  assumes "ks_ok (e_ks env)" "disk env cfg w = Inr (Some (contents st))" "wf_contents (contents st)" "config st = cfg"
    and "revoke_command env cfg name w = (Inr (), out, w1)"
    and "active_pairing (contents st) h \<noteq> None" "peer_spki_from_tls env t = Inr h" "wf_addr a"
    and "\<exists>p \<in> set (pairings (contents st)). client_spki p = h \<and> last_known_address p \<noteq> Some a"
    and "conn_start env t a st w1 = (u, t', st', w2)"
    and "fst (state_save env st' w1) = Inr ()"
  shows "u = Inr h \<and> (\<exists>c2. disk env cfg w2 = Inr (Some c2) \<and> active_pairing c2 h \<noteq> None
     \<and> core_view c2 = core_view (contents st))"
proof -
  obtain ps where ra: "record_address h a (pairings (contents st)) = (True, ps)"
    using assms(9) [folded record_address_new] by (cases "record_address h a (pairings (contents st))") auto
  let ?c = "(contents st)\<lparr>pairings := ps\<rparr>"
  have st': "u = Inr h" "st' = st\<lparr>contents := ?c\<rparr>" "w2 = snd (state_save env st' w1)"
    using assms(6,7,10) ra by (auto simp: conn_start_def snapshot_def state_write_def map_err_def Let_def split: option.splits)
  have "wf_contents ?c"
    using assms(3,8) record_address_wf [OF ra] by (simp add: wf_contents_def)
  then have "disk env cfg w2 = Inr (Some ?c)"
    using state_save_disk [OF assms(1), of st' w1] assms(4,11) st' by simp
  moreover have "core_view ?c = core_view (contents st)"
    using record_address_core [OF ra] by (simp add: core_view_def)
  ultimately show ?thesis using st'(1) core_view_active [of ?c "contents st" h] assms(6) by auto
qed

lemma broadcast_output:
  assumes "require_keystore env cfg w = (Inr c, w1)" "uninstall_revoke_broadcast env connect cfg w = (Inr (), out, w')"
  shows "if pairings c = [] then out = [NothingToBroadcastLine]
     else (\<exists>ls u. out = MarkedLine (length (pairings c)) # ls
              @ [SummaryLine 0 u (length (filter (\<lambda>p. last_known_address p = None) (pairings c))) (length (pairings c)), NoteLine]
            \<and> length ls = length (pairings c)
            \<and> u + length (filter (\<lambda>p. last_known_address p = None) (pairings c)) = length (pairings c))"
proof -
  let ?ts = "map (\<lambda>p. (phone_name p, last_known_address p)) (pairings c)"
  obtain ls u n where b: "broadcast connect ?ts 0 0 = (ls, u, n)" by (cases "broadcast connect ?ts 0 0")
  from broadcast_counts [OF b] have "length ls = length (pairings c)" "u + n = length (pairings c)"
    "n = length (filter (\<lambda>p. last_known_address p = None) (pairings c))"
    by (simp_all add: filter_map o_def)
  with assms b show ?thesis
    by (auto simp: uninstall_revoke_broadcast_def Let_def split: prod.splits sum.splits if_splits)
qed

text \<open>
  C32: The uninstaller locks every phone out before the keystore is wiped: its change of the keystore
  is all or nothing and does not depend on what the network answers; once it has returned \<open>Ok\<close>, a
  server started on the keystore never serves anyone, under any interleaving, and the summary it
  printed counts every pairing once, as unreachable or as one without an address.
\<close>
theorem uninstall_locks_everyone_out:
  assumes "ks_ok (e_ks env)" "disk env cfg w = Inr (Some c)" "wf_contents c"
    and "uninstall_revoke_broadcast env connect cfg w = (r, out, w1)"
  shows "case r of
      Inl _ \<Rightarrow> disk env cfg w1 = disk env cfg w
    | Inr _ \<Rightarrow> (\<exists>c1. disk env cfg w1 = Inr (Some c1) \<and> filter is_active (pairings c1) = []
          \<and> length (pairings c1) = length (pairings c))
        \<and> (\<forall>st w2 s h ns buf t. server_start env cfg (hs :: 'o Handlers) w1 = (Inr st, w2) \<longrightarrow>
              net_steps env (acc :: 'c tls_accept) wf_addr (up st w2) s \<longrightarrow> Serving h ns buf t \<notin> set (sy_tasks s))
        \<and> (pairings c = [] \<and> out = [NothingToBroadcastLine]
            \<or> (\<exists>ls u. out = MarkedLine (length (pairings c)) # ls
                 @ [SummaryLine 0 u (length (filter (\<lambda>p. last_known_address p = None) (pairings c))) (length (pairings c)), NoteLine]
               \<and> length ls = length (pairings c)
               \<and> u + length (filter (\<lambda>p. last_known_address p = None) (pairings c)) = length (pairings c)))"
proof -
  let ?c = "mark_revoked (\<lambda>p. True) c"
  note rw = uninstall_rewrites [OF assms]
  show ?thesis
  proof (cases r)
    case (Inl e)
    with rw assms(2) show ?thesis by (simp add: ks_rewritten_def)
  next
    case (Inr u)
    with rw have rw1: "ks_rewritten env cfg w (Inr ()) w1 c ?c" by simp
    then have d: "disk env cfg w1 = Inr (Some ?c)" by (simp add: ks_rewritten_def)
    have len: "length (pairings ?c) = length (pairings c)" by simp
    have act: "filter is_active (pairings ?c) = []" by (simp add: mark_revoked_active)
    have none: "active_pairing ?c h = None" for h by (rule mark_revoked_inactive) simp
    have served: "Serving h ns buf t \<notin> set (sy_tasks s)"
      if s: "server_start env cfg hs w1 = (Inr st, w2)" "net_steps env acc wf_addr (up st w2) s" for st w2 s h ns buf t
    proof -
      obtain i where "keeps_view env i cfg hs (core_view ?c) st w2"
        using started_on [OF assms(1) rw1 _ s(1)] assms(3) by auto
      then have "serves_only ?c (sy_tasks s)"
        using net_steps_view [OF s(2), of i cfg hs ?c] by (simp add: server_holds_def up_def)
      with none show ?thesis by (fastforce simp: serves_only_def list_all_iff)
    qed
    obtain w0 where rk: "require_keystore env cfg w = (Inr c, w0)"
    proof (cases "require_keystore env cfg w")
      case (Pair q w0)
      with assms(4) Inr require_keystore_disk [OF Pair] assms(2) that show ?thesis
        by (cases q) (auto simp: uninstall_revoke_broadcast_def)
    qed
    have out: "uninstall_revoke_broadcast env connect cfg w = (Inr (), out, w1)" using assms(4) Inr by simp
    from broadcast_output [OF rk out] have "pairings c = [] \<and> out = [NothingToBroadcastLine]
        \<or> (\<exists>ls u. out = MarkedLine (length (pairings c)) # ls
             @ [SummaryLine 0 u (length (filter (\<lambda>p. last_known_address p = None) (pairings c))) (length (pairings c)), NoteLine]
           \<and> length ls = length (pairings c)
           \<and> u + length (filter (\<lambda>p. last_known_address p = None) (pairings c)) = length (pairings c))"
      by (cases "pairings c = []") auto
    with Inr d act len served show ?thesis by auto
  qed
qed

subsection \<open>The credential time\<close>

text \<open>
  C33: \<open>reauth-now\<close> opens the gate of the next server start and no other: on success the disk holds the
  contents it held with the time of the command, and a server started on it lets state changes pass
  exactly before the end of the window from that time (always with the interval off); on an error the
  disk is as it was. A server that is already running keeps the old time in memory: the command
  has no access to it.
\<close>
theorem reauth_now_opens_gate:
  assumes "ks_ok (e_ks env)" "disk env cfg w = Inr (Some c)" "wf_contents c"
    and "reauth_now env cfg w = (r, out, w1)"
  shows "case r of
      Inl _ \<Rightarrow> disk env cfg w1 = disk env cfg w
    | Inr _ \<Rightarrow> disk env cfg w1 = Inr (Some (c\<lparr>ks_last_authenticated_at_unix_ms := fst (unix_ms_now w)\<rparr>))
        \<and> (\<forall>st w2 now. server_start env cfg (hs :: 'o Handlers) w1 = (Inr st, w2) \<longrightarrow>
              (evaluate now (ks_last_authenticated_at_unix_ms (contents st)) (reauth_interval_days (contents st)) = NeedsReauth
               \<longleftrightarrow> reauth_interval_days c \<noteq> 0
                 \<and> min (unat (fst (unix_ms_now w)) + unat (reauth_interval_days c) * 86400000) (2 ^ 64 - 1) \<le> unat now))"
proof -
  obtain now where rw: "ks_rewritten env cfg w r w1 c (c\<lparr>ks_last_authenticated_at_unix_ms := now\<rparr>)"
    "r = Inr () \<longrightarrow> now = fst (unix_ms_now w)"
    using reauth_now_rewrites [OF assms] by blast
  show ?thesis
  proof (cases r)
    case (Inl e)
    with rw assms(2) show ?thesis by (simp add: ks_rewritten_def)
  next
    case (Inr u)
    with rw have d: "ks_rewritten env cfg w (Inr ()) w1 c (c\<lparr>ks_last_authenticated_at_unix_ms := fst (unix_ms_now w)\<rparr>)"
      by simp
    have wf: "wf_contents (c\<lparr>ks_last_authenticated_at_unix_ms := fst (unix_ms_now w)\<rparr>)"
      using assms(3) by (simp add: wf_contents_def)
    have "contents st = c\<lparr>ks_last_authenticated_at_unix_ms := fst (unix_ms_now w)\<rparr>"
      if "server_start env cfg hs w1 = (Inr st, w2)" for st w2
      using started_on [OF assms(1) d wf that] by simp
    with d Inr show ?thesis by (auto simp: ks_rewritten_def evaluate_needs)
  qed
qed

text \<open>
  C34: A fresh daemon starts locked: the keystore that \<open>pair\<close> creates has never seen a credential prompt
  (time 0) and an interval of seven days, and pairing does not change this, so from the eighth day of
  1970 on the first command of a newly paired phone is answered \<open>RequiresReauth\<close>, until \<open>reauth-now\<close>
  has been run.
\<close>
theorem fresh_daemon_starts_locked:
  assumes "disk env cfg w = Inr None" "bootstrap env cfg w = (Inr c, w')"
    and "contents st = add_pairing p c" "f \<in> {Sleep, Lock, PowerOff}"
    and "604800000 \<le> unat (fst (unix_ms_now w0))"
  shows "dispatch env h f n st w0 = (DaemonFrame.Error n RequiresReauth, st, snd (unix_ms_now w0))"
proof -
  obtain x w1 where l: "on_fs (ks_load (e_ks env) (keystore_path cfg)) w = (x, w1)" by fastforce
  have "x = Inr None \<or> (\<exists>e. x = Inl e)"
    using on_fs_pair [OF l] ks_load_reads [of "e_ks env" "keystore_path cfg" "w_fs w"] assms(1) by (auto simp: disk_def)
  then obtain b where "c = from_identity b"
    using assms(2) l by (auto simp: bootstrap_def split: sum.splits)
  then have "ks_last_authenticated_at_unix_ms (contents st) = 0" "reauth_interval_days (contents st) = 7"
    using assms(3) by (simp_all add: add_pairing_def from_identity_def)
  moreover obtain now w2 where "unix_ms_now w0 = (now, w2)" by fastforce
  moreover from this assms(5) have "evaluate now 0 7 = NeedsReauth" by (simp add: evaluate_needs)
  ultimately show ?thesis
    using assms(4) by (auto simp: dispatch_def gated_def snapshot_def Let_def block_state_change_def)
qed

end
