(* ===== verification/System_Run.thy ===== *)
theory System_Run
  imports System_Properties
begin

section \<open>The daemon, evaluated\<close>

text \<open>
  The properties of the system applied to a daemon with one paired phone: a disk that holds its
  keystore and does not fail, the server started on it, the phone connecting, and the local commands.
\<close>

text \<open>A data directory with the keystore of given contents and a file system without failures.\<close>

definition home_disk :: "KeystoreContents \<Rightarrow> fs \<Rightarrow> bool" where
  "home_disk c s \<longleftrightarrow> files s = [sample_path \<mapsto> sample_seal (2 # put_contents c)]
     \<and> set (dirs s) = {[], [''data'']} \<and> io_script s = []"

definition small :: "KeystoreContents \<Rightarrow> bool" where
  "small c \<longleftrightarrow> wf_contents c \<and> length (put_contents c) < 2 ^ 32 - 8"

lemma home_tmp [simp]: "join [''data''] (tmp_name pid) \<noteq> sample_path"
  by (simp add: join_def tmp_name_def)

lemma small_save:
  "small c \<Longrightarrow> ks_save (sample_env pid) sample_path c s =
     replace_file (join [''data''] (tmp_name pid)) sample_path (sample_seal (2 # put_contents c)) s"
  by (simp add: ks_save_def sample_env_def keystore_codec_def KEYSTORE_FORMAT_VERSION_def small_def
      platform_encrypt_def windows_encrypt_def sample_dpapi_def u32_try_from_def parent_def)

lemma home_disk_save_pid:
  assumes "home_disk c s" "small c'"
  shows "\<exists>s'. ks_save (sample_env pid) sample_path c' s = (Inr (), s') \<and> home_disk c' s'"
  using assms
  by (simp add: small_save replace_file_def fs_write_def fs_rename_def can_create_def home_disk_def next_outcome_calm
      join_def fun_eq_iff)

lemmas home_disk_save = home_disk_save_pid [where pid = 7]

lemma home_disk_stored:
  assumes "home_disk c s" "small c"
  shows "ks_stored (sample_env 7) sample_path s = Inr (Some c)"
proof -
  obtain s' where s': "ks_save (sample_env 7) sample_path c s = (Inr (), s')" "home_disk c s'"
    using home_disk_save [OF assms] by blast
  have "wf_contents c" using assms(2) by (simp only: small_def)
  from ks_save_stores [OF sample_env_ok this, of 7 sample_path s] s'(1)
  have "ks_stored (sample_env 7) sample_path s' = Inr (Some c)" by simp
  moreover have "files s = files s'" using s'(2) assms(1) by (simp only: home_disk_def)
  from ks_stored_files [OF this] have "ks_stored (sample_env 7) sample_path s = ks_stored (sample_env 7) sample_path s'" .
  ultimately show ?thesis by simp
qed

lemma home_disk_load:
  assumes "home_disk c s" "small c"
  shows "ks_load (sample_env 7) sample_path s = (Inr (Some c), s)"
proof -
  obtain b where "files s sample_path = Some b" "fs_read sample_path s = (Inr b, s)"
    using assms(1) by (simp add: home_disk_def fs_read_def next_outcome_calm)
  with home_disk_stored [OF assms] show ?thesis
    by (auto simp: ks_load_def ks_stored_def split: sum.splits)
qed

definition phone_world :: "KeystoreContents \<Rightarrow> 'o world \<Rightarrow> bool" where
  "phone_world c w \<longleftrightarrow> home_disk c (w_fs w) \<and> small c"

lemma phone_world_disk: "phone_world c w \<Longrightarrow> disk sample_daemon home w = Inr (Some c)"
  by (simp add: phone_world_def disk_def sample_daemon_def home_disk_stored)

lemma phone_world_load:
  "phone_world c w \<Longrightarrow> on_fs (ks_load (e_ks sample_daemon) (keystore_path home)) w = (Inr (Some c), w)"
  using home_disk_load [of c "w_fs w"] by (simp add: on_fs_def phone_world_def sample_daemon_def)

lemma phone_world_save:
  "phone_world c w \<Longrightarrow> small c' \<Longrightarrow>
     \<exists>w'. on_fs (ks_save (e_ks sample_daemon) (keystore_path home) c') w = (Inr (), w') \<and> phone_world c' w'"
  using home_disk_save [of c "w_fs w" c'] by (auto simp: on_fs_def phone_world_def sample_daemon_def)

lemma phone_world_start:
  assumes "phone_world c w" "device_from_bytes sample_rcgen sample_x509 (device_identity_bytes c) = Inr i"
  shows "\<exists>w'. server_start sample_daemon home stub_handlers w = (Inr (with_handlers c i home stub_handlers), w')
     \<and> phone_world c w'"
proof -
  have h: "home_disk c (w_fs w)" using assms(1) by (simp add: phone_world_def)
  let ?w1 = "w\<lparr>w_fs := (w_fs w)\<lparr>dirs := dirs (w_fs w) @ ancestors [''data'']\<rparr>\<rparr>"
  have e: "on_fs (ensure_data_dir (data_dir home)) w = (Inr (), ?w1)"
    using h by (simp add: on_fs_def ensure_data_dir_def fs_create_dir_all_def for_test_def next_outcome_calm
        home_disk_def)
  have p: "phone_world c ?w1" using assms(1) by (auto simp: phone_world_def home_disk_def)
  have "e_rcgen sample_daemon = sample_rcgen" "e_x509 sample_daemon = sample_x509"
    by (simp_all add: sample_daemon_def)
  with e phone_world_load [OF p] assms(2) p show ?thesis
    by (simp add: server_start_def map_err_def stub_handlers_def stub_prepare_def on_os_def phone_world_def)
qed

lemma phone_world_require: "phone_world c w \<Longrightarrow> require_keystore sample_daemon home w = (Inr c, w)"
  using phone_world_load [of c w] by (simp add: require_keystore_def)

lemma phone_world_save_cmd:
  "phone_world c w \<Longrightarrow> small c' \<Longrightarrow> \<exists>w'. ks_save_cmd sample_daemon home c' w = (Inr (), w') \<and> phone_world c' w'"
  using phone_world_save [of c w c'] by (auto simp: ks_save_cmd_def map_err_def)

subsection \<open>Alice's daemon\<close>

definition alice_world :: "unit world" where
  "alice_world =
     \<lparr>w_fs = \<lparr>files = [sample_path \<mapsto> sample_seal (2 # put_contents sample_contents)], dirs = [[], [''data'']], io_script = []\<rparr>,
      w_clock = (\<lambda>i. 1000000000), w_ticks = 0, w_rng = 0, w_os = ()\<rparr>"

definition revoked_contents :: KeystoreContents where
  "revoked_contents = mark_revoked (\<lambda>p. phone_name p = ''Alice'') sample_contents"

definition alice_server :: "unit SharedState" where
  "alice_server = with_handlers sample_contents
     \<lparr>id_key_pkcs8_der = [7, 7], id_cert_der = [0x30, 7, 7], id_spki_hash = SpkiHash (7 # 7 # replicate 30 0)\<rparr>
     home stub_handlers"

abbreviation new_addr :: SocketAddr where "new_addr \<equiv> V4 [10, 0, 0, 9] 4"

lemmas put_defs = put_contents_def put_vec_def put_list_def put_pairing_def put_string_def put_option_def
  put_len_def put_u8_def put_u64_def put_u16_def put_bool_def put_tag_def put_varint.simps

lemma small_sample [simp]: "small sample_contents"
  by (simp add: small_def) (simp add: sample_contents_def put_defs)

lemma small_days [simp]: "small (sample_contents\<lparr>ks_last_authenticated_at_unix_ms := 1000000000\<rparr>)"
proof -
  have "wf_contents (sample_contents\<lparr>ks_last_authenticated_at_unix_ms := 1000000000\<rparr>)"
    using sample_contents_wf by (simp add: wf_contents_def)
  then show ?thesis by (simp add: small_def) (simp add: sample_contents_def put_defs)
qed

lemma small_revoked [simp]: "small revoked_contents"
proof -
  have "wf_contents revoked_contents" by (simp add: revoked_contents_def)
  then show ?thesis by (simp add: small_def) (simp add: revoked_contents_def mark_revoked_def sample_contents_def put_defs)
qed

lemma alice_phone_world [simp]: "phone_world sample_contents alice_world"
  by (simp add: phone_world_def alice_world_def home_disk_def)

lemma alice_start:
  "phone_world c w \<Longrightarrow> device_identity_bytes c = device_identity_bytes sample_contents \<Longrightarrow>
     \<exists>w'. server_start sample_daemon home stub_handlers w
       = (Inr (with_handlers c (identity alice_server) home stub_handlers), w') \<and> phone_world c w'"
  by (rule phone_world_start)
    (simp_all add: device_from_bytes_def sample_rcgen_def sample_x509_def extract_spki_hash_def compute_spki_hash_def
      device_identity_bytes_def sample_contents_def alice_server_def with_handlers_def map_err_def)

lemma alice_server_fields [simp]:
  "contents alice_server = sample_contents" "config alice_server = home"
  "active_pairing sample_contents alice = Some (hd (pairings sample_contents))"
  using alice_active [of "stub_handlers :: unit Handlers"]
  by (simp_all add: alice_server_def with_handlers_def)

lemma alice_revoke:
  "\<exists>w'. revoke_command sample_daemon home ''Alice'' alice_world = (Inr (), [RevokedLine ''Alice''], w')
     \<and> phone_world revoked_contents w'"
proof -
  obtain w' where "ks_save_cmd sample_daemon home revoked_contents alice_world = (Inr (), w')" "phone_world revoked_contents w'"
    using phone_world_save_cmd [OF alice_phone_world small_revoked] by blast
  moreover have "list_ex (\<lambda>p. phone_name p = ''Alice'') (pairings sample_contents)"
    by (simp add: sample_contents_def)
  ultimately show ?thesis
    using phone_world_require [OF alice_phone_world]
    by (simp add: revoke_command_def revoked_contents_def)
qed

lemma revoke_marks_exactly_the_named_example:
  "\<exists>w'. revoke_command sample_daemon home ''Alice'' alice_world = (Inr (), [RevokedLine ''Alice''], w')
     \<and> disk sample_daemon home w' = Inr (Some revoked_contents)"
proof -
  obtain w' where r: "revoke_command sample_daemon home ''Alice'' alice_world = (Inr (), [RevokedLine ''Alice''], w')"
    using alice_revoke by blast
  from revoke_marks_exactly_the_named [OF sample_daemon_ks phone_world_disk [OF alice_phone_world] sample_contents_wf r] r
  show ?thesis by (simp add: revoked_contents_def mark_revoked_def)
qed

theorem revoked_phone_stays_out_witness:
  "\<exists>w1 st w2. revoke_command sample_daemon home ''Alice'' alice_world = (Inr (), [RevokedLine ''Alice''], w1)
     \<and> server_start sample_daemon home stub_handlers w1 = (Inr st, w2)
     \<and> (\<forall>a. build_acceptor sample_daemon st = Inr a \<longrightarrow>
           verify_client_cert sample_x509 (sc_verifier a) alice_cert \<noteq> Inr ())"
proof -
  obtain w1 where r: "revoke_command sample_daemon home ''Alice'' alice_world = (Inr (), [RevokedLine ''Alice''], w1)"
    "phone_world revoked_contents w1"
    using alice_revoke by blast
  have id: "device_identity_bytes revoked_contents = device_identity_bytes sample_contents"
    by (simp add: device_identity_bytes_def revoked_contents_def)
  obtain st w2 where st: "server_start sample_daemon home stub_handlers w1 = (Inr st, w2)"
    using alice_start [OF r(2) id] by blast
  have named: "\<forall>p \<in> set (pairings sample_contents). client_spki p = alice \<longrightarrow> phone_name p = ''Alice''"
    by (simp add: sample_contents_def)
  have leaf: "extract_spki_hash sample_x509 alice_cert = Inr alice" "e_x509 sample_daemon = sample_x509"
    by (simp_all add: extract_spki_hash_def compute_spki_hash_def sample_x509_def alice_cert_def alice_def sample_daemon_def)
  from revoked_phone_stays_out [OF sample_daemon_ks phone_world_disk [OF alice_phone_world] sample_contents_wf r(1)
      named st rtranclp.rtrancl_refl [of "net_step sample_daemon sample_accept wf_addr" "up st w2"]] leaf
  have "build_acceptor sample_daemon st = Inr a \<Longrightarrow> verify_client_cert sample_x509 (sc_verifier a) alice_cert \<noteq> Inr ()" for a
    by (simp add: up_def)
  with r(1) st show ?thesis by blast
qed

text \<open>Alice connects from a new address after the revocation, to the server that is still running.\<close>

lemma alice_moves:
  assumes "phone_world c w"
  shows "\<exists>t' st' w'. conn_start sample_daemon (sample_stream (Some [alice_cert]) []) new_addr alice_server w
       = (Inr alice, t', st', w')
     \<and> fst (state_save sample_daemon st' w) = Inr ()"
proof -
  let ?c = "sample_contents\<lparr>pairings := [(hd (pairings sample_contents))\<lparr>last_known_address := Some new_addr\<rparr>]\<rparr>"
  have ra: "record_address alice new_addr (pairings sample_contents) = (True, pairings ?c)"
    by (simp add: sample_contents_def alice_def)
  have "wf_contents ?c"
    using sample_contents_wf by (simp add: wf_contents_def sample_contents_def wf_pairing_def)
  then have "small ?c" by (simp add: small_def) (simp add: sample_contents_def put_defs)
  from phone_world_save [OF assms this] obtain w' where
    "state_save sample_daemon (alice_server\<lparr>contents := ?c\<rparr>) w = (Inr (), w')"
    by (auto simp: state_save_def snapshot_def)
  then show ?thesis
    using ra alice_spki [of "[]"] by (simp add: conn_start_def snapshot_def state_write_def map_err_def)
qed

theorem running_server_undoes_revocation_witness:
  "\<exists>w1 u t' st' w2 c2. revoke_command sample_daemon home ''Alice'' alice_world = (Inr (), [RevokedLine ''Alice''], w1)
     \<and> disk sample_daemon home w1 = Inr (Some revoked_contents) \<and> active_pairing revoked_contents alice = None
     \<and> conn_start sample_daemon (sample_stream (Some [alice_cert]) []) new_addr alice_server w1 = (u, t', st', w2)
     \<and> disk sample_daemon home w2 = Inr (Some c2) \<and> active_pairing c2 alice \<noteq> None"
proof -
  obtain w1 where r: "revoke_command sample_daemon home ''Alice'' alice_world = (Inr (), [RevokedLine ''Alice''], w1)"
    "phone_world revoked_contents w1"
    using alice_revoke by blast
  obtain u t' st' w2 where c: "conn_start sample_daemon (sample_stream (Some [alice_cert]) []) new_addr alice_server w1
      = (u, t', st', w2)" "fst (state_save sample_daemon st' w1) = Inr ()"
    using alice_moves [OF r(2)] by blast
  have d: "disk sample_daemon home alice_world = Inr (Some (contents alice_server))"
    using phone_world_disk [OF alice_phone_world] by simp
  have wf: "wf_contents (contents alice_server)" "wf_addr new_addr" "active_pairing (contents alice_server) alice \<noteq> None"
    by simp_all
  have p: "\<exists>p \<in> set (pairings (contents alice_server)). client_spki p = alice \<and> last_known_address p \<noteq> Some new_addr"
    by (simp add: sample_contents_def alice_def)
  from running_server_undoes_revocation [OF sample_daemon_ks d wf(1) alice_server_fields(2) r(1) wf(3)
      alice_spki wf(2) p c]
  obtain c2 where "disk sample_daemon home w2 = Inr (Some c2)" "active_pairing c2 alice \<noteq> None" by blast
  moreover have "active_pairing revoked_contents alice = None"
    unfolding revoked_contents_def by (rule mark_revoked_inactive) (simp add: sample_contents_def)
  ultimately show ?thesis using r(1) c(1) phone_world_disk [OF r(2)] by blast
qed

subsection \<open>The network and the other commands\<close>

lemma alice_acceptor:
  "\<exists>a. build_acceptor sample_daemon alice_server = Inr a \<and> sample_accept a [] = Inr (sample_stream (Some [alice_cert]) [])"
proof -
  obtain a where a: "build_acceptor sample_daemon alice_server = Inr a"
    by (simp add: build_acceptor_def server_config_for_pinned_clients_def server_config_def sample_daemon_def
        sample_rustls_def Let_def identity_to_rustls_def)
  have "cv_mode (sc_verifier a) = Pinned (with_pins [alice])"
    using build_acceptor_mode [OF a] by (simp add: sample_contents_def is_active_def alice_def)
  moreover have "extract_spki_hash sample_x509 alice_cert = Inr alice"
    by (simp add: extract_spki_hash_def compute_spki_hash_def sample_x509_def alice_cert_def alice_def)
  ultimately have "sample_accept a [] = Inr (sample_stream (Some [alice_cert]) [])"
    by (simp add: sample_accept_def verify_client_cert_def with_pins_def pinset_contains_def)
  with a show ?thesis by blast
qed

lemma alice_server_started:
  "\<exists>w. server_start sample_daemon home stub_handlers alice_world = (Inr alice_server, w)"
  using alice_start [OF alice_phone_world refl] by (auto simp: alice_server_def with_handlers_def)

lemma connection_alone_runs_to_its_end_example:
  "\<exists>a st' w'. net_steps sample_daemon sample_accept wf_addr
       \<lparr>sy_server = Some alice_server, sy_tasks = [Accepted a [] new_addr], sy_world = alice_world\<rparr>
       \<lparr>sy_server = Some st', sy_tasks = [], sy_world = w'\<rparr>"
proof -
  obtain a where "sample_accept a [] = Inr (sample_stream (Some [alice_cert]) [])" using alice_acceptor by blast
  obtain r st' w' where h: "handle_connection sample_daemon sample_accept a [] new_addr alice_server alice_world = (r, st', w')"
    by (cases "handle_connection sample_daemon sample_accept a [] new_addr alice_server alice_world")
  let ?s = "\<lparr>sy_server = Some alice_server, sy_tasks = [Accepted a [] new_addr], sy_world = alice_world\<rparr>"
  have "sy_server ?s = Some alice_server" "sy_tasks ?s = [] @ Accepted a [] new_addr # []" by simp_all
  from connection_alone_runs_to_its_end [OF this, of sample_daemon sample_accept r st' w' wf_addr] h
  show ?thesis by auto
qed

theorem uninstall_locks_everyone_out_witness:
  "\<exists>r out w1. uninstall_revoke_broadcast sample_daemon (\<lambda>a. ConnectTimeout) home alice_world = (Inr (), out, w1)
     \<and> (\<exists>ls u. out = MarkedLine 1 # ls @ [SummaryLine 0 u 0 1, NoteLine] \<and> u = 1)
     \<and> (\<exists>c1. disk sample_daemon home w1 = Inr (Some c1) \<and> filter is_active (pairings c1) = [])"
proof -
  have "mark_revoked (\<lambda>p. True) sample_contents = revoked_contents"
    by (simp add: revoked_contents_def mark_revoked_def sample_contents_def)
  then obtain w1 where s: "ks_save_cmd sample_daemon home (mark_revoked (\<lambda>p. True) sample_contents) alice_world = (Inr (), w1)"
    using phone_world_save_cmd [OF alice_phone_world small_revoked] by auto
  obtain out where u: "uninstall_revoke_broadcast sample_daemon (\<lambda>a. ConnectTimeout) home alice_world = (Inr (), out, w1)"
    using phone_world_require [OF alice_phone_world] s
    by (simp add: uninstall_revoke_broadcast_def Let_def split: prod.split) (simp add: sample_contents_def)
  have n: "pairings sample_contents \<noteq> []" "length (pairings sample_contents) = 1"
    "filter (\<lambda>p. last_known_address p = None) (pairings sample_contents) = []"
    by (simp_all add: sample_contents_def)
  from uninstall_locks_everyone_out [OF sample_daemon_ks phone_world_disk [OF alice_phone_world] sample_contents_wf u,
      where hs = stub_handlers and acc = sample_accept] u n
  show ?thesis by auto
qed

theorem reauth_now_opens_gate_witness:
  "\<exists>out w1. reauth_now sample_daemon home alice_world = (Inr (), out, w1)
     \<and> disk sample_daemon home w1 = Inr (Some (sample_contents\<lparr>ks_last_authenticated_at_unix_ms := 1000000000\<rparr>))"
proof -
  obtain w where now: "unix_ms_now alice_world = (1000000000, w)" "w = snd (unix_ms_now alice_world)"
    by (simp add: unix_ms_now_def unix_ms_def alice_world_def)
  have "phone_world sample_contents w"
    using alice_phone_world by (simp add: phone_world_def now(2))
  from phone_world_save_cmd [OF this small_days] obtain w1 where
    "ks_save_cmd sample_daemon home (sample_contents\<lparr>ks_last_authenticated_at_unix_ms := 1000000000\<rparr>) w = (Inr (), w1)"
    by blast
  then obtain out where r: "reauth_now sample_daemon home alice_world = (Inr (), out, w1)"
    using phone_world_require [OF alice_phone_world] now(1)
    by (simp add: reauth_now_def run_credential_prompt_stub_def Let_def)
  from reauth_now_opens_gate [OF sample_daemon_ks phone_world_disk [OF alice_phone_world] sample_contents_wf r,
      where hs = stub_handlers]
  have "disk sample_daemon home w1
      = Inr (Some (sample_contents\<lparr>ks_last_authenticated_at_unix_ms := fst (unix_ms_now alice_world)\<rparr>))" by simp
  with r show ?thesis by (simp add: now(1))
qed

theorem fresh_daemon_starts_locked_witness:
  "dispatch sample_daemon bob Sleep 1
     \<lparr>contents = paired_contents, identity = identity alice_server, config = home, handlers = stub_handlers\<rparr> alice_world
   = (DaemonFrame.Error 1 RequiresReauth,
      \<lparr>contents = paired_contents, identity = identity alice_server, config = home, handlers = stub_handlers\<rparr>,
      snd (unix_ms_now alice_world))"
proof (rule fresh_daemon_starts_locked [OF _ home_bootstrap])
  show "disk sample_daemon home home_world = Inr None"
    by (simp add: disk_def ks_stored_def home_world_def home_fs_def sample_fs_def)
qed (simp_all add: paired_contents_def unix_ms_now_def unix_ms_def alice_world_def)

end
