(* ===== verification/Daemon_Service.thy ===== *)
theory Daemon_Service
  imports Server_Listener
begin

section \<open>The Windows service\<close>

text \<open>
  \<open>daemon/src/service.rs\<close>: the control handler, the life of the service process, and the commands that
  register and remove it. The service control manager is foreign: \<open>scm\<close> holds its calls, over a state
  of its own. Statuses and the database entry are the values the code passes to it.
\<close>

subsection \<open>The control handler\<close>

datatype ServiceControl = ControlStop | ControlShutdown | Interrogate | OtherControl nat

datatype ServiceControlHandlerResult = NoError | NotImplemented

text \<open>
  The sender of the shutdown signal behind its mutex: \<open>None\<close> is a poisoned mutex, \<open>Some None\<close> a sender
  already taken. \<open>signals\<close> counts the signals sent.
\<close>

record stop_signal =
  shutdown_tx :: "unit option option"
  signals :: nat

definition event_handler :: "ServiceControl \<Rightarrow> stop_signal \<Rightarrow> ServiceControlHandlerResult \<times> stop_signal" where
  "event_handler control s =
     (if control \<in> {ControlStop, ControlShutdown} then
        (NoError,
         (case shutdown_tx s of
            Some (Some tx) \<Rightarrow> s\<lparr>shutdown_tx := Some None, signals := signals s + 1\<rparr>
          | _ \<Rightarrow> s))
      else if control = Interrogate then (NoError, s)
      else (NotImplemented, s))"

fun control_run :: "ServiceControl list \<Rightarrow> stop_signal \<Rightarrow> ServiceControlHandlerResult list \<times> stop_signal" where
  "control_run [] s = ([], s)"
| "control_run (c # cs) s = (case event_handler c s of (r, s') \<Rightarrow> apfst ((#) r) (control_run cs s'))"

subsection \<open>The service process\<close>

datatype ServiceState = StateRunning | StateStopped | StateOther nat

record ServiceStatus =
  current_state :: ServiceState
  controls_accepted :: "ServiceControl list"
  exit_code :: u32

definition status_running :: ServiceStatus where
  "status_running =
     \<lparr>current_state = StateRunning, controls_accepted = [ControlStop, ControlShutdown], exit_code = 0\<rparr>"

definition status_stopped :: "anyhow_error + unit \<Rightarrow> ServiceStatus" where
  "status_stopped result =
     \<lparr>current_state = StateStopped, controls_accepted = [], exit_code = (if is_ok result then 0 else 1)\<rparr>"

definition default_service_config :: "os_paths \<Rightarrow> anyhow_error + Config" where
  "default_service_config paths =
     from_args Windows paths \<lparr>arg_data_dir = None, arg_port = DEFAULT_PORT, arg_bind = IpV4 [0, 0, 0, 0]\<rparr>"

text \<open>The future that the runtime blocks on.\<close>

definition service_body ::
    "daemon_env \<Rightarrow> os_paths \<Rightarrow> 'o winapi \<Rightarrow> 'c tls_accept \<Rightarrow> (SocketAddr \<Rightarrow> io_error + 'c tcp_listener)
       \<Rightarrow> 'o process world \<Rightarrow> (anyhow_error + unit) option \<times> 'o process world" where
  "service_body env paths api tls_accept bind w =
     (case default_service_config paths of
        Inl e \<Rightarrow> (Some (Inl e), w)
      | Inr cfg \<Rightarrow>
          (case bind (bind_addr cfg) of
             Inl e \<Rightarrow> (Some (Inl (Context ''binding TCP listener'' (FromIo e))), w)
           | Inr l \<Rightarrow>
               (case run_with_listener_handlers_shutdown env tls_accept cfg l (platform_handlers Windows api) w of
                  (r, _, w') \<Rightarrow> (r, w'))))"

text \<open>
  The calls of the control manager that a starting process makes: the registration of the handler and
  the reports of a status, each with its answer; \<open>runtime\<close> is the result of building the runtime. The
  result holds the statuses reported, in order; \<open>None\<close> is a service that is still running.
\<close>

record service_host =
  runtime :: "io_error + unit"
  register :: "string + unit"
  set_service_status :: "ServiceStatus \<Rightarrow> string + unit"

definition run_service ::
    "daemon_env \<Rightarrow> os_paths \<Rightarrow> 'o winapi \<Rightarrow> 'c tls_accept \<Rightarrow> (SocketAddr \<Rightarrow> io_error + 'c tcp_listener)
       \<Rightarrow> service_host \<Rightarrow> 'o process world
       \<Rightarrow> (anyhow_error + unit) option \<times> ServiceStatus list \<times> 'o process world" where
  "run_service env paths api tls_accept bind svc w =
     (case runtime svc of
        Inl e \<Rightarrow> (Some (Inl (Context ''tokio runtime'' (FromIo e))), [], w)
      | Inr _ \<Rightarrow>
          (case register svc of
             Inl e \<Rightarrow> (Some (Inl (Context ''registering SCM control handler'' (Anyhow e))), [], w)
           | Inr _ \<Rightarrow>
               (case set_service_status svc status_running of
                  Inl e \<Rightarrow> (Some (Inl (Context ''set_service_status(Running)'' (Anyhow e))), [status_running], w)
                | Inr _ \<Rightarrow>
                    (case service_body env paths api tls_accept bind w of
                       (None, w') \<Rightarrow> (None, [status_running], w')
                     | (Some result, w') \<Rightarrow> (Some result, [status_running, status_stopped result], w')))))"

subsection \<open>Registration\<close>

definition SERVICE_NAME :: string where "SERVICE_NAME = ''wake-my-pc''"
definition SERVICE_DISPLAY_NAME :: string where "SERVICE_DISPLAY_NAME = ''Wake My PC''"
definition SERVICE_DESCRIPTION :: string where
  "SERVICE_DESCRIPTION = ''Listens on LAN for authenticated wake/sleep/lock commands from paired phones.''"

record ServiceInfo =
  si_name :: string
  si_display_name :: string
  own_process :: bool
  auto_start :: bool
  executable_path :: path
  launch_arguments :: "string list"
  account_name :: "string option"

datatype ScmError = Winapi nat | ScmOther string

record 's scm =
  local_computer :: "bool \<Rightarrow> 's \<Rightarrow> (string + unit) \<times> 's"
  create_service :: "ServiceInfo \<Rightarrow> 's \<Rightarrow> (string + unit) \<times> 's"
  set_description :: "string \<Rightarrow> 's \<Rightarrow> (string + unit) \<times> 's"
  open_service :: "string \<Rightarrow> 's \<Rightarrow> (ScmError + unit) \<times> 's"
  query_status :: "'s \<Rightarrow> (string + ServiceState) \<times> 's"
  stop_service :: "'s \<Rightarrow> (string + unit) \<times> 's"
  delete_service :: "'s \<Rightarrow> (string + unit) \<times> 's"

definition service_info :: "path \<Rightarrow> ServiceInfo" where
  "service_info binary_path =
     \<lparr>si_name = SERVICE_NAME, si_display_name = SERVICE_DISPLAY_NAME, own_process = True, auto_start = True,
      executable_path = binary_path, launch_arguments = [''service-run''], account_name = None\<rparr>"

definition install_service :: "'s scm \<Rightarrow> (path \<Rightarrow> bool) \<Rightarrow> path \<Rightarrow> 's \<Rightarrow> (anyhow_error + unit) \<times> 's" where
  "install_service m is_file binary_path s =
     (if \<not> is_file binary_path then (Inl (Anyhow ''binary does not exist''), s)
      else
        (case local_computer m True s of
           (Inl e, s1) \<Rightarrow> (Inl (Context ''opening SCM (need Administrator)'' (Anyhow e)), s1)
         | (Inr _, s1) \<Rightarrow>
             (case create_service m (service_info binary_path) s1 of
                (Inl e, s2) \<Rightarrow>
                  (Inl (Context ''creating service (already installed? run uninstall-service first)'' (Anyhow e)), s2)
              | (Inr _, s2) \<Rightarrow>
                  (case set_description m SERVICE_DESCRIPTION s2 of
                     (Inl e, s3) \<Rightarrow> (Inl (Context ''setting service description'' (Anyhow e)), s3)
                   | (Inr _, s3) \<Rightarrow> (Inr (), s3)))))"

text \<open>1060 is \<open>ERROR_SERVICE_DOES_NOT_EXIST\<close>.\<close>

definition uninstall_service :: "'s scm \<Rightarrow> 's \<Rightarrow> (anyhow_error + unit) \<times> 's" where
  "uninstall_service m s =
     (case local_computer m False s of
        (Inl e, s1) \<Rightarrow> (Inl (Context ''opening SCM (need Administrator)'' (Anyhow e)), s1)
      | (Inr _, s1) \<Rightarrow>
          (case open_service m SERVICE_NAME s1 of
             (Inl (Winapi e), s2) \<Rightarrow>
               if e = 1060 then (Inr (), s2) else (Inl (Context ''opening service'' (Anyhow ''Winapi'')), s2)
           | (Inl (ScmOther e), s2) \<Rightarrow> (Inl (Context ''opening service'' (Anyhow e)), s2)
           | (Inr _, s2) \<Rightarrow>
               let s4 = (case query_status m s2 of
                           (Inr st, s3) \<Rightarrow> if st \<noteq> StateStopped then snd (stop_service m s3) else s3
                         | (Inl _, s3) \<Rightarrow> s3)
               in (case delete_service m s4 of
                     (Inl e, s5) \<Rightarrow>
                       (Inl (Context ''deleting service (will fully remove on next reboot if still in use)'' (Anyhow e)), s5)
                   | (Inr _, s5) \<Rightarrow> (Inr (), s5))))"

subsection \<open>Properties\<close>

definition stop_signal_new :: stop_signal where
  "stop_signal_new = \<lparr>shutdown_tx = Some (Some ()), signals = 0\<rparr>"

definition control_result :: "ServiceControl \<Rightarrow> ServiceControlHandlerResult" where
  "control_result c = (case c of OtherControl _ \<Rightarrow> NotImplemented | _ \<Rightarrow> NoError)"

lemma event_handler_result [simp]: "fst (event_handler c s) = control_result c"
  by (cases c) (simp_all add: event_handler_def control_result_def)

lemma control_run_taken:
  "shutdown_tx s \<noteq> Some (Some ()) \<Longrightarrow> control_run cs s = (map control_result cs, s)"
proof (induction cs)
  case (Cons c cs)
  have "event_handler c s = (control_result c, s)"
    using Cons.prems by (cases c) (auto simp: event_handler_def control_result_def split: option.splits)
  with Cons show ?case by simp
qed simp

lemma control_run_new:
  "control_run cs s = (map control_result cs,
     if shutdown_tx s = Some (Some ()) \<and> (ControlStop \<in> set cs \<or> ControlShutdown \<in> set cs)
     then s\<lparr>shutdown_tx := Some None, signals := signals s + 1\<rparr> else s)"
proof (induction cs arbitrary: s)
  case (Cons c cs)
  show ?case
  proof (cases "shutdown_tx s = Some (Some ()) \<and> c \<in> {ControlStop, ControlShutdown}")
    case True
    then have "event_handler c s = (NoError, s\<lparr>shutdown_tx := Some None, signals := signals s + 1\<rparr>)"
      by (simp add: event_handler_def)
    with True show ?thesis by (auto simp: control_run_taken control_result_def)
  next
    case False
    then have "snd (event_handler c s) = s"
      by (cases c) (auto simp: event_handler_def split: option.splits)
    with False Cons.IH [of s] show ?thesis
      by (cases "event_handler c s"; cases "shutdown_tx s = Some (Some ())")
        (auto simp: control_run_taken dest: arg_cong [where f = fst] intro: prod.expand)
  qed
qed simp

text \<open>
  The service is told to stop exactly once: whatever controls the manager sends and however often,
  the listener's shutdown signal is sent once if there is a stop or shutdown among them and never
  otherwise, no later control is lost or fails because of it, and the controls the daemon does not
  know are answered as not implemented.
\<close>
lemma stop_is_signalled_once:
  "map_prod id signals (control_run cs stop_signal_new) =
     (map control_result cs, if ControlStop \<in> set cs \<or> ControlShutdown \<in> set cs then 1 else 0)"
  by (simp add: control_run_new stop_signal_new_def)

text \<open>
  The control manager always learns how the service ended: a service whose start fails has touched
  nothing (no disk, no host) and reports no end; one that was reported running reports, when its
  listener returns for whatever reason, that it has stopped, as the last status, accepting no more
  controls, with exit code 0 exactly if the listener returned without an error.
\<close>
lemma service_reports_its_end:
  "case run_service env paths api tls_accept bind svc w of (r, statuses, w') \<Rightarrow>
     (case r of
        None \<Rightarrow> statuses = [status_running]
      | Some result \<Rightarrow>
          (\<exists>e. result = Inl e) \<and> w' = w \<and> (\<forall>s \<in> set statuses. current_state s \<noteq> StateStopped)
            \<and> (is_ok (runtime svc) \<longrightarrow> is_ok (register svc) \<longrightarrow> \<not> is_ok (set_service_status svc status_running))
          \<or> current_state (last statuses) = StateStopped \<and> controls_accepted (last statuses) = []
            \<and> (exit_code (last statuses) = 0 \<longleftrightarrow> is_ok result)
            \<and> service_body env paths api tls_accept bind w = (Some result, w'))"
  by (auto simp: run_service_def status_running_def status_stopped_def
      split: sum.splits option.splits prod.splits)

definition sample_winapi :: "unit winapi" where
  "sample_winapi =
     \<lparr>SetSuspendState = (\<lambda>o'. ((True, 0), o')), LockWorkStation = (\<lambda>o'. ((True, 0), o')),
      ExitWindowsEx = (\<lambda>f r o'. ((True, 0), o')), WTSGetActiveConsoleSessionId = (\<lambda>o'. 1),
      WTSQuerySessionInformation = (\<lambda>i o'. None), OpenProcessToken = (\<lambda>o'. ((True, 0), o')),
      LookupPrivilegeValue = (\<lambda>n o'. ((True, 0), o')), AdjustTokenPrivileges = (\<lambda>o'. ((True, 0), o')),
      CloseHandle = (\<lambda>o'. ((True, 0), o'))\<rparr>"

definition sample_process :: "unit process" where
  "sample_process = \<lparr>SHUTDOWN_PRIVILEGE_READY = None, open_handles = 0, wts_buffers = 0, host = ()\<rparr>"

definition sample_svc :: service_host where
  "sample_svc = \<lparr>runtime = Inr (), register = Inr (), set_service_status = (\<lambda>s. Inr ())\<rparr>"

lemma service_reports_its_end_example:
  "\<exists>e statuses. run_service sample_daemon \<lparr>env_ProgramData = None, project_data_dir = None\<rparr> sample_winapi sample_accept
       (\<lambda>a. Inl NotFound) sample_svc (sample_world 0 sample_process) = (Some (Inl e), statuses, sample_world 0 sample_process)
     \<and> exit_code (last statuses) \<noteq> 0 \<and> current_state (last statuses) = StateStopped"
proof -
  let ?paths = "\<lparr>env_ProgramData = None, project_data_dir = None\<rparr>"
  obtain e statuses where r: "run_service sample_daemon ?paths sample_winapi sample_accept
      (\<lambda>a. Inl NotFound) sample_svc (sample_world 0 sample_process) = (Some (Inl e), statuses, sample_world 0 sample_process)"
    by (simp add: run_service_def sample_svc_def service_body_def default_service_config_def from_args_def
        default_data_dir_def)
  moreover have "is_ok (runtime sample_svc)" "is_ok (register sample_svc)"
    "is_ok (set_service_status sample_svc status_running)"
    by (simp_all add: sample_svc_def)
  ultimately show ?thesis
    using service_reports_its_end [where env = sample_daemon and paths = ?paths and api = sample_winapi
        and tls_accept = sample_accept and bind = "\<lambda>a. Inl NotFound" and svc = sample_svc
        and w = "sample_world 0 sample_process"]
    by simp
qed

end
