(* ===== verification/Daemon_Main.thy ===== *)
theory Daemon_Main
  imports System_Run Daemon_Service
begin

section \<open>The command line\<close>

text \<open>
  \<open>daemon/src/main.rs\<close> and \<open>cli.rs\<close>, with the entry points of \<open>lib.rs\<close>. The parsing of the arguments
  (\<open>clap\<close>) is foreign: it gives \<open>Args\<close>, or ends the process with an exit code of its own (help, version,
  usage errors). \<open>machine\<close> holds what the process finds around it: the
  answers of the operating system, the TLS handshake, and what its listeners will see. The result
  \<open>None\<close> is a process that is still running.
\<close>

datatype Command =
    Serve
  | CmdPair
  | CmdListPaired
  | CmdRevoke string
  | CmdReauthNow
  | CmdUninstallRevokeBroadcast
  | ServiceRun
  | InstallService "path option"
  | UninstallService

record Args =
  args_config :: ConfigArgs
  args_command :: Command

text \<open>What a command prints on standard output: its lines, or the banner with the code of \<open>pair\<close>.\<close>

datatype std_output = Silent | Lines "admin_line list" | Banner "u32 option"

datatype ExitCode = SUCCESS | FAILURE

record ('o, 'c, 's) machine =
  m_target :: target
  m_env :: daemon_env
  m_paths :: os_paths
  m_api :: "'o winapi"
  m_tls :: "'c tls_accept"
  m_bind :: "SocketAddr \<Rightarrow> io_error + 'c tcp_listener"
  m_pair_bind :: "SocketAddr \<Rightarrow> io_error + 'c pair_listener"
  m_connect :: "SocketAddr \<Rightarrow> connect_result"
  m_runtime :: "io_error + unit"
  m_current_exe :: "io_error + path"
  m_is_file :: "path \<Rightarrow> bool"
  m_host :: service_host
  m_dispatcher :: "string + unit"
  m_scm :: "'s scm"

definition exit_of :: "anyhow_error + unit \<Rightarrow> ExitCode" where
  "exit_of r = (case r of Inr _ \<Rightarrow> SUCCESS | Inl _ \<Rightarrow> FAILURE)"

text \<open>
  The dispatcher blocks until the service has ended; the error of \<open>run_service\<close> is only logged by
  \<open>service_main\<close>, so the result is that of the dispatcher.
\<close>

definition service_dispatcher_start ::
    "('o, 'c, 's) machine \<Rightarrow> 'o process world \<Rightarrow> (anyhow_error + unit) option \<times> 'o process world" where
  "service_dispatcher_start m w =
     (case m_dispatcher m of
        Inl e \<Rightarrow> (Some (Inl (Context ''service_dispatcher::start (binary not invoked by SCM?)'' (Anyhow e))), w)
      | Inr _ \<Rightarrow>
          (case run_service (m_env m) (m_paths m) (m_api m) (m_tls m) (m_bind m) (m_host m) w of
             (None, _, w') \<Rightarrow> (None, w')
           | (Some _, _, w') \<Rightarrow> (Some (Inr ()), w')))"

text \<open>The commands that need a configuration.\<close>

definition run_command ::
    "('o, 'c, 's) machine \<Rightarrow> Command \<Rightarrow> Config \<Rightarrow> 'o process world
       \<Rightarrow> (anyhow_error + unit) option \<times> std_output \<times> 'o process world" where
  "run_command m cmd cfg w =
     (case cmd of
        Serve \<Rightarrow>
          (case server_run (m_env m) (m_target m) (m_api m) (m_tls m) (m_bind m) cfg w of (r, _, w') \<Rightarrow> (r, Silent, w'))
      | CmdPair \<Rightarrow>
          (case pair_run_command (m_env m) (m_tls m) (m_pair_bind m) cfg w of (r, shown, w') \<Rightarrow> (r, Banner shown, w'))
      | CmdListPaired \<Rightarrow> (case list_paired (m_env m) cfg w of (r, out, w') \<Rightarrow> (Some r, Lines out, w'))
      | CmdRevoke name \<Rightarrow> (case revoke_command (m_env m) cfg name w of (r, out, w') \<Rightarrow> (Some r, Lines out, w'))
      | CmdReauthNow \<Rightarrow> (case reauth_now (m_env m) cfg w of (r, out, w') \<Rightarrow> (Some r, Lines out, w'))
      | CmdUninstallRevokeBroadcast \<Rightarrow>
          (case uninstall_revoke_broadcast (m_env m) (m_connect m) cfg w of (r, out, w') \<Rightarrow> (Some r, Lines out, w'))
      | _ \<Rightarrow> (None, Silent, w))"

text \<open>
  The last line stands for \<open>unreachable!()\<close>: the three service commands are taken out before, on the
  only target that has them.
\<close>

definition service_command ::
    "('o, 'c, 's) machine \<Rightarrow> Command \<Rightarrow> 'o process world \<Rightarrow> 's
       \<Rightarrow> (ExitCode option \<times> 'o process world \<times> 's) option" where
  "service_command m cmd w s =
     (case cmd of
        ServiceRun \<Rightarrow>
          Some (case service_dispatcher_start m w of (r, w') \<Rightarrow> (map_option exit_of r, w', s))
      | InstallService binary \<Rightarrow>
          Some (case (case binary of Some p \<Rightarrow> Inr p | None \<Rightarrow> m_current_exe m) of
                  Inl e \<Rightarrow> (Some FAILURE, w, s)
                | Inr p \<Rightarrow> (case install_service (m_scm m) (m_is_file m) p s of (r, s') \<Rightarrow> (Some (exit_of r), w, s')))
      | UninstallService \<Rightarrow>
          Some (case uninstall_service (m_scm m) s of (r, s') \<Rightarrow> (Some (exit_of r), w, s'))
      | _ \<Rightarrow> None)"

definition daemon_main ::
    "('o, 'c, 's) machine \<Rightarrow> Args \<Rightarrow> 'o process world \<Rightarrow> 's \<Rightarrow> ExitCode option \<times> std_output \<times> 'o process world \<times> 's" where
  "daemon_main m args w s =
     (case m_runtime m of
        Inl e \<Rightarrow> (Some FAILURE, Silent, w, s)
      | Inr _ \<Rightarrow>
          (case (if m_target m = Windows then service_command m (args_command args) w s else None) of
             Some (code, w', s') \<Rightarrow> (code, Silent, w', s')
           | None \<Rightarrow>
               (case from_args (m_target m) (m_paths m) (args_config args) of
                  Inl e \<Rightarrow> (Some FAILURE, Silent, w, s)
                | Inr cfg \<Rightarrow>
                    (case run_command m (args_command args) cfg w of
                       (r, out, w') \<Rightarrow> (map_option exit_of r, out, w', s)))))"

text \<open>The process, from its arguments to its exit code.\<close>

type_synonym clap = "string list \<Rightarrow> nat + Args"

definition cli_parse :: "clap \<Rightarrow> string list \<Rightarrow> nat + Args" where
  "cli_parse clap argv = clap argv"

definition exit_number :: "ExitCode \<Rightarrow> nat" where
  "exit_number c = (case c of SUCCESS \<Rightarrow> 0 | FAILURE \<Rightarrow> 1)"

definition daemon_process ::
    "clap \<Rightarrow> string list \<Rightarrow> ('o, 'c, 's) machine \<Rightarrow> 'o process world \<Rightarrow> 's
       \<Rightarrow> nat option \<times> std_output \<times> 'o process world \<times> 's" where
  "daemon_process clap argv m w s =
     (case cli_parse clap argv of
        Inl code \<Rightarrow> (Some code, Silent, w, s)
      | Inr args \<Rightarrow> (case daemon_main m args w s of (code, out, w', s') \<Rightarrow> (map_option exit_number code, out, w', s')))"

subsection \<open>Properties\<close>

text \<open>
  What each command on the keystore promises: from the keystore \<open>c\<close> it finds, at the time \<open>now\<close>, to the exit
  code, the output and the keystore \<open>d\<close> it leaves.
\<close>

definition promised ::
    "Command \<Rightarrow> u64 \<Rightarrow> KeystoreContents \<Rightarrow> nat option \<Rightarrow> std_output \<Rightarrow> KeystoreContents \<Rightarrow> bool" where
  "promised cmd now c code out d \<longleftrightarrow>
     (case cmd of
        CmdListPaired \<Rightarrow>
          code = Some 0 \<and> d = c
          \<and> out = Lines (if pairings c = [] then [NoPairingsLine] else HeaderLine # map pairing_row (pairings c))
      | CmdRevoke name \<Rightarrow>
          code = Some 0 \<and> d = mark_revoked (\<lambda>p. phone_name p = name) c
          \<and> (\<exists>p \<in> set (pairings c). phone_name p = name) \<and> out = Lines [RevokedLine name]
      | CmdReauthNow \<Rightarrow>
          code = Some 0 \<and> d = c\<lparr>ks_last_authenticated_at_unix_ms := now\<rparr>
          \<and> out = Lines [ReauthLine now (interval_from_days (reauth_interval_days c)) (expires_at_unix_ms now (reauth_interval_days c))]
      | CmdUninstallRevokeBroadcast \<Rightarrow>
          code = Some 0 \<and> d = mark_revoked (\<lambda>p. True) c
          \<and> (\<exists>ls unreachable no_address. out = Lines (
                if pairings c = [] then [NothingToBroadcastLine]
                else MarkedLine (length (pairings c)) # ls
                       @ [SummaryLine 0 unreachable no_address (length (pairings c)), NoteLine]))
      | CmdPair \<Rightarrow>
          (\<exists>shown rec. out = Banner (Some shown) \<and> d = add_pairing (from_core rec) c)
      | _ \<Rightarrow> False)"

text \<open>Or it fails and leaves the keystore as it was; \<open>pair\<close> may also still be waiting.\<close>

definition refused :: "Command \<Rightarrow> KeystoreContents \<Rightarrow> nat option \<Rightarrow> std_output \<Rightarrow> KeystoreContents \<Rightarrow> bool" where
  "refused cmd c code out d \<longleftrightarrow> d = c \<and> code \<noteq> Some 0
     \<and> (cmd \<noteq> CmdPair \<longrightarrow> code = Some 1 \<and> out = Lines [])"

definition keystore_command :: "Command \<Rightarrow> bool" where
  "keystore_command cmd \<longleftrightarrow> (case cmd of CmdPair \<Rightarrow> True | CmdListPaired \<Rightarrow> True | CmdRevoke _ \<Rightarrow> True
     | CmdReauthNow \<Rightarrow> True | CmdUninstallRevokeBroadcast \<Rightarrow> True | _ \<Rightarrow> False)"

lemma exit_number_simps [simp]: "exit_number SUCCESS = 0" "exit_number FAILURE = 1" "exit_number c = 0 \<longleftrightarrow> c = SUCCESS"
  by (simp_all add: exit_number_def split: ExitCode.split)

lemma exit_of_simps [simp]: "exit_of (Inr u) = SUCCESS" "exit_of (Inl e) = FAILURE"
  by (simp_all add: exit_of_def)

lemma list_paired_leaves:
  assumes "disk env cfg w = Inr (Some c)" "list_paired env cfg w = (r, out, w')"
  shows "disk env cfg w' = Inr (Some c) \<and> (case r of
      Inl _ \<Rightarrow> out = []
    | Inr _ \<Rightarrow> out = (if pairings c = [] then [NoPairingsLine] else HeaderLine # map pairing_row (pairings c)))"
proof -
  obtain q w1 where q: "require_keystore env cfg w = (q, w1)" by fastforce
  from require_keystore_disk [OF q] assms q show ?thesis
    by (cases q) (auto simp: list_paired_def split: if_splits)
qed

text \<open>A command that fails prints nothing on standard output.\<close>

lemma reauth_error_prints_nothing: "reauth_now env cfg w = (Inl e, out, w') \<Longrightarrow> out = []"
  by (auto simp: reauth_now_def Let_def split: prod.splits sum.splits if_splits)

lemma uninstall_prints:
  assumes "disk env cfg w = Inr (Some c)" "uninstall_revoke_broadcast env connect cfg w = (r, out, w')"
  shows "case r of
      Inl _ \<Rightarrow> out = []
    | Inr _ \<Rightarrow> \<exists>ls unreachable no_address. out =
        (if pairings c = [] then [NothingToBroadcastLine]
         else MarkedLine (length (pairings c)) # ls @ [SummaryLine 0 unreachable no_address (length (pairings c)), NoteLine])"
proof -
  obtain q w1 where q: "require_keystore env cfg w = (q, w1)" by fastforce
  from require_keystore_disk [OF q] assms q show ?thesis
    by (cases q) (auto simp: uninstall_revoke_broadcast_def Let_def split: prod.splits sum.splits if_splits)
qed

lemma pair_leaves:
  assumes "ks_ok (e_ks env)" "decodes_wf env" "disk env cfg w = Inr (Some c)" "wf_contents c"
    and "Suc (length (pairings c)) < 2 ^ 64" "pair_run_command env tls_accept bind cfg w = (r, shown, w')"
  shows "disk env cfg w' = Inr (Some c) \<and> r \<noteq> Some (Inr ())
     \<or> (\<exists>code rec. shown = Some code \<and> disk env cfg w' = Inr (Some (add_pairing (from_core rec) c)))"
proof -
  obtain d w1 where d: "on_fs (ensure_data_dir (data_dir cfg)) w = (d, w1)" by fastforce
  obtain b w2 where b: "bootstrap env cfg w1 = (b, w2)" by fastforce
  show ?thesis
  proof (cases "\<exists>c1. d = Inr () \<and> b = Inr c1")
    case False
    with pair_run_early [OF assms(6) d] b assms(3) show ?thesis by auto
  next
    case True
    then obtain c1 where c1: "d = Inr ()" "b = Inr c1" by blast
    have d1: "disk env cfg w1 = Inr (Some c)" using on_fs_disk_kept [OF d] assms(3) by simp
    obtain x w3 where l: "on_fs (ks_load (e_ks env) (keystore_path cfg)) w1 = (x, w3)" by fastforce
    have "x = Inr (Some c) \<or> (\<exists>e. x = Inl e)"
      using on_fs_pair [OF l] ks_load_reads [of "e_ks env" "keystore_path cfg" "w_fs w1"] d1 by (auto simp: disk_def)
    with b c1 l have "c1 = c" by (auto simp: bootstrap_def)
    with pair_run_adds [OF assms(1,2) d [unfolded c1] b [unfolded c1] _ _ assms(6)] assms(3-5) show ?thesis by auto
  qed
qed

text \<open>Each command is the code its name stands for.\<close>

lemma run_command_promised:
  assumes "ks_ok (e_ks (m_env m))" "decodes_wf (m_env m)" "keystore_command cmd"
    and "disk (m_env m) cfg w = Inr (Some c)" "wf_contents c" "Suc (length (pairings c)) < 2 ^ 64"
    and "run_command m cmd cfg w = (r, out, w')"
  shows "\<exists>d. disk (m_env m) cfg w' = Inr (Some d)
     \<and> (promised cmd (fst (unix_ms_now w)) c (map_option (exit_number \<circ> exit_of) r) out d
        \<or> refused cmd c (map_option (exit_number \<circ> exit_of) r) out d)"
proof (cases cmd)
  case CmdPair
  obtain r1 shown w1 where p: "pair_run_command (m_env m) (m_tls m) (m_pair_bind m) cfg w = (r1, shown, w1)"
    by (cases "pair_run_command (m_env m) (m_tls m) (m_pair_bind m) cfg w")
  have "map_option (exit_number \<circ> exit_of) r1 = Some 0 \<longleftrightarrow> r1 = Some (Inr ())"
    by (cases r1) (simp_all add: exit_of_def split: sum.split)
  with pair_leaves [OF assms(1,2,4-6) p] p CmdPair assms(7) show ?thesis
    by (auto simp: run_command_def promised_def refused_def)
next
  case CmdListPaired
  obtain r1 out1 w1 where p: "list_paired (m_env m) cfg w = (r1, out1, w1)" by (cases "list_paired (m_env m) cfg w")
  from list_paired_leaves [OF assms(4) p] p CmdListPaired assms(7) show ?thesis
    by (cases r1) (auto simp: run_command_def promised_def refused_def)
next
  case (CmdRevoke name)
  obtain r1 out1 w1 where p: "revoke_command (m_env m) cfg name w = (r1, out1, w1)"
    by (cases "revoke_command (m_env m) cfg name w")
  from revoke_command_rewrites [OF assms(1,4,5) p] p CmdRevoke assms(7) show ?thesis
    by (cases r1) (auto simp: run_command_def promised_def refused_def ks_rewritten_def)
next
  case CmdReauthNow
  obtain r1 out1 w1 where p: "reauth_now (m_env m) cfg w = (r1, out1, w1)" by (cases "reauth_now (m_env m) cfg w")
  from reauth_now_rewrites [OF assms(1,4,5) p] p CmdReauthNow assms(7) reauth_error_prints_nothing [of "m_env m" cfg w]
  show ?thesis by (cases r1) (auto simp: run_command_def promised_def refused_def ks_rewritten_def)
next
  case CmdUninstallRevokeBroadcast
  obtain r1 out1 w1 where p: "uninstall_revoke_broadcast (m_env m) (m_connect m) cfg w = (r1, out1, w1)"
    by (cases "uninstall_revoke_broadcast (m_env m) (m_connect m) cfg w")
  from uninstall_rewrites [OF assms(1,4,5) p] uninstall_prints [OF assms(4) p] p CmdUninstallRevokeBroadcast assms(7)
  show ?thesis by (cases r1) (auto simp: run_command_def promised_def refused_def ks_rewritten_def)
qed (use assms(3) in \<open>simp_all add: keystore_command_def\<close>)


definition sample_scm :: "unit scm" where
  "sample_scm =
     \<lparr>local_computer = (\<lambda>c s. (Inr (), s)), create_service = (\<lambda>i s. (Inr (), s)),
      set_description = (\<lambda>d s. (Inr (), s)), open_service = (\<lambda>n s. (Inl (Winapi 1060), s)),
      query_status = (\<lambda>s. (Inr StateStopped, s)), stop_service = (\<lambda>s. (Inr (), s)),
      delete_service = (\<lambda>s. (Inr (), s))\<rparr>"

definition sample_machine :: "(unit, read_event list, unit) machine" where
  "sample_machine =
     \<lparr>m_target = Windows, m_env = sample_daemon, m_paths = \<lparr>env_ProgramData = None, project_data_dir = None\<rparr>,
      m_api = sample_winapi, m_tls = sample_accept, m_bind = (\<lambda>a. Inl NotFound), m_pair_bind = (\<lambda>a. Inl NotFound),
      m_connect = (\<lambda>a. ConnectTimeout), m_runtime = Inr (), m_current_exe = Inl NotFound, m_is_file = (\<lambda>p. False),
      m_host = sample_svc, m_dispatcher = Inr (), m_scm = sample_scm\<rparr>"

definition alice_system :: "(unit process, read_event list task) system" where
  "alice_system =
     \<lparr>sy_server = None, sy_tasks = [], sy_world =
        \<lparr>w_fs = w_fs alice_world, w_clock = w_clock alice_world, w_ticks = 0, w_rng = 0, w_os = sample_process\<rparr>\<rparr>"

definition sample_args :: "Command \<Rightarrow> Args" where
  "sample_args cmd =
     \<lparr>args_config = \<lparr>arg_data_dir = Some [''data''], arg_port = 0, arg_bind = IpV4 [127, 0, 0, 1]\<rparr>, args_command = cmd\<rparr>"


end
