(* ===== verification/Library_Facade.thy ===== *)
theory Library_Facade
  imports Server_Listener
begin

section \<open>The entry points of the libraries\<close>

text \<open>
  What \<open>daemon/src/lib.rs\<close> adds to its modules, the entry points of the integration tests, and the
  constant that \<open>core/src/lib.rs\<close> exports to the mobile shells through \<open>bindings/src/lib.rs\<close>.
\<close>

definition run_server_with_listener ::
    "daemon_env \<Rightarrow> target \<Rightarrow> 'o winapi \<Rightarrow> 'c tls_accept \<Rightarrow> Config \<Rightarrow> 'c tcp_listener \<Rightarrow> 'o process world
       \<Rightarrow> (anyhow_error + unit) option \<times> 'o process SharedState option \<times> 'o process world" where
  "run_server_with_listener env t api tls_accept cfg l w = run_with_listener env t api tls_accept cfg l w"

definition run_server_with_listener_and_handlers ::
    "daemon_env \<Rightarrow> 'c tls_accept \<Rightarrow> Config \<Rightarrow> 'c tcp_listener \<Rightarrow> 'o Handlers \<Rightarrow> 'o world
       \<Rightarrow> (anyhow_error + unit) option \<times> 'o SharedState option \<times> 'o world" where
  "run_server_with_listener_and_handlers env tls_accept cfg l hs w =
     run_with_listener_and_handlers env tls_accept cfg l hs w"

definition core_hello :: string where "core_hello = ''core: hello''"

definition bindings_hello :: string where "bindings_hello = core_hello"

text \<open>
  The tests with injected handlers exercise the server that is shipped: with the handlers of the
  platform, the entry point of the tests is the server bound to the configured address.
\<close>

lemma tested_server_is_the_server:
  "bind (bind_addr cfg) = Inr l \<Longrightarrow>
     server_run env t api tls_accept bind cfg w
       = run_server_with_listener_and_handlers env tls_accept cfg l (platform_handlers t api) w
     \<and> server_run env t api tls_accept bind cfg w = run_server_with_listener env t api tls_accept cfg l w"
  by (simp add: server_run_def run_server_with_listener_def run_server_with_listener_and_handlers_def
      run_with_listener_def)

end
