(* ===== verification/Session_End_To_End.thy ===== *)
theory Session_End_To_End
  imports Connection_Steps
begin

section \<open>A session from the phone and back\<close>

text \<open>
  Both ends of a connection on the functions of \<open>core\<close>: a phone numbers its frames with a
  \<open>NonceSender\<close>, encodes them with \<open>encode_client_frame\<close> and \<open>encode_envelope\<close>, and reads the answers
  with \<open>decode_envelope\<close>, a \<open>NonceReceiver\<close> and \<open>decode_daemon_frame\<close>, as
  \<open>daemon/tests/integration.rs\<close> does; in between is the daemon's connection, and a transport that
  cuts the bytes as it likes. What the phone gets is what \<open>dispatch\<close> answers to its frames in order.
\<close>

fun client_sends :: "daemon_env \<Rightarrow> NonceSender \<Rightarrow> ClientFrame list \<Rightarrow> bytes option" where
  "client_sends env s [] = Some []"
| "client_sends env s (f # fs) =
     (case issue s of
        (None, _) \<Rightarrow> None
      | (Some n, s') \<Rightarrow>
          (case encode_client_frame (e_client_codec env) f of
             Inl _ \<Rightarrow> None
           | Inr p \<Rightarrow>
               (case encode_envelope \<lparr>version = PROTOCOL_VERSION, nonce = n, payload = p\<rparr> of
                  Inl _ \<Rightarrow> None
                | Inr b \<Rightarrow> map_option ((@) b) (client_sends env s' fs))))"

fun client_accepts :: "daemon_env \<Rightarrow> NonceReceiver \<Rightarrow> Envelope list \<Rightarrow> (Error + DaemonFrame) list" where
  "client_accepts env r [] = []"
| "client_accepts env r (e # es) =
     (case accept r (nonce e) of
        (Inl _, _) \<Rightarrow> []
      | (Inr _, r') \<Rightarrow> decode_daemon_frame (e_daemon_codec env) (payload e) # client_accepts env r' es)"

definition client_reads :: "daemon_env \<Rightarrow> bytes \<Rightarrow> (Error + DaemonFrame) list \<times> bytes" where
  "client_reads env bs = map_prod (client_accepts env receiver_new) id (split_frames bs)"

text \<open>The answers to a list of frames, the nonce counting them.\<close>

fun answer_all ::
    "daemon_env \<Rightarrow> SpkiHash \<Rightarrow> u64 \<Rightarrow> ClientFrame list \<Rightarrow> 'o SharedState \<Rightarrow> 'o world
       \<Rightarrow> DaemonFrame list \<times> 'o SharedState \<times> 'o world" where
  "answer_all env h n [] st w = ([], st, w)"
| "answer_all env h n (f # fs) st w =
     (case dispatch env h f (n + 1) st w of
        (r, st1, w1) \<Rightarrow> (case answer_all env h (n + 1) fs st1 w1 of (rs, fin) \<Rightarrow> (r # rs, fin)))"

definition is_pair :: "ClientFrame \<Rightarrow> bool" where
  "is_pair f = (case f of Pair _ _ \<Rightarrow> True | _ \<Rightarrow> False)"

text \<open>No frame but \<open>Pair\<close> is answered by closing the connection.\<close>

lemma dispatch_stays_open:
  "dispatch env h f n st w = (r, st', w') \<Longrightarrow> \<not> is_pair f \<Longrightarrow> \<not> response_closes_connection r"
  by (cases f) (auto simp: is_pair_def dispatch_simps gated_def handler_to_response_def os_to_wire_code_def
      block_state_change_def response_closes_connection_def
      split: prod.splits option.splits sum.splits if_splits ReauthState.splits)

lemma issue_Some:
  assumes "issue s = (Some n, s')"
  shows "n = send_next s + 1 \<and> send_next s' = n \<and> unat n = unat (send_next s) + 1 \<and> send_next s < n"
proof -
  have n: "unat (send_next s) + 1 < 2 ^ 64" "n = send_next s + 1" "send_next s' = n"
    using assms by (auto simp: issue_def checked_add_def split: if_splits)
  then have "unat n = unat (send_next s) + 1" by (simp add: unat_add_no_overflow [THEN trans])
  with n show ?thesis by (simp add: word_less_nat_alt)
qed

lemma client_sends_served:
  assumes "payload_codec (e_client_codec env) wf_client"
  shows "client_sends env s fs = Some bs \<Longrightarrow> list_all (\<lambda>f. wf_client f \<and> \<not> is_pair f) fs \<Longrightarrow>
     \<exists>es. bs = concat (map frame_bytes es) \<and> list_all receivable es
       \<and> serve env h (send_next s) es st w =
           (case answer_all env h (send_next s) fs st w of (rs, st', w') \<Rightarrow> (rs, Open, st', w'))"
proof (induction fs arbitrary: s bs st w)
  case Nil
  then show ?case by (intro exI [of _ "[]"]) simp
next
  case (Cons f fs)
  obtain n s' p bs' where n: "issue s = (Some n, s')"
    and p: "to_allocvec (e_client_codec env) f = Inr p"
    and e: "encode_envelope \<lparr>version = PROTOCOL_VERSION, nonce = n, payload = p\<rparr>
        = Inr (frame_bytes \<lparr>version = PROTOCOL_VERSION, nonce = n, payload = p\<rparr>)"
    and bs': "client_sends env s' fs = Some bs'"
    and bs: "bs = frame_bytes \<lparr>version = PROTOCOL_VERSION, nonce = n, payload = p\<rparr> @ bs'"
    using Cons.prems(1)
    by (auto simp: encode_client_frame_def map_err_def encode_envelope_Inr_iff
        split: prod.splits option.splits sum.splits)
  let ?e = "\<lparr>version = PROTOCOL_VERSION, nonce = n, payload = p\<rparr>"
  have wf: "wf_client f" "\<not> is_pair f" using Cons.prems(2) by simp_all
  have dec: "decode_client_frame (e_client_codec env) p = Inr f"
    using payload_codec.decode_enc [OF assms wf(1) p] by (simp add: decode_client_frame_def)
  have rec: "receivable ?e"
    using e payload_codec.enc_nonempty [OF assms wf(1) p] by (simp add: encode_envelope_Inr_iff receivable_def)
  note nn = issue_Some [OF n]
  obtain r st1 w1 where d: "dispatch env h f n st w = (r, st1, w1)" by (cases "dispatch env h f n st w")
  from Cons.IH [OF bs', of st1 w1] Cons.prems(2) obtain es where es: "bs' = concat (map frame_bytes es)"
    "list_all receivable es"
    "serve env h n es st1 w1 = (case answer_all env h n fs st1 w1 of (rs, st', w') \<Rightarrow> (rs, Open, st', w'))"
    using nn by auto
  show ?case
    using bs es rec dec d nn dispatch_stays_open [OF d wf(2)]
    by (intro exI [of _ "?e # es"]) (auto split: prod.split)
qed

lemma answer_all_wf:
  "answer_all env h n fs st w = (rs, st', w') \<Longrightarrow> list_all wf_daemon rs \<and> length rs = length fs"
  by (induction fs arbitrary: n st w rs) (auto dest: dispatch_wf split: prod.splits)

lemma client_accepts_responses:
  assumes "encodes_responses env" "payload_codec (e_daemon_codec env) wf_daemon"
  shows "list_all wf_daemon rs \<Longrightarrow> unat n + length rs < 2 ^ 64 \<Longrightarrow>
     client_accepts env \<lparr>recv_last_seen = n\<rparr> (responses env n rs) = map Inr rs"
proof (induction rs arbitrary: n)
  case (Cons r rs)
  have u: "unat (n + 1) = unat n + 1"
    using Cons.prems by (intro unat_add_no_overflow [THEN trans]) simp_all
  then have "n < n + 1" by (simp add: word_less_nat_alt)
  with Cons u assms show ?case
    by (simp add: accept_def response_frame_def leD decode_daemon_frame_def
        payload_codec.decode_enc [OF assms(2)] encodes_response(1) [OF assms(1)] flip: not_less)
qed simp

lemma client_sends_bound: "client_sends env s fs = Some bs \<Longrightarrow> unat (send_next s) + length fs < 2 ^ 64"
proof (induction fs arbitrary: s bs)
  case Nil
  then show ?case using unsigned_less [of "send_next s", where ?'a = nat] by simp
next
  case (Cons f fs)
  then obtain n s' bs' where n: "issue s = (Some n, s')" "client_sends env s' fs = Some bs'"
    by (auto split: prod.splits option.splits sum.splits)
  have "unat (send_next s') = unat (send_next s) + 1" using issue_Some [OF n(1)] by metis
  with Cons.IH [OF n(2)] show ?case by simp
qed

text \<open>
  C11: A session works end to end: a paired phone that sends any list of frames (no \<open>Pair\<close>) with the
  functions of the core library gets, however the transport cuts the bytes in between, exactly the
  answers of \<open>dispatch\<close> to these frames, one each, in order, each frame dispatched once under its
  own nonce; the phone decodes every answer and its replay window lets every one through, nothing is
  left over, and the connection ends cleanly with the state and the world the dispatches leave.
\<close>
theorem session_end_to_end:
  assumes "payload_codec (e_client_codec env) wf_client" "payload_codec (e_daemon_codec env) wf_daemon"
    and "encodes_responses env" "list_all (\<lambda>f. wf_client f \<and> \<not> is_pair f) fs"
    and "client_sends env sender_new fs = Some (arriving (inbound t))" "ending (inbound t) = None"
    and "write_script t = []" "outbound t = []"
    and "conn_start env t a st w = (Inr h, t, st1, w1)"
    and "answer_all env h 0 fs st1 w1 = (rs, st', w')"
  shows "\<exists>t'. conn_run env t a st w = (Inr (), t', st', w') \<and> length rs = length fs
     \<and> client_reads env (outbound t') = (map Inr rs, [])"
proof -
  from client_sends_served [OF assms(1,5,4), of h st1 w1] obtain es
    where es: "arriving (inbound t) = concat (map frame_bytes es)" "list_all receivable es"
      "serve env h 0 es st1 w1 = (rs, Open, st', w')"
    using assms(10) by (auto simp: sender_new_def)
  have split: "split_frames (pending [] t) = (es, [])"
    using split_frames_concat [OF es(2)] es(1) by (simp add: pending_def)
  obtain r t' st2 w2 where l: "conn_loop env h counter_new [] t st1 w1 = (r, t', st2, w2)"
    by (cases "conn_loop env h counter_new [] t st1 w1")
  have "end_result [] None = Inr ()" by (simp add: end_result_def flat_read_def decode_envelope_eq)
  with conn_loop_serves [OF assms(3,7), of counter_new "[]" h st1 w1] split es(3) l assms(6,8)
  have o: "outbound t' = concat (map frame_bytes (responses env 0 rs))" "r = Inr ()" "st2 = st'" "w2 = w'"
    by (simp_all add: counter_new_def sender_new_def receiver_new_def session_outcome_def sent_by_def closing_def)
  note wf = answer_all_wf [OF assms(10)]
  have "length rs < 2 ^ 64" using client_sends_bound [OF assms(5)] wf by simp
  then have "client_reads env (outbound t') = (map Inr rs, [])"
    using client_accepts_responses [OF assms(3,2), of rs 0] wf split_frames_concat [OF responses_receivable [OF assms(3)], of rs 0]
    by (simp add: client_reads_def o receiver_new_def)
  moreover have "conn_run env t a st w = (Inr (), t', st', w')"
    using assms(9) l o by (simp add: conn_run_steps)
  ultimately show ?thesis using wf by blast
qed

text \<open>Alice asks for the state of the PC and of the gate; the transport cuts her first frame in two.\<close>

theorem session_end_to_end_witness:
  "\<exists>bs t' st' w'. client_sends sample_daemon sender_new [StateProbe, ReauthStatus] = Some bs
     \<and> conn_run sample_daemon (sample_stream (Some [alice_cert]) [Chunk (take 3 bs), Chunk (drop 3 bs)]) alice_addr
          (sample_shared stub_handlers) (sample_world 1000 ()) = (Inr (), t', st', w')
     \<and> client_reads sample_daemon (outbound t')
         = ([Inr (StateReport OnLoggedIn), Inr (ReauthInfo 0 SevenDays 604800000)], [])"
proof -
  let ?fs = "[StateProbe, ReauthStatus]" and ?st = "sample_shared stub_handlers :: unit SharedState"
  let ?w = "sample_world 1000 () :: unit world"
  obtain bs where bs: "client_sends sample_daemon sender_new ?fs = Some bs" "length bs > 3"
    by (simp add: sender_new_def issue_succ encode_client_frame_def sample_daemon_def client_codec_def
        encode_envelope_ok sendable_def envelope_consts put_tag_def)
  let ?t = "sample_stream (Some [alice_cert]) [Chunk (take 3 bs), Chunk (drop 3 bs)]"
  have t: "arriving (inbound ?t) = bs" "ending (inbound ?t) = None" "write_script ?t = []" "outbound ?t = []"
    using bs(2) by (auto simp: sample_stream_def)
  have codecs: "payload_codec (e_client_codec sample_daemon) wf_client" "payload_codec (e_daemon_codec sample_daemon) wf_daemon"
    using client.payload_codec_axioms daemon.payload_codec_axioms by (simp_all add: sample_daemon_def)
  have "conn_start sample_daemon ?t alice_addr ?st ?w = (Inr alice, ?t, ?st, ?w)"
    using alice_active [of "stub_handlers :: unit Handlers"] sample_address [of "stub_handlers :: unit Handlers"]
    by (simp add: conn_start_def snapshot_def state_write_def map_err_def del: sample_shared_fields)
  moreover obtain st' w' where a: "answer_all sample_daemon alice 0 ?fs ?st ?w
      = ([StateReport OnLoggedIn, ReauthInfo 0 SevenDays 604800000], st', w')"
    by (simp add: dispatch_simps unix_ms_now_def on_os_def stub_handlers_def stub_session_state_def
        sample_contents_def sample_shared_def expires_at_unix_ms_def saturating_mul_def saturating_add_def
        interval_from_days_def)
  ultimately show ?thesis
    using session_end_to_end [OF codecs sample_daemon_encodes _ _ t(2-4), of ?fs alice_addr ?st ?w alice ?st ?w] bs(1) t(1)
    by (fastforce simp: wf_client_def is_pair_def)
qed

end
