(* ===== verification/System_Wellformed.thy ===== *)
theory System_Wellformed
  imports System_Run
begin

section \<open>Well-formed keystores\<close>

text \<open>
  What is kept of every keystore: it is well-formed (everything in it survives serialisation), holds
  every phone's key at most once, and has no more pairings than there were steps. Here is what the
  changes of the keystore do to it; \<open>Process_System\<close> and \<open>Machine_Awaits\<close> carry it through every run.
\<close>

definition keystore_bound :: "nat \<Rightarrow> KeystoreContents \<Rightarrow> bool" where
  "keystore_bound n c \<longleftrightarrow> wf_contents c \<and> distinct (map client_spki (pairings c)) \<and> length (pairings c) \<le> n"

lemma distinct_map_filter [simp]: "distinct (map f xs) \<Longrightarrow> distinct (map f (filter Q xs))"
  by (induction xs) auto

lemma keystore_bound_updates [simp]:
  "keystore_bound n c \<Longrightarrow> keystore_bound n (c\<lparr>reauth_interval_days := d\<rparr>)"
  "keystore_bound n c \<Longrightarrow> keystore_bound n (c\<lparr>ks_last_authenticated_at_unix_ms := t\<rparr>)"
  "keystore_bound n c \<Longrightarrow> keystore_bound n (c\<lparr>pairings := filter Q (pairings c)\<rparr>)"
  "keystore_bound n c \<Longrightarrow> keystore_bound n (mark_revoked hit c)"
  by (auto simp: keystore_bound_def wf_contents_def mark_revoked_def list_all_iff wf_pairing_def comp_def if_distrib
      intro: le_less_trans [OF length_filter_le] order_trans [OF length_filter_le] cong: if_cong)

lemma record_address_spki:
  "record_address h a ps = (ch, ps') \<Longrightarrow> map client_spki ps' = map client_spki ps"
  by (induction ps arbitrary: ch ps') (auto simp: map_prod_def split: if_splits prod.splits)

lemma keystore_bound_address:
  assumes "keystore_bound n c" "wf_addr a" "record_address h a (pairings c) = (ch, ps)"
  shows "keystore_bound n (c\<lparr>pairings := ps\<rparr>)"
  using assms record_address_wf [OF assms(3)] record_address_spki [OF assms(3)]
  by (simp add: keystore_bound_def wf_contents_def)

lemma keystore_bound_add:
  assumes "keystore_bound n c" "Suc n < 2 ^ 64" "wf_string (pr_phone_name rec)" "wf_spki (pr_client_spki rec)"
  shows "keystore_bound (Suc n) (add_pairing (from_core rec) c)"
  using assms wf_add_pairing [of c rec]
  by (auto simp: keystore_bound_def add_pairing_def from_core_def intro: order_trans [OF length_filter_le])

lemma keystore_bound_mono: "keystore_bound n c \<Longrightarrow> n \<le> m \<Longrightarrow> keystore_bound m c"
  by (simp add: keystore_bound_def)

text \<open>
  The bytes of a generated identity are a \<open>Vec\<close>, whose length fits the machine word.
\<close>

definition identity_lengths :: "daemon_env \<Rightarrow> bool" where
  "identity_lengths env \<longleftrightarrow> (\<forall>i. device_generate (e_rcgen env) (e_x509 env) = Inr i \<longrightarrow>
     length (id_key_pkcs8_der i) < 2 ^ 64 \<and> length (id_cert_der i) < 2 ^ 64)"

lemma sample_identity_lengths: "identity_lengths sample_daemon"
  by (auto simp: identity_lengths_def device_generate_def build_from_keypair_def sample_daemon_def sample_rcgen_def
      map_err_def split: sum.splits)

end
