(* ===== verification/Concurrent_Saves.thy ===== *)
theory Concurrent_Saves
  imports System_Run
begin

section \<open>Overlapping saves\<close>

text \<open>
  \<open>SharedState::save\<close> (\<open>server/state.rs\<close>) takes a snapshot under the read lock and saves it with no lock
  held, so the saves of two connections can overlap, and the temporary file of \<open>keystore::save\<close> has the
  process id in its name and nothing else: all of them write the same one. Here a save is cut at its
  two awaits, the write of the temporary file and the rename. Any number of saves take their steps
  in any order; a write is still atomic towards the other saves.
\<close>

definition save_begin :: "ks_env \<Rightarrow> path \<Rightarrow> KeystoreContents \<Rightarrow> KeystoreError + path \<times> bytes" where
  "save_begin e p c =
     (case map_err Decode (to_allocvec (contents_codec e) c) of
        Inl err \<Rightarrow> Inl err
      | Inr encoded \<Rightarrow>
          (case map_err Encryption (platform_encrypt (ke_platform e) (KEYSTORE_FORMAT_VERSION # encoded)) of
             Inl err \<Rightarrow> Inl err
           | Inr ciphertext \<Rightarrow>
               (case parent p of
                  None \<Rightarrow> Inl (Io (OtherIo ''keystore path has no parent''))
                | Some dir \<Rightarrow> Inr (join dir (tmp_name (ke_pid e)), ciphertext))))"

datatype saver =
    Writing path bytes
  | Renaming path
  | Finished "KeystoreError + unit"

inductive save_step :: "ks_env \<Rightarrow> path \<Rightarrow> saver list \<times> fs \<Rightarrow> saver list \<times> fs \<Rightarrow> bool" for e p where
  begun: "wf_contents c \<Longrightarrow> save_begin e p c = Inr (tmp, x) \<Longrightarrow> save_step e p (ts, s) (ts @ [Writing tmp x], s)"
| written: "fs_write tmp x s = (Inr (), s') \<Longrightarrow>
    save_step e p (xs @ Writing tmp x # ys, s) (xs @ Renaming tmp # ys, s')"
| write_failed: "fs_write tmp x s = (Inl err, s') \<Longrightarrow>
    save_step e p (xs @ Writing tmp x # ys, s) (xs @ Finished (Inl (Io err)) # ys, s')"
| renamed: "fs_rename tmp p s = (Inr (), s') \<Longrightarrow>
    save_step e p (xs @ Renaming tmp # ys, s) (xs @ Finished (Inr ()) # ys, s')"
| rename_failed: "fs_rename tmp p s = (Inl err, s') \<Longrightarrow>
    save_step e p (xs @ Renaming tmp # ys, s) (xs @ Finished (Inl (Io err)) # ys, s')"

abbreviation save_steps where "save_steps e p \<equiv> (save_step e p)\<^sup>*\<^sup>*"

text \<open>A save by itself is \<open>ks_save\<close>.\<close>

lemma ks_save_begin:
  "ks_save e p c s =
     (case save_begin e p c of Inl err \<Rightarrow> (Inl err, s) | Inr (tmp, x) \<Rightarrow> replace_file tmp p x s)"
  by (simp add: ks_save_def save_begin_def Let_def split: sum.split option.split)

lemma save_alone:
  assumes "wf_contents c" "save_begin e p c = Inr (tmp, x)" "ks_save e p c s = (r, s')"
  shows "save_steps e p ([], s) ([Finished r], s')"
proof -
  have b: "save_step e p ([], s) ([] @ [Writing tmp x], s)" by (rule save_step.begun [OF assms(1,2)])
  obtain wr s1 where w: "fs_write tmp x s = (wr, s1)" by fastforce
  show ?thesis
  proof (cases wr)
    case (Inl err)
    with w assms(2,3) have "r = Inl (Io err)" "s' = s1" by (simp_all add: ks_save_begin replace_file_def)
    with b save_step.write_failed [OF w [unfolded Inl], of e p "[]" "[]"] show ?thesis by auto
  next
    case (Inr u)
    then have w': "save_step e p ([] @ [Writing tmp x], s) ([] @ Renaming tmp # [], s1)"
      using save_step.written [of tmp x s s1 e p "[]" "[]"] w by simp
    obtain rr s2 where rn: "fs_rename tmp p s1 = (rr, s2)" by fastforce
    with w Inr assms(2,3) have r: "r = map_err Io rr" "s' = s2"
      by (auto simp: ks_save_begin replace_file_def map_err_def split: sum.splits)
    have "save_step e p ([] @ Renaming tmp # [], s1) ([] @ Finished r # [], s')"
      using rn r save_step.renamed [of tmp p s1 s2 e "[]" "[]"] save_step.rename_failed [of tmp p s1 _ s2 e "[]" "[]"]
      by (cases rr) (simp_all add: map_err_def)
    with b w' show ?thesis by (auto intro: converse_rtranclp_into_rtranclp)
  qed
qed

subsection \<open>Without failing writes\<close>

text \<open>The ciphertexts of well-formed contents.\<close>

definition sealed :: "ks_env \<Rightarrow> path \<Rightarrow> bytes \<Rightarrow> bool" where
  "sealed e p x \<longleftrightarrow> (\<exists>c tmp. wf_contents c \<and> save_begin e p c = Inr (tmp, x))"

definition temp_of :: "ks_env \<Rightarrow> path \<Rightarrow> path" where
  "temp_of e p = join (butlast p) (tmp_name (ke_pid e))"

lemma save_begin_temp: "save_begin e p c = Inr (tmp, x) \<Longrightarrow> tmp = temp_of e p"
  by (auto simp: save_begin_def temp_of_def parent_def split: sum.splits option.splits if_splits)

lemma begun_stored:
  assumes "ks_ok e" "wf_contents c" "save_begin e p c = Inr (tmp, x)" "files s p = Some x"
  shows "ks_stored e p s = Inr (Some c)"
proof -
  obtain b where b: "to_allocvec (contents_codec e) c = Inr b" "platform_encrypt (ke_platform e) (2 # b) = Inr x"
    using assms(3) by (auto simp: save_begin_def map_err_def KEYSTORE_FORMAT_VERSION_def
        split: sum.splits option.splits)
  have "platform_decrypt (ke_platform e) x = Inr (2 # b)"
    using platform.dec_enc [OF _ b(2)] assms(1) by (simp add: ks_ok_def)
  with assms b ks_ok_decode [of e c b "[]"] show ?thesis by (simp add: ks_stored_def parse_plain_v2 map_err_def)
qed

lemma sealed_stored:
  "ks_ok e \<Longrightarrow> sealed e p x \<Longrightarrow> files s p = Some x \<Longrightarrow> \<exists>c. ks_stored e p s = Inr (Some c) \<and> wf_contents c"
  using begun_stored by (fastforce simp: sealed_def)

definition saves_inv :: "ks_env \<Rightarrow> path \<Rightarrow> bytes option \<Rightarrow> saver list \<times> fs \<Rightarrow> bool" where
  "saves_inv e p old ss \<longleftrightarrow> (case ss of (ts, s) \<Rightarrow>
     io_script s = [] \<and> (\<forall>tmp x. Writing tmp x \<in> set ts \<longrightarrow> tmp = temp_of e p \<and> sealed e p x)
     \<and> (\<forall>tmp. Renaming tmp \<in> set ts \<longrightarrow> tmp = temp_of e p
          \<and> (files s (temp_of e p) = None \<or> (\<exists>x. files s (temp_of e p) = Some x \<and> sealed e p x)))
     \<and> (files s p = old \<or> (\<exists>x. files s p = Some x \<and> sealed e p x)))"

lemma calm_write:
  "io_script s = [] \<Longrightarrow> fs_write t x s = (r, s') \<Longrightarrow>
     io_script s' = [] \<and> (case r of Inr _ \<Rightarrow> files s' = (files s)(t \<mapsto> x) | Inl _ \<Rightarrow> files s' = files s)"
  by (auto simp: fs_write_def next_outcome_calm split: if_splits)

lemma calm_rename:
  "io_script s = [] \<Longrightarrow> fs_rename t p s = (r, s') \<Longrightarrow>
     io_script s' = [] \<and> (case r of Inr _ \<Rightarrow> (\<exists>x. files s t = Some x \<and> files s' = (files s)(t := None, p \<mapsto> x))
       | Inl _ \<Rightarrow> files s' = files s)"
  by (auto simp: fs_rename_def next_outcome_calm split: if_splits option.splits)

lemma saves_inv_step:
  assumes "save_step e p ss ss'" "saves_inv e p old ss" "temp_of e p \<noteq> p"
  shows "saves_inv e p old ss'"
  using assms
proof (induction rule: save_step.induct)
  case (begun c tmp x ts s)
  then show ?case using save_begin_temp [OF begun(2)] by (auto simp: saves_inv_def sealed_def)
next
  case (written tmp x s s' xs ys)
  with calm_write [OF _ written(1)] show ?case by (auto simp: saves_inv_def)
next
  case (write_failed tmp x s err s' xs ys)
  with calm_write [OF _ write_failed(1)] show ?case by (auto simp: saves_inv_def)
next
  case (renamed tmp s s' xs ys)
  with calm_rename [OF _ renamed(1)] show ?case by (auto simp: saves_inv_def)
next
  case (rename_failed tmp s err s' xs ys)
  with calm_rename [OF _ rename_failed(1)] show ?case by (auto simp: saves_inv_def)
qed

lemma saves_inv_steps:
  "save_steps e p ss ss' \<Longrightarrow> saves_inv e p old ss \<Longrightarrow> temp_of e p \<noteq> p \<Longrightarrow> saves_inv e p old ss'"
  by (induction rule: rtranclp_induct) (auto dest: saves_inv_step)

text \<open>
  Overlapping saves never leave a broken keystore as long as no write fails: from any disk, with
  any number of saves started at any time and their writes and renames in any order, the keystore
  at every moment is the old one or a complete one, although all of them use the same temporary
  file. (A save may then report an error because another one has renamed the file away.)
\<close>
lemma overlapping_saves_keep_a_keystore:
  assumes "ks_ok e" "ks_place e p" "io_script s = []"
    and "save_steps e p ([], s) (ts, s')"
  shows "ks_stored e p s' = ks_stored e p s \<or> (\<exists>c. ks_stored e p s' = Inr (Some c) \<and> wf_contents c)"
proof -
  have "saves_inv e p (files s p) ([], s)" using assms(3) by (simp add: saves_inv_def)
  moreover have "temp_of e p \<noteq> p" using tmp_other [OF assms(2)] by (simp add: temp_of_def)
  ultimately have "saves_inv e p (files s p) (ts, s')" by (rule saves_inv_steps [OF assms(4)])
  then have "files s' p = files s p \<or> (\<exists>x. files s' p = Some x \<and> sealed e p x)" by (simp add: saves_inv_def)
  with sealed_stored [OF assms(1)] show ?thesis by (auto simp: ks_stored_def)
qed

lemma overlapping_saves_keep_a_keystore_example:
  "\<exists>s'. save_steps (sample_env 7) sample_path ([], w_fs alice_world) ([Finished (Inr ())], s')
     \<and> (\<exists>c. ks_stored (sample_env 7) sample_path s' = Inr (Some c) \<and> wf_contents c)"
proof -
  have h: "home_disk sample_contents (w_fs alice_world)" using alice_phone_world by (simp add: phone_world_def)
  obtain s' where k: "ks_save (sample_env 7) sample_path revoked_contents (w_fs alice_world) = (Inr (), s')"
    using home_disk_save [OF h small_revoked] by blast
  then obtain tmp x where b: "save_begin (sample_env 7) sample_path revoked_contents = Inr (tmp, x)"
    by (cases "save_begin (sample_env 7) sample_path revoked_contents") (auto simp: ks_save_begin)
  have "wf_contents revoked_contents" using small_revoked by (simp only: small_def)
  from save_alone [OF this b k] have st: "save_steps (sample_env 7) sample_path ([], w_fs alice_world) ([Finished (Inr ())], s')" .
  have "io_script (w_fs alice_world) = []" using h by (simp add: home_disk_def)
  from overlapping_saves_keep_a_keystore [OF sample_env_ok sample_place this st] home_disk_stored [OF h small_sample] st
  show ?thesis by auto
qed

subsection \<open>A property of every ciphertext\<close>

text \<open>
  \<open>x\<close> is a ciphertext of contents with \<open>Q\<close>; the disk holds contents with \<open>Q\<close>, or no keystore or one that
  cannot be read where that may be.
\<close>

definition sealed_by :: "daemon_env \<Rightarrow> Config \<Rightarrow> (KeystoreContents \<Rightarrow> bool) \<Rightarrow> bytes \<Rightarrow> bool" where
  "sealed_by env cfg Q x \<longleftrightarrow> (\<exists>c tmp. Q c \<and> save_begin (e_ks env) (keystore_path cfg) c = Inr (tmp, x))"

record disk_may =
  may_lack :: bool
  may_break :: bool

definition store_holds :: "daemon_env \<Rightarrow> Config \<Rightarrow> (KeystoreContents \<Rightarrow> bool) \<Rightarrow> disk_may \<Rightarrow> 'o world \<Rightarrow> bool" where
  "store_holds env cfg Q may w \<longleftrightarrow>
     (may_lack may \<and> disk env cfg w = Inr None \<or> may_break may \<and> (\<exists>e. disk env cfg w = Inl e))
     \<or> (\<exists>c. disk env cfg w = Inr (Some c) \<and> Q c)"

text \<open>What a failing write may leave of such a ciphertext.\<close>

definition part_sealed :: "daemon_env \<Rightarrow> Config \<Rightarrow> (KeystoreContents \<Rightarrow> bool) \<Rightarrow> disk_may \<Rightarrow> bytes \<Rightarrow> bool" where
  "part_sealed env cfg Q may x \<longleftrightarrow>
     sealed_by env cfg Q x \<or> may_break may \<and> (\<exists>y k. sealed_by env cfg Q y \<and> x = take k y)"

lemma store_holds_same:
  "files (w_fs w') (keystore_path cfg) = files (w_fs w) (keystore_path cfg) \<Longrightarrow>
     store_holds env cfg Q f w' = store_holds env cfg Q f w"
  by (simp add: store_holds_def disk_def ks_stored_def)

lemma sealed_by_mono: "(\<And>c. Q c \<Longrightarrow> R c) \<Longrightarrow> sealed_by env cfg Q x \<Longrightarrow> sealed_by env cfg R x"
  by (auto simp: sealed_by_def)

lemma store_holds_mono: "(\<And>c. Q c \<Longrightarrow> R c) \<Longrightarrow> store_holds env cfg Q f w \<Longrightarrow> store_holds env cfg R f w"
  by (auto simp: store_holds_def)

lemma sealed_on_disk:
  assumes "ks_ok (e_ks env)" "\<And>c. Q c \<Longrightarrow> wf_contents c"
    and "sealed_by env cfg Q x" "files (w_fs w) (keystore_path cfg) = Some x"
  shows "store_holds env cfg Q f w"
proof -
  obtain c tmp where c: "Q c" "save_begin (e_ks env) (keystore_path cfg) c = Inr (tmp, x)"
    using assms(3) by (auto simp: sealed_by_def)
  from begun_stored [OF assms(1) assms(2) [OF c(1)] c(2) assms(4)] c(1) show ?thesis
    by (simp add: store_holds_def disk_def)
qed

lemma part_sealed_mono: "(\<And>c. Q c \<Longrightarrow> R c) \<Longrightarrow> part_sealed env cfg Q may x \<Longrightarrow> part_sealed env cfg R may x"
  using sealed_by_mono [of Q R env cfg] by (auto simp: part_sealed_def)

lemma part_sealed_whole [simp]: "sealed_by env cfg Q x \<Longrightarrow> part_sealed env cfg Q may x"
  by (simp add: part_sealed_def)

lemma cut_unreadable:
  assumes "rejects_cuts e" "save_begin e p c = Inr (tmp, y)" "k < length y" "files s p = Some (take k y)"
  shows "\<exists>err. ks_stored e p s = Inl err"
proof -
  obtain b where "platform_encrypt (ke_platform e) b = Inr y"
    using assms(2) by (auto simp: save_begin_def map_err_def split: sum.splits option.splits)
  with assms(1,3) obtain err where "platform_decrypt (ke_platform e) (take k y) = Inl err"
    unfolding rejects_cuts_def by blast
  with assms(4) show ?thesis by (simp add: ks_stored_def map_err_def)
qed

lemma part_on_disk:
  assumes "ks_ok (e_ks env)" "\<And>c. Q c \<Longrightarrow> wf_contents c" "may_break may \<Longrightarrow> rejects_cuts (e_ks env)"
    and "part_sealed env cfg Q may x" "files (w_fs w) (keystore_path cfg) = Some x"
  shows "store_holds env cfg Q may w"
proof (cases "sealed_by env cfg Q x")
  case True
  then show ?thesis using sealed_on_disk assms(1,2,5) by blast
next
  case False
  then obtain y k where y: "may_break may" "sealed_by env cfg Q y" "x = take k y"
    using assms(4) by (auto simp: part_sealed_def)
  moreover from y(2,3) False have "k < length y" by (cases "k < length y") simp_all
  ultimately have x: "may_break may" "sealed_by env cfg Q y" "x = take k y" "k < length y" by blast+
  then obtain c tmp where "save_begin (e_ks env) (keystore_path cfg) c = Inr (tmp, y)" by (auto simp: sealed_by_def)
  from cut_unreadable [OF _ this x(4)] assms(3,5) x(1,3) show ?thesis by (auto simp: store_holds_def disk_def)
qed

lemma temp_other: "temp_of (e_ks env) (keystore_path cfg) \<noteq> keystore_path cfg"
  using tmp_other [OF keystore_path_place [of "e_ks env" cfg]] by (simp add: temp_of_def)

subsection \<open>What can go wrong\<close>

lemma two_begun:
  assumes "wf_contents c1" "wf_contents c2" "save_begin e p c1 = Inr (tmp, x1)" "save_begin e p c2 = Inr (tmp2, x2)"
  shows "save_steps e p ([], s) ([Writing tmp x1, Writing tmp x2], s)"
proof -
  have "tmp2 = tmp" using save_begin_temp [OF assms(3)] save_begin_temp [OF assms(4)] by simp
  with save_step.begun [OF assms(1,3), of "[]" s] save_step.begun [OF assms(2,4), of "[Writing tmp x1]" s]
  show ?thesis by (auto intro: converse_rtranclp_into_rtranclp)
qed

text \<open>
  C26: Overlapping saves break what a single save promises. First, if one of two writes fails, the other
  save can rename the failed one's partial file over the keystore and report success: the keystore is
  destroyed. Second, with nothing failing, both saves can succeed and the disk end up with the
  older snapshot, so a change that was acknowledged as saved is gone.
\<close>
theorem overlapping_saves_can_lose_the_keystore:
  assumes "ks_ok e" "ks_place e p" "wf_contents c1" "wf_contents c2"
    and "save_begin e p c1 = Inr (tmp, x1)" "save_begin e p c2 = Inr (tmp2, x2)"
    and "can_create tmp s" "can_create p s"
  shows "(\<exists>s'. save_steps e p ([], s\<lparr>io_script := [IoOk, IoFail m (Some k)]\<rparr>)
        ([Finished (Inr ()), Finished (Inl (Io (OtherIo m)))], s') \<and> files s' p = Some (take k x2))
     \<and> (\<exists>s'. save_steps e p ([], s\<lparr>io_script := []\<rparr>) ([Finished (Inr ()), Finished (Inr ())], s')
          \<and> ks_stored e p s' = Inr (Some c1))"
proof -
  have tmp: "tmp2 = tmp" "tmp \<noteq> p"
    using assms(5,6) tmp_other [OF assms(2)] by (auto dest!: save_begin_temp simp: temp_of_def)
  note two = two_begun [OF assms(3-6)]
  let ?s = "s\<lparr>io_script := [IoOk, IoFail m (Some k)]\<rparr>"
  let ?s1 = "s\<lparr>io_script := [IoFail m (Some k)], files := (files s)(tmp \<mapsto> x1)\<rparr>"
  let ?s2 = "s\<lparr>io_script := [], files := (files s)(tmp \<mapsto> take k x2)\<rparr>"
  let ?s3 = "s\<lparr>io_script := [], files := (files s)(tmp := None, p \<mapsto> take k x2)\<rparr>"
  have cc: "can_create tmp s'" "can_create p s'" if "dirs s' = dirs s" for s'
    using assms(7,8) that by (simp_all add: can_create_def)
  have w1: "save_step e p ([] @ Writing tmp x1 # [Writing tmp x2], ?s) ([] @ Renaming tmp # [Writing tmp x2], ?s1)"
    by (rule save_step.written) (simp add: fs_write_def next_outcome.simps cc)
  have w2: "save_step e p ([Renaming tmp] @ Writing tmp x2 # [], ?s1) ([Renaming tmp] @ Finished (Inl (Io (OtherIo m))) # [], ?s2)"
    by (rule save_step.write_failed) (simp add: fs_write_def next_outcome.simps cc)
  have r1: "save_step e p ([] @ Renaming tmp # [Finished (Inl (Io (OtherIo m)))], ?s2)
      ([] @ Finished (Inr ()) # [Finished (Inl (Io (OtherIo m)))], ?s3)"
    by (rule save_step.renamed) (simp add: fs_rename_def next_outcome.simps cc)
  have "save_steps e p ([], ?s) ([Finished (Inr ()), Finished (Inl (Io (OtherIo m)))], ?s3)"
    using two [of ?s] w1 w2 r1 unfolding append_Nil append_Cons by (meson rtranclp.rtrancl_into_rtrancl)
  moreover have "files ?s3 p = Some (take k x2)" by simp
  ultimately have first: "\<exists>s'. save_steps e p ([], ?s) ([Finished (Inr ()), Finished (Inl (Io (OtherIo m)))], s')
      \<and> files s' p = Some (take k x2)" by blast
  let ?t = "s\<lparr>io_script := []\<rparr>"
  let ?t1 = "s\<lparr>io_script := [], files := (files s)(tmp \<mapsto> x2)\<rparr>"
  let ?t2 = "s\<lparr>io_script := [], files := (files s)(tmp := None, p \<mapsto> x2)\<rparr>"
  let ?t3 = "s\<lparr>io_script := [], files := (files s)(p \<mapsto> x2, tmp \<mapsto> x1)\<rparr>"
  let ?t4 = "s\<lparr>io_script := [], files := (files s)(tmp := None, p \<mapsto> x1)\<rparr>"
  have v1: "save_step e p ([Writing tmp x1] @ Writing tmp x2 # [], ?t) ([Writing tmp x1] @ Renaming tmp # [], ?t1)"
    by (rule save_step.written) (simp add: fs_write_def next_outcome.simps cc)
  have v2: "save_step e p ([Writing tmp x1] @ Renaming tmp # [], ?t1) ([Writing tmp x1] @ Finished (Inr ()) # [], ?t2)"
    by (rule save_step.renamed) (simp add: fs_rename_def next_outcome.simps cc)
  have v3: "save_step e p ([] @ Writing tmp x1 # [Finished (Inr ())], ?t2) ([] @ Renaming tmp # [Finished (Inr ())], ?t3)"
    by (rule save_step.written) (use tmp(2) in \<open>simp add: fs_write_def next_outcome.simps cc fun_upd_twist\<close>)
  have v4: "save_step e p ([] @ Renaming tmp # [Finished (Inr ())], ?t3) ([] @ Finished (Inr ()) # [Finished (Inr ())], ?t4)"
    by (rule save_step.renamed) (use tmp(2) in \<open>simp add: fs_rename_def next_outcome.simps cc fun_upd_twist\<close>)
  have steps: "save_steps e p ([], ?t) ([Finished (Inr ()), Finished (Inr ())], ?t4)"
    using two [of ?t] v1 v2 v3 v4 unfolding append_Nil append_Cons by (meson rtranclp.rtrancl_into_rtrancl)
  have "ks_stored e p ?t4 = Inr (Some c1)" by (rule begun_stored [OF assms(1,3,5)]) simp
  with first steps show ?thesis by blast
qed

theorem overlapping_saves_can_lose_the_keystore_witness:
  "\<exists>s' e. ks_stored (sample_env 7) sample_path (w_fs alice_world) = Inr (Some sample_contents)
     \<and> save_steps (sample_env 7) sample_path ([], (w_fs alice_world)\<lparr>io_script := [IoOk, IoFail ''disk full'' (Some 0)]\<rparr>)
          ([Finished (Inr ()), Finished (Inl (Io (OtherIo ''disk full'')))], s')
     \<and> ks_stored (sample_env 7) sample_path s' = Inl (Encryption e)"
proof -
  have h: "home_disk sample_contents (w_fs alice_world)" using alice_phone_world by (simp add: phone_world_def)
  have b: "\<exists>tmp x. save_begin (sample_env 7) sample_path c = Inr (tmp, x)" if c: "small c" for c
    using home_disk_save [OF h c] by (cases "save_begin (sample_env 7) sample_path c") (auto simp: ks_save_begin)
  obtain tmp x1 tmp2 x2 where x: "save_begin (sample_env 7) sample_path sample_contents = Inr (tmp, x1)"
    "save_begin (sample_env 7) sample_path revoked_contents = Inr (tmp2, x2)"
    using b [OF small_sample] b [OF small_revoked] by blast
  have "can_create tmp (w_fs alice_world)" "can_create sample_path (w_fs alice_world)"
    using save_begin_temp [OF x(1)]
    by (simp_all add: can_create_def temp_of_def join_def alice_world_def)
  from overlapping_saves_can_lose_the_keystore [OF sample_env_ok sample_place sample_contents_wf _ x this,
      of "''disk full''" 0]
  obtain s' where s': "save_steps (sample_env 7) sample_path
      ([], (w_fs alice_world)\<lparr>io_script := [IoOk, IoFail ''disk full'' (Some 0)]\<rparr>)
      ([Finished (Inr ()), Finished (Inl (Io (OtherIo ''disk full'')))], s')" "files s' sample_path = Some []"
    using small_revoked by (auto simp: small_def)
  have "\<exists>e. ks_stored (sample_env 7) sample_path s' = Inl (Encryption e)"
    by (simp add: ks_stored_def s'(2) sample_env_def platform_decrypt_def windows_decrypt_def sample_dpapi_def
        u32_try_from_def map_err_def)
  with s'(1) home_disk_stored [OF h small_sample] show ?thesis by blast
qed

end
