(* ===== verification/Connection_Awaits.thy ===== *)
theory Connection_Awaits
  imports Concurrent_Saves
begin

section \<open>A connection cut at its awaits\<close>

text \<open>
  The task of one connection (\<open>server/connection.rs\<close>) between two points at which it touches what it
  shares with the others: the keystore contents behind the lock, the disk, the clock, the host. A
  guard of the lock is held within one segment; the write of a save and its rename are segments of
  their own. The connection's stream, buffer and nonces are its own, so reading a frame, checking
  and decoding it is one segment, as is writing a response.
\<close>

text \<open>What follows a save: the loop, or the answer, which may depend on the outcome.\<close>

datatype after_save =
    ToLoop
  | ToAnswer DaemonFrame DaemonFrame

datatype point =
    Checking SocketAddr
  | Recording SocketAddr
  | Saving after_save
  | SavingWrite after_save path bytes
  | SavingRename after_save path
  | Reading
  | Deciding ClientFrame u64 u64
  | Handling ClientFrame u64 ReauthState KeystoreContents
  | Answering DaemonFrame

record conn_task =
  ct_peer :: SpkiHash
  ct_nonces :: NonceCounter
  ct_buf :: bytes
  ct_stream :: tls_stream
  ct_point :: point

datatype progress =
    Done "anyhow_error + unit" tls_stream
  | At conn_task

definition begin_task :: "daemon_env \<Rightarrow> tls_stream \<Rightarrow> SocketAddr \<Rightarrow> progress" where
  "begin_task env t peer_addr =
     (case map_err (Context ''extracting peer SPKI from TLS session'') (peer_spki_from_tls env t) of
        Inl e \<Rightarrow> Done (Inl e) t
      | Inr peer_spki \<Rightarrow>
          At \<lparr>ct_peer = peer_spki, ct_nonces = counter_new, ct_buf = [], ct_stream = t,
              ct_point = Checking peer_addr\<rparr>)"

definition at :: "conn_task \<Rightarrow> point \<Rightarrow> progress" where
  "at c p = At (c\<lparr>ct_point := p\<rparr>)"

definition after :: "after_save \<Rightarrow> KeystoreError + unit \<Rightarrow> point" where
  "after k result =
     (case k of
        ToLoop \<Rightarrow> Reading
      | ToAnswer saved failed \<Rightarrow> Answering (if is_ok result then saved else failed))"

text \<open>The three segments of \<open>SharedState::save\<close>.\<close>

definition save_snapshot ::
    "daemon_env \<Rightarrow> conn_task \<Rightarrow> after_save \<Rightarrow> 'o SharedState \<Rightarrow> progress" where
  "save_snapshot env c k st =
     (case save_begin (e_ks env) (keystore_path (config st)) (snapshot st) of
        Inl e \<Rightarrow> at c (after k (Inl e))
      | Inr (tmp, ciphertext) \<Rightarrow> at c (SavingWrite k tmp ciphertext))"

definition save_write ::
    "conn_task \<Rightarrow> after_save \<Rightarrow> path \<Rightarrow> bytes \<Rightarrow> 'o world \<Rightarrow> progress \<times> 'o world" where
  "save_write c k tmp ciphertext w =
     (case on_fs (fs_write tmp ciphertext) w of
        (Inl e, w') \<Rightarrow> (at c (after k (Inl (Io e))), w')
      | (Inr _, w') \<Rightarrow> (at c (SavingRename k tmp), w'))"

definition save_rename ::
    "conn_task \<Rightarrow> after_save \<Rightarrow> path \<Rightarrow> path \<Rightarrow> 'o world \<Rightarrow> progress \<times> 'o world" where
  "save_rename c k tmp p w =
     (case on_fs (fs_rename tmp p) w of (r, w') \<Rightarrow> (at c (after k (map_err Io r)), w'))"

text \<open>From the top of the loop to the first await of \<open>dispatch\<close>.\<close>

definition read_request :: "daemon_env \<Rightarrow> conn_task \<Rightarrow> 'o world \<Rightarrow> progress \<times> 'o world" where
  "read_request env c w =
     (case read_envelope (ct_buf c) (ct_stream c) of
        (Inl e, _, t1) \<Rightarrow> (Done (Inl e) t1, w)
      | (Inr None, _, t1) \<Rightarrow> (Done (Inr ()) t1, w)
      | (Inr (Some envelope), buf1, t1) \<Rightarrow>
          (case accept (recv (ct_nonces c)) (nonce envelope) of
             (Inl _, _) \<Rightarrow>
               (case send_error_and_close env t1 (nonce envelope) NonceReplay of (r, t2) \<Rightarrow> (Done r t2, w))
           | (Inr _, recv') \<Rightarrow>
               (case decode_client_frame (e_client_codec env) (payload envelope) of
                  Inl e \<Rightarrow>
                    (case send_error_and_close env t1 (nonce envelope) (to_wire_code e) of
                       (r, t2) \<Rightarrow> (Done r t2, w))
                | Inr frame \<Rightarrow>
                    (case unix_ms_now w of
                       (now_ms, w1) \<Rightarrow>
                         (at (c\<lparr>ct_nonces := (ct_nonces c)\<lparr>recv := recv'\<rparr>, ct_buf := buf1, ct_stream := t1\<rparr>)
                            (Deciding frame (nonce envelope) now_ms), w1)))))"

definition handle_gated ::
    "conn_task \<Rightarrow> ReauthState \<Rightarrow> ('o \<Rightarrow> (OsHandlerError + unit) \<times> 'o) \<Rightarrow> u64 \<Rightarrow> 'o world
       \<Rightarrow> progress \<times> 'o world" where
  "handle_gated c reauth_state handler request_nonce w =
     (case block_state_change reauth_state of
        Some blocked \<Rightarrow> (at c (Answering (DaemonFrame.Error request_nonce blocked)), w)
      | None \<Rightarrow>
          (case on_os handler w of
             (result, w') \<Rightarrow> (at c (Answering (handler_to_response result request_nonce)), w')))"

text \<open>\<open>dispatch\<close> from the snapshot to its next await or its result.\<close>

definition handle_frame ::
    "conn_task \<Rightarrow> ClientFrame \<Rightarrow> u64 \<Rightarrow> ReauthState \<Rightarrow> KeystoreContents \<Rightarrow> 'o SharedState \<Rightarrow> 'o world
       \<Rightarrow> progress \<times> 'o SharedState \<times> 'o world" where
  "handle_frame c frame request_nonce reauth_state snap st w =
     (case frame of
        Pair _ _ \<Rightarrow> (at c (Answering (DaemonFrame.Error request_nonce NotPaired)), st, w)
      | Sleep \<Rightarrow>
          (case handle_gated c reauth_state (h_sleep (handlers st)) request_nonce w of (p, w') \<Rightarrow> (p, st, w'))
      | Lock \<Rightarrow>
          (case handle_gated c reauth_state (h_lock (handlers st)) request_nonce w of (p, w') \<Rightarrow> (p, st, w'))
      | PowerOff \<Rightarrow>
          (case handle_gated c reauth_state (h_power_off (handlers st)) request_nonce w of (p, w') \<Rightarrow> (p, st, w'))
      | StateProbe \<Rightarrow>
          (case on_os (h_session_state (handlers st)) w of
             (Inr s, w') \<Rightarrow> (at c (Answering (StateReport s)), st, w')
           | (Inl _, w') \<Rightarrow> (at c (Answering (DaemonFrame.Error request_nonce Internal)), st, w'))
      | ReauthStatus \<Rightarrow>
          (at c (Answering (ReauthInfo (ks_last_authenticated_at_unix_ms snap)
             (interval_from_days (reauth_interval_days snap))
             (expires_at_unix_ms (ks_last_authenticated_at_unix_ms snap) (reauth_interval_days snap)))), st, w)
      | ReauthConfig interval \<Rightarrow>
          (at c (Saving (ToAnswer (Ack request_nonce) (DaemonFrame.Error request_nonce Internal))),
           state_write (\<lambda>k. k\<lparr>reauth_interval_days := interval_to_days interval\<rparr>) st, w)
      | RevokeAck \<Rightarrow>
          let before = length (pairings (contents st));
              st' = state_write (\<lambda>k. k\<lparr>pairings :=
                      filter (\<lambda>p. \<not> (client_spki p = ct_peer c \<and> revoked p)) (pairings k)\<rparr>) st;
              removed = before - length (pairings (contents st'))
          in (at c (if removed > 0 then Saving (ToAnswer (Ack request_nonce) (Ack request_nonce))
                    else Answering (Ack request_nonce)), st', w))"

definition write_answer :: "daemon_env \<Rightarrow> conn_task \<Rightarrow> DaemonFrame \<Rightarrow> progress" where
  "write_answer env c response =
     (case write_frame env (ct_stream c) (ct_nonces c) response of
        (Inl e, t2, _) \<Rightarrow> Done (Inl e) t2
      | (Inr wrote, t2, nonces2) \<Rightarrow>
          if \<not> wrote then Done (Inr ()) t2
          else if response_closes_connection response then Done (Inr ()) (tls_shutdown t2)
          else at (c\<lparr>ct_nonces := nonces2, ct_stream := t2\<rparr>) Reading)"

definition advance ::
    "daemon_env \<Rightarrow> conn_task \<Rightarrow> 'o SharedState \<Rightarrow> 'o world \<Rightarrow> progress \<times> 'o SharedState \<times> 'o world" where
  "advance env c st w =
     (case ct_point c of
        Checking peer_addr \<Rightarrow>
          (case active_pairing (contents st) (ct_peer c) of
             None \<Rightarrow> (case send_error_and_close env (ct_stream c) 0 Revoked of (r, t) \<Rightarrow> (Done r t, st, w))
           | Some _ \<Rightarrow> (at c (Recording peer_addr), st, w))
      | Recording peer_addr \<Rightarrow>
          (let (changed, ps) = record_address (ct_peer c) peer_addr (pairings (contents st))
           in (at c (if changed then Saving ToLoop else Reading), state_write (\<lambda>k. k\<lparr>pairings := ps\<rparr>) st, w))
      | Saving k \<Rightarrow> (save_snapshot env c k st, st, w)
      | SavingWrite k tmp x \<Rightarrow> (case save_write c k tmp x w of (p, w') \<Rightarrow> (p, st, w'))
      | SavingRename k tmp \<Rightarrow>
          (case save_rename c k tmp (keystore_path (config st)) w of (p, w') \<Rightarrow> (p, st, w'))
      | Reading \<Rightarrow> (case read_request env c w of (p, w') \<Rightarrow> (p, st, w'))
      | Deciding frame request_nonce now_ms \<Rightarrow>
          (let snap = snapshot st
           in (at c (Handling frame request_nonce
                 (evaluate now_ms (ks_last_authenticated_at_unix_ms snap) (reauth_interval_days snap)) snap), st, w))
      | Handling frame request_nonce reauth_state snap \<Rightarrow>
          handle_frame c frame request_nonce reauth_state snap st w
      | Answering response \<Rightarrow> (write_answer env c response, st, w))"


subsection \<open>A task left alone\<close>

text \<open>Every segment either takes bytes off the stream or comes closer to the next read.\<close>

primrec rank :: "point \<Rightarrow> nat" where
  "rank Reading = 0"
| "rank (Answering r) = 1"
| "rank (SavingRename k tmp) = 2"
| "rank (SavingWrite k tmp x) = 3"
| "rank (Saving k) = 4"
| "rank (Handling f n rs snap) = 5"
| "rank (Deciding f n now) = 6"
| "rank (Recording a) = 7"
| "rank (Checking a) = 8"

lemma rank_after [simp]: "1 \<le> m \<Longrightarrow> rank (after k r) \<le> m"
  by (simp add: after_def split: after_save.split)

definition task_pending :: "conn_task \<Rightarrow> nat" where
  "task_pending c = length (pending (ct_buf c) (ct_stream c))"

lemma task_pending_point [simp]: "task_pending (c\<lparr>ct_point := p\<rparr>) = task_pending c"
  by (simp add: task_pending_def)

lemma read_request_shrinks:
  "read_request env c w = (At c', w') \<Longrightarrow> task_pending c' < task_pending c"
  by (auto simp: read_request_def at_def task_pending_def pending_def dest!: read_envelope_shrinks
      split: prod.splits sum.splits option.splits)

lemma write_answer_At:
  "write_answer env c r = At c' \<Longrightarrow>
     task_pending c' = task_pending c \<and> ct_point c' = Reading \<and> ct_peer c' = ct_peer c"
  by (auto simp: write_answer_def at_def task_pending_def pending_def dest!: write_frame_pair
      split: prod.splits sum.splits if_splits)

lemma at_eq [simp]: "at c p = at c q \<longleftrightarrow> p = q" "at c p \<noteq> Done r t" "Done r t \<noteq> at c p"
  by (auto simp: at_def dest: arg_cong [of _ _ ct_point])

lemma at_At [simp]: "at c p = At c' \<longleftrightarrow> c' = c\<lparr>ct_point := p\<rparr>"
  "At c' = at c p \<longleftrightarrow> c' = c\<lparr>ct_point := p\<rparr>"
  by (auto simp: at_def)

lemma handle_frame_point:
  "\<exists>p. fst (handle_frame c f n rs snap st w) = at c p \<and> rank p \<in> {1, 4}"
  by (cases f) (auto simp: handle_frame_def handle_gated_def Let_def
      split: prod.split sum.split option.split)

lemma save_snapshot_point: "\<exists>p. save_snapshot env c k st = at c p \<and> rank p \<le> 3"
  by (auto simp: save_snapshot_def split: sum.split prod.split)

lemma save_write_point: "\<exists>p. fst (save_write c k tmp x w) = at c p \<and> rank p \<le> 2"
  by (auto simp: save_write_def split: sum.split prod.split)

lemma save_rename_point: "\<exists>p. fst (save_rename c k tmp q w) = at c p \<and> rank p \<le> 1"
  by (auto simp: save_rename_def split: prod.split)

lemma advance_shrinks:
  assumes "advance env c st w = (At c', st', w')"
  shows "task_pending c' < task_pending c \<or> task_pending c' = task_pending c \<and> rank (ct_point c') < rank (ct_point c)"
proof (cases "ct_point c")
  case Reading
  with assms show ?thesis by (auto simp: advance_def dest: read_request_shrinks split: prod.splits)
next
  case (Answering r)
  with assms show ?thesis by (auto simp: advance_def dest: write_answer_At)
next
  case (Handling f n rs snap)
  with assms handle_frame_point [of c f n rs snap st w] show ?thesis by (auto simp: advance_def)
next
  case (Saving k)
  with assms save_snapshot_point [of env c k st] show ?thesis by (auto simp: advance_def)
next
  case (SavingWrite k tmp x)
  with assms save_write_point [of c k tmp x w] show ?thesis by (auto simp: advance_def split: prod.splits)
next
  case (SavingRename k tmp)
  with assms save_rename_point [of c k tmp "keystore_path (config st)" w] show ?thesis
    by (auto simp: advance_def split: prod.splits)
qed (use assms in \<open>auto simp: advance_def Let_def split: prod.splits option.splits\<close>)

text \<open>A turn: the segments of a task up to the next read, or its end.\<close>

function turn_run ::
    "daemon_env \<Rightarrow> conn_task \<Rightarrow> 'o SharedState \<Rightarrow> 'o world \<Rightarrow> progress \<times> 'o SharedState \<times> 'o world" where
  "turn_run env c st w =
     (case advance env c st w of
        (Done r t, st', w') \<Rightarrow> (Done r t, st', w')
      | (At c', st', w') \<Rightarrow> if ct_point c' = Reading then (At c', st', w') else turn_run env c' st' w')"
  by pat_completeness auto
termination
  by (relation "measures [\<lambda>(_, c, _, _). task_pending c, \<lambda>(_, c, _, _). rank (ct_point c)]")
    (auto dest!: advance_shrinks [OF sym])

declare turn_run.simps [simp del]

definition resume :: "daemon_env \<Rightarrow> progress \<times> 'o SharedState \<times> 'o world \<Rightarrow> progress \<times> 'o SharedState \<times> 'o world" where
  "resume env x =
     (case x of
        (Done r t, st, w) \<Rightarrow> (Done r t, st, w)
      | (At c, st, w) \<Rightarrow> if ct_point c = Reading then (At c, st, w) else turn_run env c st w)"

lemma turn_run_resume: "turn_run env c st w = resume env (advance env c st w)"
  by (simp add: turn_run.simps [of env c] resume_def split: prod.split progress.split)

lemma resume_at:
  "resume env (at c p, st, w) =
     (if p = Reading then (at c p, st, w) else turn_run env (c\<lparr>ct_point := p\<rparr>) st w)"
  by (simp add: resume_def at_def)

lemma at_from_anywhere [simp]: "at (c\<lparr>ct_point := q\<rparr>) p = at c p"
  by (simp add: at_def)

lemma handle_gated_from_anywhere [simp]:
  "handle_gated (c\<lparr>ct_point := q\<rparr>) rs h n w = handle_gated c rs h n w"
  by (simp add: handle_gated_def split: prod.split option.split)

lemma handle_frame_from_anywhere [simp]:
  "handle_frame (c\<lparr>ct_point := q\<rparr>) f n rs snap st w = handle_frame c f n rs snap st w"
  by (cases f) (simp_all add: handle_frame_def Let_def split: prod.split sum.split)

text \<open>The segments of a save make up \<open>SharedState::save\<close>.\<close>

lemma turn_run_save:
  "turn_run env (c\<lparr>ct_point := Saving k\<rparr>) st w =
     (case state_save env st w of (r, w') \<Rightarrow> resume env (at c (after k r), st, w'))"
proof (cases "save_begin (e_ks env) (keystore_path (config st)) (snapshot st)")
  case (Inl e)
  then show ?thesis
    by (simp add: turn_run_resume advance_def save_snapshot_def state_save_def on_fs_def ks_save_begin)
next
  case (Inr tx)
  obtain tmp x where tx: "tx = (tmp, x)" by fastforce
  obtain wr s1 where wr: "fs_write tmp x (w_fs w) = (wr, s1)" by fastforce
  obtain rr s2 where rr: "fs_rename tmp (keystore_path (config st)) s1 = (rr, s2)" by fastforce
  show ?thesis
    using Inr tx wr rr
    by (cases wr; cases rr)
      (simp_all add: turn_run_resume [of env "c\<lparr>ct_point := Saving k\<rparr>"]
        turn_run_resume [of env "c\<lparr>ct_point := SavingWrite k tmp x\<rparr>"]
        turn_run_resume [of env "c\<lparr>ct_point := SavingRename k tmp\<rparr>"] resume_at [of env c "SavingWrite k tmp x"]
        resume_at [of env c "SavingRename k tmp"]
        advance_def save_snapshot_def save_write_def save_rename_def
        state_save_def on_fs_def ks_save_begin replace_file_def)
qed

lemma turn_run_saved_answer:
  "turn_run env (c\<lparr>ct_point := Saving (ToAnswer ok err)\<rparr>) st w =
     (case state_save env st w of
        (r, w') \<Rightarrow> turn_run env (c\<lparr>ct_point := Answering (if is_ok r then ok else err)\<rparr>) st w')"
  by (auto simp: turn_run_save after_def resume_at is_ok_def split: prod.split sum.split)

text \<open>The segments of one frame make up \<open>dispatch\<close>.\<close>

lemma turn_run_dispatch:
  assumes "unix_ms_now w0 = (now, w)"
  shows "turn_run env (c\<lparr>ct_point := Deciding f n now\<rparr>) st w =
     (case dispatch env (ct_peer c) f n st w0 of
        (r, st1, w1) \<Rightarrow> turn_run env (c\<lparr>ct_point := Answering r\<rparr>) st1 w1)"
proof -
  let ?rs = "evaluate now (ks_last_authenticated_at_unix_ms (contents st)) (reauth_interval_days (contents st))"
  let ?h = "Handling f n ?rs (contents st)"
  have d: "turn_run env (c\<lparr>ct_point := Deciding f n now\<rparr>) st w = turn_run env (c\<lparr>ct_point := ?h\<rparr>) st w"
    by (simp add: turn_run_resume [of env "c\<lparr>ct_point := Deciding f n now\<rparr>"] advance_def snapshot_def Let_def resume_at)
  have h: "turn_run env (c\<lparr>ct_point := ?h\<rparr>) st w = resume env (handle_frame c f n ?rs (contents st) st w)"
    by (simp add: turn_run_resume [of env "c\<lparr>ct_point := ?h\<rparr>"] advance_def)
  show ?thesis
    unfolding d h dispatch_def assms prod.case Let_def snapshot_def handle_frame_def
    by (cases f) (auto simp: resume_at gated_def handle_gated_def turn_run_saved_answer is_ok_def state_write_def
      split: prod.split option.split sum.split)
qed

lemma turn_run_answer:
  "turn_run env (c\<lparr>ct_point := Answering r\<rparr>) st w = (write_answer env c r, st, w)"
proof -
  have "write_answer env (c\<lparr>ct_point := q\<rparr>) r = write_answer env c r" for q
    by (simp add: write_answer_def at_def split: prod.split sum.split)
  then show ?thesis
    using write_answer_At [of env c r]
    by (cases "write_answer env c r") (simp_all add: turn_run_resume advance_def resume_def)
qed

text \<open>A task that waits for the next frame, and what its turn does: one step of the loop.\<close>

definition waiting :: "SpkiHash \<Rightarrow> NonceCounter \<Rightarrow> bytes \<Rightarrow> tls_stream \<Rightarrow> conn_task" where
  "waiting h ns buf t = \<lparr>ct_peer = h, ct_nonces = ns, ct_buf = buf, ct_stream = t, ct_point = Reading\<rparr>"

lemma waiting_sel [simp]:
  "ct_peer (waiting h ns buf t) = h" "ct_nonces (waiting h ns buf t) = ns" "ct_buf (waiting h ns buf t) = buf"
  "ct_stream (waiting h ns buf t) = t" "ct_point (waiting h ns buf t) = Reading"
  by (simp_all add: waiting_def)

definition turn_progress :: "SpkiHash \<Rightarrow> turn \<Rightarrow> tls_stream \<Rightarrow> progress" where
  "turn_progress h x t =
     (case x of Ended r \<Rightarrow> Done r t | Next ns buf \<Rightarrow> At (waiting h ns buf t))"

lemma turn_run_step:
  "turn_run env (waiting h ns buf t) st w =
     (case conn_step env h ns buf t st w of (x, t', st', w') \<Rightarrow> (turn_progress h x t', st', w'))"
proof -
  let ?c = "waiting h ns buf t"
  have tr: "turn_run env ?c st w = (case read_request env ?c w of (p, w') \<Rightarrow> resume env (p, st, w'))"
    by (simp add: turn_run_resume advance_def split: prod.split)
  obtain out buf1 t1 where rd: "read_envelope buf t = (out, buf1, t1)" by (cases "read_envelope buf t")
  note step = tr read_request_def conn_step_def rd turn_progress_def resume_def
  consider (none) "\<forall>e. out \<noteq> Inr (Some e)"
    | (replay) e x rv where "out = Inr (Some e)" "accept (recv ns) (nonce e) = (Inl x, rv)"
    | (bad) e rv x where "out = Inr (Some e)" "accept (recv ns) (nonce e) = (Inr (), rv)"
        "decode_client_frame (e_client_codec env) (payload e) = Inl x"
    | (frame) e rv f where "out = Inr (Some e)" "accept (recv ns) (nonce e) = (Inr (), rv)"
        "decode_client_frame (e_client_codec env) (payload e) = Inr f"
  proof (cases "\<exists>e. out = Inr (Some e)")
    case True
    then obtain e where e: "out = Inr (Some e)" by blast
    obtain r rv where "accept (recv ns) (nonce e) = (r, rv)" by fastforce
    with e that show ?thesis by (cases r; cases "decode_client_frame (e_client_codec env) (payload e)") auto
  qed (use that in blast)
  then show ?thesis
  proof cases
    case none
    then show ?thesis by (cases out; cases "projr out") (simp_all add: step)
  next
    case replay
    then show ?thesis by (simp add: step split: prod.split)
  next
    case bad
    then show ?thesis by (simp add: step split: prod.split)
  next
    case (frame e rv f)
    let ?d = "?c\<lparr>ct_nonces := ns\<lparr>recv := rv\<rparr>, ct_buf := buf1, ct_stream := t1\<rparr>"
    obtain now w1 where now: "unix_ms_now w = (now, w1)" by fastforce
    have "turn_run env ?c st w = turn_run env (?d\<lparr>ct_point := Deciding f (nonce e) now\<rparr>) st w1"
      using frame now by (simp add: tr read_request_def rd resume_at)
    also have "\<dots> = (case dispatch env h f (nonce e) st w of (r, st1, w1) \<Rightarrow> (write_answer env ?d r, st1, w1))"
      by (simp add: turn_run_dispatch [OF now] turn_run_answer)
    finally show ?thesis
      using frame by (simp add: conn_step_def rd write_answer_def turn_progress_def at_def waiting_def split: prod.split sum.split)
  qed
qed

text \<open>The turn that a task begins with is the start of the connection.\<close>

lemma turn_run_checking:
  "turn_run env (c\<lparr>ct_point := Checking a\<rparr>) st w =
     (case active_pairing (contents st) (ct_peer c) of
        None \<Rightarrow> (case send_error_and_close env (ct_stream c) 0 Revoked of (r, t1) \<Rightarrow> (Done r t1, st, w))
      | Some _ \<Rightarrow>
          let (changed, ps) = record_address (ct_peer c) a (pairings (contents st));
              st1 = state_write (\<lambda>c. c\<lparr>pairings := ps\<rparr>) st
          in (at c Reading, st1, if changed then snd (state_save env st1 w) else w))"
proof -
  have saved: "turn_run env (c\<lparr>ct_point := Saving ToLoop\<rparr>) st' w' = (at c Reading, st', snd (state_save env st' w'))" for st' w'
    by (simp add: turn_run_save after_def resume_at split: prod.split)
  have recorded: "turn_run env (c\<lparr>ct_point := Recording a\<rparr>) st w =
      (case record_address (ct_peer c) a (pairings (contents st)) of (changed, ps) \<Rightarrow>
         let st1 = state_write (\<lambda>c. c\<lparr>pairings := ps\<rparr>) st
         in (at c Reading, st1, if changed then snd (state_save env st1 w) else w))"
    by (simp add: turn_run_resume [of env "c\<lparr>ct_point := Recording a\<rparr>"] advance_def resume_at saved Let_def
        split: prod.split)
  show ?thesis
    by (simp add: turn_run_resume [of env "c\<lparr>ct_point := Checking a\<rparr>"] advance_def resume_at recorded Let_def
        resume_def [of env "(Done _ _, _, _)"] split: option.split prod.split)
qed

lemma turn_run_start:
  "conn_start env t a st w =
     (case begin_task env t a of
        Done r t' \<Rightarrow> (Inl r, t', st, w)
      | At c \<Rightarrow>
          (case turn_run env c st w of
             (Done r t', st', w') \<Rightarrow> (Inl r, t', st', w')
           | (At c', st', w') \<Rightarrow> (Inr (ct_peer c'), ct_stream c', st', w')))"
  and turn_run_started:
  "begin_task env t a = At c \<Longrightarrow> turn_run env c st w = (At c', st', w') \<Longrightarrow>
     c' = waiting (ct_peer c') counter_new [] (ct_stream c')"
proof -
  let ?c = "\<lambda>h. \<lparr>ct_peer = h, ct_nonces = counter_new, ct_buf = [], ct_stream = t, ct_point = Reading\<rparr>"
  note * = turn_run_checking [where c = "?c _", simplified]
  show "conn_start env t a st w =
     (case begin_task env t a of
        Done r t' \<Rightarrow> (Inl r, t', st, w)
      | At c \<Rightarrow>
          (case turn_run env c st w of
             (Done r t', st', w') \<Rightarrow> (Inl r, t', st', w')
           | (At c', st', w') \<Rightarrow> (Inr (ct_peer c'), ct_stream c', st', w')))"
    by (simp add: conn_start_def begin_task_def * at_def snapshot_def Let_def split: sum.split option.split prod.split)
  show "begin_task env t a = At c \<Longrightarrow> turn_run env c st w = (At c', st', w') \<Longrightarrow>
     c' = waiting (ct_peer c') counter_new [] (ct_stream c')"
    by (auto simp: begin_task_def * at_def waiting_def Let_def split: sum.splits option.splits prod.splits)
qed

text \<open>All turns of a task.\<close>

function task_run ::
    "daemon_env \<Rightarrow> conn_task \<Rightarrow> 'o SharedState \<Rightarrow> 'o world
       \<Rightarrow> (anyhow_error + unit) \<times> tls_stream \<times> 'o SharedState \<times> 'o world" where
  "task_run env c st w =
     (case advance env c st w of
        (Done r t, st', w') \<Rightarrow> (r, t, st', w')
      | (At c', st', w') \<Rightarrow> task_run env c' st' w')"
  by pat_completeness auto
termination
  by (relation "measures [\<lambda>(_, c, _, _). task_pending c, \<lambda>(_, c, _, _). rank (ct_point c)]")
    (auto dest!: advance_shrinks [OF sym])

declare task_run.simps [simp del]

lemma task_run_turns:
  "task_run env c st w =
     (case turn_run env c st w of
        (Done r t, st', w') \<Rightarrow> (r, t, st', w')
      | (At c', st', w') \<Rightarrow> task_run env c' st' w')"
  by (induction env c st w rule: turn_run.induct)
    (subst task_run.simps, subst turn_run.simps, simp split: prod.split progress.split)

text \<open>From the top of the loop, the segments make up the loop.\<close>

lemma task_run_loop: "task_run env (waiting h ns buf t) st w = conn_loop env h ns buf t st w"
  by (induction "length (pending buf t)" arbitrary: ns buf t st w rule: less_induct)
    (simp add: task_run_turns [of env "waiting _ _ _ _"] conn_loop_steps [of env h] turn_run_step turn_progress_def
      conn_step_Next split: prod.split turn.split)

text \<open>
  The task that runs from one await to the next with nothing in between is \<open>conn_run\<close>, so the segments
  are the same code as the function, cut.
\<close>

lemma segments_make_up_the_connection:
  "conn_run env t a st w =
     (case begin_task env t a of
        Done r t' \<Rightarrow> (r, t', st, w)
      | At c \<Rightarrow> task_run env c st w)"
proof (cases "begin_task env t a")
  case (Done r t')
  then show ?thesis by (simp add: conn_run_steps turn_run_start)
next
  case (At c)
  show ?thesis
  proof (cases "turn_run env c st w")
    case (fields p st' w')
    with At show ?thesis
      using turn_run_started [OF At, of st w] task_run_turns [of env c st w]
      by (cases p) (simp_all add: conn_run_steps turn_run_start, metis task_run_loop)
  qed
qed

end
