(* ===== verification/Server_Awaits.thy ===== *)
theory Server_Awaits
  imports Connection_Awaits
begin

section \<open>The server with its tasks interleaved at every await\<close>

text \<open>
  The server of \<open>Server_System\<close> at the granularity of \<open>Connection_Awaits\<close>: any number of
  connections, each somewhere between two awaits, and any of them may take the next segment. So a
  connection can be overtaken between the pairing check and the recording of its address, between
  the snapshot that decides the gate and the handler, between a change of the memory and its save,
  and between the write and the rename of a save.
\<close>

datatype 'c conn =
    Arriving ServerConfig 'c SocketAddr
  | Running conn_task

inductive await_step ::
    "daemon_env \<Rightarrow> 'c tls_accept \<Rightarrow> (SocketAddr \<Rightarrow> bool) \<Rightarrow> ('o, 'c conn) system \<Rightarrow> ('o, 'c conn) system \<Rightarrow> bool"
  for env tls_accept addr_ok where
  accepted: "sy_server s = Some st \<Longrightarrow> build_acceptor env st = Inr a \<Longrightarrow> addr_ok addr \<Longrightarrow>
    await_step env tls_accept addr_ok s (s\<lparr>sy_tasks := sy_tasks s @ [Arriving a tcp addr]\<rparr>)"
| handshake_failed: "sy_tasks s = xs @ Arriving a tcp addr # ys \<Longrightarrow> tls_accept a tcp = Inl e \<Longrightarrow>
    await_step env tls_accept addr_ok s (s\<lparr>sy_tasks := xs @ ys\<rparr>)"
| no_peer: "sy_tasks s = xs @ Arriving a tcp addr # ys \<Longrightarrow> tls_accept a tcp = Inr t \<Longrightarrow>
    begin_task env t addr = Done r t' \<Longrightarrow>
    await_step env tls_accept addr_ok s (s\<lparr>sy_tasks := xs @ ys\<rparr>)"
| arrived: "sy_tasks s = xs @ Arriving a tcp addr # ys \<Longrightarrow> tls_accept a tcp = Inr t \<Longrightarrow>
    begin_task env t addr = At c \<Longrightarrow>
    await_step env tls_accept addr_ok s (s\<lparr>sy_tasks := xs @ Running c # ys\<rparr>)"
| advanced: "sy_server s = Some st \<Longrightarrow> sy_tasks s = xs @ Running c # ys \<Longrightarrow>
    advance env c st (sy_world s) = (At c', st', w') \<Longrightarrow>
    await_step env tls_accept addr_ok s
      (s\<lparr>sy_server := Some st', sy_tasks := xs @ Running c' # ys, sy_world := w'\<rparr>)"
| finished: "sy_server s = Some st \<Longrightarrow> sy_tasks s = xs @ Running c # ys \<Longrightarrow>
    advance env c st (sy_world s) = (Done r t', st', w') \<Longrightarrow>
    await_step env tls_accept addr_ok s (s\<lparr>sy_server := Some st', sy_tasks := xs @ ys, sy_world := w'\<rparr>)"

abbreviation await_steps where
  "await_steps env tls_accept addr_ok \<equiv> (await_step env tls_accept addr_ok)\<^sup>*\<^sup>*"

subsection \<open>Invariants under every interleaving of segments\<close>

text \<open>
  What it takes to be an invariant: \<open>P\<close> of the shared parts and \<open>T\<close> of each task are kept by the task
  that moves, \<open>T\<close> of the others survives its move, and \<open>T\<close> holds of a task that begins.
\<close>

locale await_invariant =
  fixes env :: daemon_env
    and addr_ok :: "SocketAddr \<Rightarrow> bool"
    and P :: "'o SharedState \<Rightarrow> 'o world \<Rightarrow> bool"
    and T :: "'o world \<Rightarrow> conn_task \<Rightarrow> bool"
  assumes advance_inv: "P st w \<Longrightarrow> T w c \<Longrightarrow> advance env c st w = (p, st', w') \<Longrightarrow>
      P st' w' \<and> (\<forall>c'. p = At c' \<longrightarrow> T w' c')"
    and others_inv: "P st w \<Longrightarrow> T w c \<Longrightarrow> advance env c st w = (p, st', w') \<Longrightarrow> T w d \<Longrightarrow> T w' d"
    and begin_inv: "addr_ok a \<Longrightarrow> begin_task env t a = At c \<Longrightarrow> T w c"
begin

definition task_holds :: "'o world \<Rightarrow> 'c conn \<Rightarrow> bool" where
  "task_holds w t = (case t of Arriving a tcp addr \<Rightarrow> addr_ok addr | Running c \<Rightarrow> T w c)"

definition everywhere :: "('o, 'c conn) system \<Rightarrow> bool" where
  "everywhere s \<longleftrightarrow> server_holds P s \<and> list_all (task_holds (sy_world s)) (sy_tasks s)"

lemma task_holds_simps [simp]:
  "task_holds w (Arriving a tcp addr) = addr_ok addr" "task_holds w (Running c) = T w c"
  by (simp_all add: task_holds_def)

lemma advance_tasks:
  assumes "P st w" "T w c" "advance env c st w = (p, st', w')" "list_all (task_holds w) ts"
  shows "list_all (task_holds w') ts"
  using assms(4) others_inv [OF assms(1-3)]
  by (auto simp: list_all_iff task_holds_def split: conn.splits)

lemma await_step_inv: "await_step env tls_accept addr_ok s s' \<Longrightarrow> everywhere s \<Longrightarrow> everywhere s'"
proof (induction rule: await_step.induct)
  case (arrived s xs a tcp addr ys t c)
  then show ?case using begin_inv [OF _ arrived(3)] by (simp add: everywhere_def server_holds_def)
next
  case (advanced s st xs c ys c' st' w')
  then have "P st (sy_world s)" "T (sy_world s) c" by (simp_all add: everywhere_def server_holds_def)
  note advance_inv [OF this advanced(3)] advance_tasks [OF this advanced(3), of xs] advance_tasks [OF this advanced(3), of ys]
  with advanced show ?case by (simp add: everywhere_def server_holds_def)
next
  case (finished s st xs c ys r t' st' w')
  then have "P st (sy_world s)" "T (sy_world s) c" by (simp_all add: everywhere_def server_holds_def)
  note advance_inv [OF this finished(3)] advance_tasks [OF this finished(3), of xs] advance_tasks [OF this finished(3), of ys]
  with finished show ?case by (simp add: everywhere_def server_holds_def)
qed (simp_all add: everywhere_def server_holds_def)

lemma await_steps_inv: "await_steps env tls_accept addr_ok s s' \<Longrightarrow> everywhere s \<Longrightarrow> everywhere s'"
  by (induction rule: rtranclp_induct) (auto dest: await_step_inv)

lemma everywhere_up: "P st w \<Longrightarrow> everywhere (up st w)"
  by (simp add: everywhere_def server_holds_def up_def)

end

subsection \<open>The rights in memory\<close>

text \<open>
  The memory keeps the view \<open>v\<close> of the keystore, and everyone past the pairing check is an active
  pairing of \<open>c\<close>; neither depends on the disk.
\<close>

definition memory_ok :: "Config \<Rightarrow> 'o Handlers \<Rightarrow> bytes \<times> bytes \<times> u64 \<times> DaemonPairingRecord list
    \<Rightarrow> 'o SharedState \<Rightarrow> bool" where
  "memory_ok cfg hs v st \<longleftrightarrow> config st = cfg \<and> handlers st = hs \<and> wf_contents (contents st) \<and> core_view (contents st) = v"

definition task_ok :: "KeystoreContents \<Rightarrow> conn_task \<Rightarrow> bool" where
  "task_ok c t \<longleftrightarrow>
     (case ct_point t of Checking a \<Rightarrow> wf_addr a | Recording a \<Rightarrow> wf_addr a | _ \<Rightarrow> True)
     \<and> (case ct_point t of Checking a \<Rightarrow> True | _ \<Rightarrow> active_pairing c (ct_peer t) \<noteq> None)"

lemma begin_task_At:
  "begin_task env t a = At c \<longleftrightarrow>
     (\<exists>h. peer_spki_from_tls env t = Inr h
       \<and> c = \<lparr>ct_peer = h, ct_nonces = counter_new, ct_buf = [], ct_stream = t, ct_point = Checking a\<rparr>)"
  by (auto simp: begin_task_def map_err_def split: sum.splits)

text \<open>What one segment can do to the memory, and where it leads.\<close>

lemma handle_frame_memory:
  assumes "handle_frame c f n rs snap st w = (p, st', w')"
  obtains (same) "st' = st"
    | (config) i where "f = ReauthConfig i" "st' = state_write (\<lambda>k. k\<lparr>reauth_interval_days := interval_to_days i\<rparr>) st"
    | (ack) "f = RevokeAck" "st' = state_write (\<lambda>k. k\<lparr>pairings :=
        filter (\<lambda>p. client_spki p = ct_peer c \<longrightarrow> \<not> revoked p) (pairings k)\<rparr>) st"
  using assms by (cases f) (auto simp: handle_frame_def Let_def split: prod.splits sum.splits)

lemma handle_frame_memory_ok:
  assumes "handle_frame c f n rs snap st w = (p, st', w')" "memory_ok cfg hs v st"
  shows "memory_ok cfg hs v st'"
  using assms(1) by (cases rule: handle_frame_memory) (use assms(2) in \<open>auto simp: memory_ok_def state_write_def\<close>)

lemma active_past_check:
  "task_ok c t \<Longrightarrow> ct_peer t' = ct_peer t \<Longrightarrow> (\<And>a. ct_point t \<noteq> Checking a) \<Longrightarrow>
     (\<And>a. ct_point t' \<noteq> Checking a) \<Longrightarrow> (\<And>a. ct_point t' \<noteq> Recording a) \<Longrightarrow> task_ok c t'"
  by (auto simp: task_ok_def split: point.splits)

lemma rank_small:
  "rank p \<le> 6 \<Longrightarrow> p \<noteq> Checking a" "rank p \<le> 6 \<Longrightarrow> p \<noteq> Recording a"
  by auto

lemma read_request_At:
  "read_request env c w = (At c', w') \<Longrightarrow>
     ct_peer c' = ct_peer c \<and> (\<exists>f n now. ct_point c' = Deciding f n now \<and> unix_ms_now w = (now, w'))"
  by (auto simp: read_request_def split: prod.splits sum.splits option.splits)

text \<open>A task stays with its peer, and outside a read it comes closer to the next one.\<close>

lemma advance_rank:
  assumes "advance env c st w = (At c', st', w')"
  shows "ct_peer c' = ct_peer c \<and> (if ct_point c = Reading then \<exists>f n now. ct_point c' = Deciding f n now
     else rank (ct_point c') < rank (ct_point c))"
proof (cases "ct_point c")
  case Reading
  with assms show ?thesis by (auto simp: advance_def dest: read_request_At split: prod.splits)
next
  case (Answering r)
  with assms show ?thesis by (auto simp: advance_def dest: write_answer_At)
next
  case (Handling f n rs snap)
  with assms handle_frame_point [of c f n rs snap st w] show ?thesis by (auto simp: advance_def)
next
  case (Saving k)
  with assms save_snapshot_point [of env c k st] show ?thesis by (auto simp: advance_def)
next
  case (SavingWrite k tmp x)
  with assms save_write_point [of c k tmp x w] show ?thesis by (auto simp: advance_def split: prod.splits)
next
  case (SavingRename k tmp)
  with assms save_rename_point [of c k tmp "keystore_path (config st)" w] show ?thesis
    by (auto simp: advance_def split: prod.splits)
qed (use assms in \<open>auto simp: advance_def Let_def split: prod.splits option.splits\<close>)

lemma advance_point:
  assumes "advance env c st w = (At c', st', w')" "\<And>a. ct_point c \<noteq> Checking a"
  shows "ct_peer c' = ct_peer c \<and> rank (ct_point c') \<le> 6"
  using advance_rank [OF assms(1)] assms(2) by (cases "ct_point c") auto

text \<open>Where a clock reading and a decision come from.\<close>

lemma advance_Deciding:
  assumes "advance env c st w = (At c', st', w')" "ct_point c' = Deciding f n now"
  shows "read_request env c w = (At c', w') \<and> st' = st"
  using advance_rank [OF assms(1)] assms
  by (cases "ct_point c") (auto simp: advance_def Let_def split: prod.splits option.splits if_splits)

lemma advance_Handling:
  assumes "advance env c st w = (At c', st', w')" "ct_point c' = Handling f n rs snap"
  shows "\<exists>now. ct_point c = Deciding f n now \<and> snap = contents st \<and> st' = st \<and> w' = w
     \<and> rs = evaluate now (ks_last_authenticated_at_unix_ms snap) (reauth_interval_days snap)"
  using advance_rank [OF assms(1)] assms
  by (cases "ct_point c") (auto simp: advance_def Let_def snapshot_def split: prod.splits option.splits if_splits)

lemma advance_memory_ok:
  assumes "memory_ok cfg hs (core_view c0) st" "task_ok c0 c" "advance env c st w = (p, st', w')"
  shows "memory_ok cfg hs (core_view c0) st'"
proof (cases "ct_point c")
  case (Recording a)
  obtain ch ps where ra: "record_address (ct_peer c) a (pairings (contents st)) = (ch, ps)" by fastforce
  have "wf_contents ((contents st)\<lparr>pairings := ps\<rparr>)" "core_view ((contents st)\<lparr>pairings := ps\<rparr>) = core_view (contents st)"
    using assms(1,2) Recording record_address_wf [OF ra] record_address_core [OF ra]
    by (auto simp: wf_contents_def task_ok_def memory_ok_def core_view_def)
  with assms(1,3) Recording ra show ?thesis by (auto simp: advance_def memory_ok_def state_write_def)
next
  case (Handling f n rs snap)
  with assms(3) handle_frame_memory_ok [OF _ assms(1), of c f n rs snap w p st' w'] show ?thesis
    by (simp add: advance_def)
qed (use assms(1,3) in \<open>auto simp: advance_def Let_def split: prod.splits option.splits\<close>)

lemma advance_task_ok:
  assumes "memory_ok cfg hs (core_view c0) st" "task_ok c0 c" "advance env c st w = (At c', st', w')"
  shows "task_ok c0 c'"
proof (cases "\<exists>a. ct_point c = Checking a")
  case True
  then obtain a where a: "ct_point c = Checking a" by blast
  have "active_pairing (contents st) (ct_peer c) \<noteq> None" "c' = c\<lparr>ct_point := Recording a\<rparr>"
    using assms(3) a by (auto simp: advance_def split: option.splits prod.splits)
  moreover have "core_view (contents st) = core_view c0" using assms(1) by (simp add: memory_ok_def)
  ultimately show ?thesis using assms(2) a core_view_active [of "contents st" c0 "ct_peer c"] by (simp add: task_ok_def)
next
  case False
  with advance_point [OF assms(3)] rank_small active_past_check [OF assms(2), of c'] show ?thesis by blast
qed

interpretation memory: await_invariant env wf_addr "\<lambda>st w. memory_ok cfg hs (core_view c0) st" "\<lambda>w. task_ok c0"
  for env cfg hs c0
proof (unfold_locales, goal_cases)
  case (1 st w c p st' w')
  then show ?case using advance_memory_ok advance_task_ok by blast
next
  case 2
  then show ?case by blast
next
  case 3
  then show ?case by (auto simp: begin_task_At task_ok_def)
qed

subsection \<open>The clock readings and the snapshots a decision rests on\<close>

definition clock_read :: "'o world \<Rightarrow> u64 \<Rightarrow> bool" where
  "clock_read w now \<longleftrightarrow> (\<exists>k < w_ticks w. now = unix_ms (w_clock w k))"

definition reads_clock :: "'o world \<Rightarrow> conn_task \<Rightarrow> bool" where
  "reads_clock w c = (case ct_point c of Deciding f n now \<Rightarrow> clock_read w now | _ \<Rightarrow> True)"

definition ticks_on :: "'o world \<Rightarrow> 'o world \<Rightarrow> bool" where
  "ticks_on w w' \<longleftrightarrow> w_clock w' = w_clock w \<and> w_ticks w \<le> w_ticks w'"

lemma ticks_on_refl [simp]: "ticks_on w w"
  by (simp add: ticks_on_def)

lemma ticks_on_fs: "on_fs f w = (r, w') \<Longrightarrow> ticks_on w w' \<and> w_os w' = w_os w"
  by (auto simp: on_fs_def ticks_on_def split: prod.splits)

lemma ticks_on_os: "on_os f w = (r, w') \<Longrightarrow> ticks_on w w' \<and> w_fs w' = w_fs w \<and> w_os w' = snd (f (w_os w))"
  by (auto simp: on_os_def ticks_on_def split: prod.splits)

lemma ticks_on_now: "unix_ms_now w = (now, w') \<Longrightarrow> ticks_on w w' \<and> w_fs w' = w_fs w \<and> w_os w' = w_os w \<and> clock_read w' now"
  by (auto simp: unix_ms_now_def ticks_on_def clock_read_def)

lemma read_request_world:
  "read_request env c w = (p, w') \<Longrightarrow> ticks_on w w' \<and> w_fs w' = w_fs w \<and> w_os w' = w_os w"
  by (auto simp: read_request_def split: prod.splits sum.splits option.splits dest: ticks_on_now)

lemma handle_frame_world:
  assumes "handle_frame c f n rs snap st w = (p, st', w')"
  shows "ticks_on w w' \<and> w_fs w' = w_fs w
    \<and> (w_os w' = w_os w \<or> f = StateProbe
       \<or> (\<exists>run. command_handler f (handlers st) = Some run \<and> rs = Active \<and> w_os w' = snd (run (w_os w))))"
  using assms
  by (cases f) (auto simp: handle_frame_def handle_gated_def Let_def block_state_change_def dest: ticks_on_os
      split: prod.splits sum.splits option.splits ReauthState.splits)

lemma advance_world:
  assumes "advance env c st w = (p, st', w')"
  shows "ticks_on w w' \<and> (w_os w' = w_os w \<or> (\<exists>f n rs snap. ct_point c = Handling f n rs snap))"
proof (cases "ct_point c")
  case (Handling f n rs snap)
  with assms handle_frame_world [of c f n rs snap st w p st' w'] show ?thesis by (simp add: advance_def)
qed (use assms in \<open>auto simp: advance_def Let_def save_write_def save_rename_def
      dest: ticks_on_fs read_request_world split: prod.splits option.splits sum.splits\<close>)

lemma clock_read_on: "clock_read w now \<Longrightarrow> ticks_on w w' \<Longrightarrow> clock_read w' now"
  by (auto simp: clock_read_def ticks_on_def intro: less_le_trans)

interpretation clock: await_invariant env addr_ok "\<lambda>st w. True" reads_clock
  for env addr_ok
proof (unfold_locales, goal_cases)
  case (1 st w c p st' w')
  have "reads_clock w' c'" if p: "p = At c'" for c'
  proof (cases "\<exists>f n now. ct_point c' = Deciding f n now")
    case True
    then have "read_request env c w = (At c', w')" using advance_Deciding 1(3) p by blast
    from read_request_At [OF this] show ?thesis by (auto simp: reads_clock_def dest: ticks_on_now)
  qed (auto simp: reads_clock_def split: point.splits)
  then show ?case by blast
next
  case (2 st w c p st' w' d)
  then show ?case using advance_world [OF 2(3)] by (auto simp: reads_clock_def intro: clock_read_on split: point.splits)
next
  case 3
  then show ?case by (auto simp: begin_task_At reads_clock_def)
qed

text \<open>Every decision about a frame was taken on the memory of an earlier moment of the run.\<close>

definition decided_at ::
    "daemon_env \<Rightarrow> 'c tls_accept \<Rightarrow> ('o, 'c conn) system \<Rightarrow> ('o, 'c conn) system \<Rightarrow> ReauthState \<Rightarrow> KeystoreContents \<Rightarrow> bool" where
  "decided_at env tls_accept s0 s rs snap \<longleftrightarrow>
     (\<exists>sa sta now. await_steps env tls_accept wf_addr s0 sa \<and> await_steps env tls_accept wf_addr sa s
        \<and> sy_server sa = Some sta \<and> contents sta = snap \<and> clock_read (sy_world sa) now
        \<and> rs = evaluate now (ks_last_authenticated_at_unix_ms snap) (reauth_interval_days snap))"

lemma decided_at_on:
  "decided_at env tls_accept s0 s rs snap \<Longrightarrow> await_step env tls_accept wf_addr s s' \<Longrightarrow>
     decided_at env tls_accept s0 s' rs snap"
  unfolding decided_at_def by (elim exE conjE, intro exI conjI) (assumption | erule (1) rtranclp.rtrancl_into_rtrancl)+

lemma await_step_Handling:
  assumes "await_step env tls_accept wf_addr s s'" "Running c \<in> set (sy_tasks s')" "ct_point c = Handling f n rs snap"
  obtains (same) "Running c \<in> set (sy_tasks s)"
    | (decided) b st now where "Running b \<in> set (sy_tasks s)" "ct_point b = Deciding f n now"
        "sy_server s = Some st" "snap = contents st"
        "rs = evaluate now (ks_last_authenticated_at_unix_ms snap) (reauth_interval_days snap)"
  using assms(1)
proof cases
  case (arrived xs a tcp addr ys t c')
  then have "ct_point c' = Checking addr" by (auto simp: begin_task_At)
  with arrived assms(2,3) show ?thesis by (auto intro: same)
next
  case (advanced st xs b ys c' st' w')
  show ?thesis
  proof (cases "c = c'")
    case True
    with advance_Handling [OF advanced(4)] assms(3) advanced decided show ?thesis by auto
  next
    case False
    with advanced assms(2) show ?thesis by (auto intro: same)
  qed
qed (use assms(2) in \<open>auto intro: same\<close>)

lemma run_Handling:
  assumes "await_steps env tls_accept wf_addr s0 s" "server_holds (\<lambda>st w. True) s0" "sy_tasks s0 = []"
  shows "\<forall>c f n rs snap. Running c \<in> set (sy_tasks s) \<longrightarrow> ct_point c = Handling f n rs snap \<longrightarrow>
     decided_at env tls_accept s0 s rs snap"
  using assms(1)
proof (induction rule: rtranclp_induct)
  case base
  then show ?case using assms(3) by simp
next
  case (step s1 s2)
  have clock: "list_all (clock.task_holds wf_addr (sy_world s1)) (sy_tasks s1)"
    using clock.await_steps_inv [OF step(1)] assms(2,3) by (simp add: clock.everywhere_def)
  show ?case
  proof (intro allI impI)
    fix c f n rs snap
    assume c: "Running c \<in> set (sy_tasks s2)" "ct_point c = Handling f n rs snap"
    from step(2) c show "decided_at env tls_accept s0 s2 rs snap"
    proof (cases rule: await_step_Handling)
      case same
      with step(3) c(2) decided_at_on [OF _ step(2)] show ?thesis by blast
    next
      case (decided b st now)
      have "reads_clock (sy_world s1) b" using clock decided(1) by (auto simp: list_all_iff)
      then have "clock_read (sy_world s1) now" using decided(2) by (simp add: reads_clock_def)
      with decided step(1,2) show ?thesis unfolding decided_at_def by blast
    qed
  qed
qed

lemma await_step_os:
  assumes "await_step env tls_accept wf_addr s s'" "w_os (sy_world s') \<noteq> w_os (sy_world s)"
  obtains c st p st' w' f n rs snap where "Running c \<in> set (sy_tasks s)" "sy_server s = Some st"
    "ct_point c = Handling f n rs snap" "sy_world s' = w'" "handle_frame c f n rs snap st (sy_world s) = (p, st', w')"
  using assms(1)
proof cases
  case (advanced st xs c ys c' st' w')
  then obtain f n rs snap where h: "ct_point c = Handling f n rs snap"
    using advance_world [OF advanced(4)] assms(2) by auto
  with advanced have "handle_frame c f n rs snap st (sy_world s) = (At c', st', w')" by (simp add: advance_def)
  with that [OF _ advanced(2) h] advanced show ?thesis by simp
next
  case (finished st xs c ys r t' st' w')
  then obtain f n rs snap where h: "ct_point c = Handling f n rs snap"
    using advance_world [OF finished(4)] assms(2) by auto
  with finished have "handle_frame c f n rs snap st (sy_world s) = (Done r t', st', w')" by (simp add: advance_def)
  with that [OF _ finished(2) h] finished show ?thesis by simp
qed (use assms(2) in auto)

lemma memory_everywhere:
  assumes "wf_contents (contents st)" "await_steps env tls_accept wf_addr (up st w) s"
  shows "memory.everywhere (config st) (handlers st) (contents st) s"
  by (rule memory.await_steps_inv [OF assms(2)], rule memory.everywhere_up) (simp add: memory_ok_def assms(1))

lemma memory_everywhereD:
  assumes "memory.everywhere cfg hs c s"
  shows "\<exists>st. sy_server s = Some st \<and> memory_ok cfg hs (core_view c) st"
    and "Running t \<in> set (sy_tasks s) \<Longrightarrow> task_ok c t"
  using assms by (auto simp: memory.everywhere_def server_holds_def list_all_iff)

text \<open>
  C2: The gate holds at every interleaving of the awaits, with whatever failures: a server started with
  some contents in memory touches the host only in the segment that handles a frame of a phone whose
  pairing was active in these contents; the frame is the state probe, or the host changes by the
  handler of the command, and at an earlier moment of the run the gate was open, for a clock reading
  made before that moment, the credential time of the start and the interval then in memory. The
  interval may have been changed, and the window may have ended, between that moment and the handler.
\<close>
theorem host_reached_only_through_the_gate:
  assumes "wf_contents (contents st)" "await_steps env tls_accept wf_addr (up st w) s"
    and "await_step env tls_accept wf_addr s s'" "w_os (sy_world s') \<noteq> w_os (sy_world s)"
  shows "\<exists>c f n rs snap. Running c \<in> set (sy_tasks s) \<and> ct_point c = Handling f n rs snap
     \<and> active_pairing (contents st) (ct_peer c) \<noteq> None
     \<and> (f = StateProbe
        \<or> (\<exists>run sa sta k. command_handler f (handlers st) = Some run
             \<and> w_os (sy_world s') = snd (run (w_os (sy_world s)))
             \<and> await_steps env tls_accept wf_addr (up st w) sa \<and> await_steps env tls_accept wf_addr sa s
             \<and> sy_server sa = Some sta \<and> k < w_ticks (sy_world sa)
             \<and> evaluate (unix_ms (w_clock (sy_world sa) k)) (ks_last_authenticated_at_unix_ms (contents st))
                 (reauth_interval_days (contents sta)) = Active))"
proof -
  from assms(3,4) obtain c st1 p st' w' f n rs snap where c: "Running c \<in> set (sy_tasks s)" "sy_server s = Some st1"
    "ct_point c = Handling f n rs snap" "sy_world s' = w'" "handle_frame c f n rs snap st1 (sy_world s) = (p, st', w')"
    by (rule await_step_os)
  note m = memory_everywhere [OF assms(1,2)]
  from memory_everywhereD [OF m] c(1,2) have st1: "memory_ok (config st) (handlers st) (core_view (contents st)) st1"
    and act: "task_ok (contents st) c" by auto
  have a: "active_pairing (contents st) (ct_peer c) \<noteq> None" using act c(3) by (simp add: task_ok_def)
  from run_Handling [OF assms(2)] c(1,3) have "decided_at env tls_accept (up st w) s rs snap"
    by (auto simp: up_def server_holds_def)
  then obtain sa sta now where sa: "await_steps env tls_accept wf_addr (up st w) sa" "await_steps env tls_accept wf_addr sa s"
    "sy_server sa = Some sta" "contents sta = snap" "clock_read (sy_world sa) now"
    "rs = evaluate now (ks_last_authenticated_at_unix_ms snap) (reauth_interval_days snap)"
    unfolding decided_at_def by blast
  have "core_view (contents sta) = core_view (contents st)"
    using memory_everywhereD(1) [OF memory_everywhere [OF assms(1) sa(1)]] sa(3) by (auto simp: memory_ok_def)
  then have l: "ks_last_authenticated_at_unix_ms snap = ks_last_authenticated_at_unix_ms (contents st)"
    using sa(4) by (simp add: core_view_def)
  from handle_frame_world [OF c(5)] assms(4) c(4) st1
  have "f = StateProbe \<or> (\<exists>run. command_handler f (handlers st) = Some run \<and> rs = Active
      \<and> w_os (sy_world s') = snd (run (w_os (sy_world s))))"
    by (auto simp: memory_ok_def)
  with sa l c a show ?thesis unfolding clock_read_def by metis
qed

end
