(* ===== verification/Server_Store.thy ===== *)
theory Server_Store
  imports Server_Awaits
begin

section \<open>The disk under the server\<close>

text \<open>
  What the tasks of the server do to the keystore on disk. The saves of all of them go through one
  temporary file, so a save may rename what another one has written: the invariant is a property
  \<open>Q\<close> of the memory that the requests keep, of every ciphertext under way, and of the disk.
\<close>

definition io_ok :: "disk_may \<Rightarrow> 'o world \<Rightarrow> bool" where
  "io_ok may w \<longleftrightarrow> may_break may \<or> io_script (w_fs w) = []"

lemma fs_write_part:
  "(\<exists>k. files (snd (fs_write t x s)) = (files s)(t \<mapsto> take k x) \<and> (io_script s = [] \<longrightarrow> take k x = x))
     \<or> files (snd (fs_write t x s)) = files s"
proof (cases "io_script s = []")
  case True
  obtain r s' where w: "fs_write t x s = (r, s')" by fastforce
  from calm_write [OF True w] have "files s' = (files s)(t \<mapsto> take (length x) x) \<or> files s' = files s"
    by (cases r) simp_all
  with w show ?thesis by (metis order_refl snd_conv take_all)
next
  case False
  have "files (snd (fs_write t x s)) \<in> {files s, (files s)(t \<mapsto> x)} \<union> range (\<lambda>k. (files s)(t \<mapsto> take k x))"
    by (cases "next_outcome s") (auto simp: fs_write_def split: io_outcome.split option.split)
  then consider "files (snd (fs_write t x s)) = files s" | "files (snd (fs_write t x s)) = (files s)(t \<mapsto> take (length x) x)"
    | k where "files (snd (fs_write t x s)) = (files s)(t \<mapsto> take k x)"
    by auto
  then show ?thesis using False by cases blast+
qed

lemma save_write_files:
  assumes "save_write c k tmp x w = (p, w')"
  shows "((\<exists>j. files (w_fs w') = (files (w_fs w))(tmp \<mapsto> take j x) \<and> (io_script (w_fs w) = [] \<longrightarrow> take j x = x))
       \<or> files (w_fs w') = files (w_fs w))
     \<and> (p = at c (SavingRename k tmp) \<and> files (w_fs w') tmp = Some x \<or> (\<exists>r. p = at c (after k r)))
     \<and> (io_script (w_fs w) = [] \<longrightarrow> io_script (w_fs w') = [])"
proof -
  obtain wr s1 where wr: "fs_write tmp x (w_fs w) = (wr, s1)" by fastforce
  with assms have w': "w_fs w' = s1" "p = at c (case wr of Inl e \<Rightarrow> after k (Inl (Io e)) | Inr _ \<Rightarrow> SavingRename k tmp)"
    by (auto simp: save_write_def on_fs_def split: sum.splits)
  have "wr = Inr () \<Longrightarrow> files s1 tmp = Some x" using fs_write_Inr [of tmp x "w_fs w" "()"] wr by simp
  with fs_write_part [of tmp x "w_fs w"] wr w' calm_write [OF _ wr] show ?thesis
    by (cases wr) auto
qed

lemma save_rename_files:
  assumes "save_rename c k tmp q w = (p, w')"
  shows "(io_script (w_fs w) = [] \<longrightarrow> io_script (w_fs w') = []) \<and> (\<exists>r. p = at c (after k r))
     \<and> (files (w_fs w') = files (w_fs w)
        \<or> (\<exists>x. files (w_fs w) tmp = Some x \<and> files (w_fs w') = (files (w_fs w))(tmp := None, q \<mapsto> x)))"
proof -
  obtain wr s1 where wr: "fs_rename tmp q (w_fs w) = (wr, s1)" by fastforce
  from wr assms fs_rename_Inl [of tmp q "w_fs w"] fs_rename_Inr [of tmp q "w_fs w"] calm_rename [OF _ wr] show ?thesis
    by (cases wr) (auto simp: save_rename_def on_fs_def)
qed

lemma advance_fs:
  assumes "advance env c st w = (p, st', w')" "rank (ct_point c) \<notin> {2, 3}"
  shows "w_fs w' = w_fs w"
proof (cases "ct_point c")
  case (Handling f n rs snap)
  with assms handle_frame_world [of c f n rs snap st w p st' w'] show ?thesis by (simp add: advance_def)
qed (use assms in \<open>auto simp: advance_def Let_def dest: read_request_world split: prod.splits option.splits\<close>)

text \<open>Only the snapshot of a save leads to its write, and only the write to the rename.\<close>

lemma advance_to_save:
  assumes "advance env c st w = (At c', st', w')" "rank (ct_point c') \<in> {2, 3}"
  shows "rank (ct_point c) \<in> {3, 4}"
proof (cases "ct_point c")
  case (Handling f n rs snap)
  with assms handle_frame_point [of c f n rs snap st w] show ?thesis by (auto simp: advance_def)
next
  case (SavingRename k tmp)
  with assms save_rename_point [of c k tmp "keystore_path (config st)" w] show ?thesis
    by (auto simp: advance_def split: prod.splits)
qed (use assms advance_rank [OF assms(1)] in \<open>auto simp: advance_def Let_def split: prod.splits option.splits if_splits\<close>)

lemma rank_after_save [simp]: "rank (after k r) \<noteq> 2" "rank (after k r) \<noteq> 3"
  by (auto simp: after_def split: after_save.split)

subsection \<open>What a task may hold\<close>

definition address_ok :: "conn_task \<Rightarrow> bool" where
  "address_ok t \<longleftrightarrow> (case ct_point t of Checking a \<Rightarrow> wf_addr a | Recording a \<Rightarrow> wf_addr a | _ \<Rightarrow> True)"

definition temp_holds :: "daemon_env \<Rightarrow> Config \<Rightarrow> (KeystoreContents \<Rightarrow> bool) \<Rightarrow> disk_may \<Rightarrow> fs \<Rightarrow> bool" where
  "temp_holds env cfg Q may s \<longleftrightarrow>
     (case files s (temp_of (e_ks env) (keystore_path cfg)) of None \<Rightarrow> True | Some x \<Rightarrow> part_sealed env cfg Q may x)"

definition task_sealed ::
    "daemon_env \<Rightarrow> Config \<Rightarrow> (KeystoreContents \<Rightarrow> bool) \<Rightarrow> disk_may \<Rightarrow> 'o world \<Rightarrow> conn_task \<Rightarrow> bool" where
  "task_sealed env cfg Q may w t \<longleftrightarrow> address_ok t
     \<and> (case ct_point t of
          SavingWrite k tmp x \<Rightarrow> tmp = temp_of (e_ks env) (keystore_path cfg) \<and> sealed_by env cfg Q x
        | SavingRename k tmp \<Rightarrow> tmp = temp_of (e_ks env) (keystore_path cfg) \<and> temp_holds env cfg Q may (w_fs w)
        | _ \<Rightarrow> True)"

definition server_store ::
    "daemon_env \<Rightarrow> Config \<Rightarrow> (KeystoreContents \<Rightarrow> bool) \<Rightarrow> disk_may \<Rightarrow> 'o SharedState \<Rightarrow> 'o world \<Rightarrow> bool" where
  "server_store env cfg Q may st w \<longleftrightarrow> ks_ok (e_ks env) \<and> (may_break may \<longrightarrow> rejects_cuts (e_ks env)) \<and> io_ok may w
     \<and> config st = cfg \<and> Q (contents st) \<and> store_holds env cfg Q may w"

lemma task_sealed_simple:
  "rank (ct_point t) \<notin> {2, 3} \<Longrightarrow> task_sealed env cfg Q may w t \<longleftrightarrow> address_ok t"
  by (cases "ct_point t") (simp_all add: task_sealed_def)

lemma address_ok_small: "rank (ct_point t) \<le> 6 \<Longrightarrow> address_ok t"
  by (cases "ct_point t") (simp_all add: address_ok_def)

lemma task_sealed_after [simp]: "task_sealed env cfg Q may w (t\<lparr>ct_point := after k r\<rparr>)"
  by (simp add: task_sealed_simple address_ok_small)

lemma advance_address:
  assumes "advance env c st w = (At c', st', w')" "address_ok c"
  shows "address_ok c'"
proof (cases "\<exists>a. ct_point c = Checking a")
  case True
  with assms show ?thesis by (auto simp: advance_def address_ok_def split: option.splits prod.splits)
next
  case False
  with advance_point [OF assms(1)] show ?thesis by (intro address_ok_small) blast
qed

text \<open>The changes that requests make to the memory.\<close>

locale kept_by_server =
  fixes Q :: "KeystoreContents \<Rightarrow> bool"
  assumes kept_wf: "Q c \<Longrightarrow> wf_contents c"
    and kept_days: "Q c \<Longrightarrow> Q (c\<lparr>reauth_interval_days := d\<rparr>)"
    and kept_ack: "Q c \<Longrightarrow> Q (c\<lparr>pairings := filter (\<lambda>p. client_spki p = h \<longrightarrow> \<not> revoked p) (pairings c)\<rparr>)"
    and kept_address: "Q c \<Longrightarrow> wf_addr a \<Longrightarrow> record_address h a (pairings c) = (ch, ps) \<Longrightarrow> Q (c\<lparr>pairings := ps\<rparr>)"
begin

lemma advance_contents:
  assumes "advance env c st w = (p, st', w')" "Q (contents st)" "address_ok c"
  shows "Q (contents st') \<and> config st' = config st"
proof (cases "ct_point c")
  case (Recording a)
  obtain ch ps where ra: "record_address (ct_peer c) a (pairings (contents st)) = (ch, ps)" by fastforce
  with assms Recording kept_address [OF assms(2) _ ra] show ?thesis
    by (auto simp: advance_def state_write_def address_ok_def)
next
  case (Handling f n rs snap)
  then have h: "handle_frame c f n rs snap st w = (p, st', w')" using assms(1) by (simp add: advance_def)
  show ?thesis
    using h by (cases rule: handle_frame_memory) (use assms(2) kept_days kept_ack in \<open>auto simp: state_write_def\<close>)
qed (use assms in \<open>auto simp: advance_def Let_def split: prod.splits option.splits\<close>)

abbreviation moved_on :: "daemon_env \<Rightarrow> Config \<Rightarrow> disk_may \<Rightarrow> 'o world \<Rightarrow> progress \<Rightarrow> 'o SharedState \<Rightarrow> 'o world \<Rightarrow> bool" where
  "moved_on env cfg may w p st' w' \<equiv>
     server_store env cfg Q may st' w' \<and> (\<forall>c'. p = At c' \<longrightarrow> task_sealed env cfg Q may w' c')
     \<and> (temp_holds env cfg Q may (w_fs w) \<longrightarrow> temp_holds env cfg Q may (w_fs w'))
     \<and> (\<forall>q. q \<noteq> temp_of (e_ks env) (keystore_path cfg) \<longrightarrow> q \<noteq> keystore_path cfg \<longrightarrow> files (w_fs w') q = files (w_fs w) q)"

lemma store_kept:
  assumes "server_store env cfg Q may st w" "task_sealed env cfg Q may w c" "advance env c st w = (p, st', w')"
  shows "Q (contents st') \<and> config st' = cfg"
  using advance_contents [OF assms(3)] assms(1,2) by (simp add: server_store_def task_sealed_def)

lemma write_store:
  assumes "server_store env cfg Q may st w" "task_sealed env cfg Q may w c" "advance env c st w = (p, st', w')"
    and "ct_point c = SavingWrite k tmp x"
  shows "moved_on env cfg may w p st' w'"
proof -
  note m = store_kept [OF assms(1-3)]
  have "save_write c k tmp x w = (p, w')" using assms(3,4) by (simp add: advance_def split: prod.splits)
  note s = save_write_files [OF this]
  have st: "io_ok may w" "store_holds env cfg Q may w" using assms(1) by (simp_all add: server_store_def)
  have x: "tmp = temp_of (e_ks env) (keystore_path cfg)" "sealed_by env cfg Q x"
    using assms(2,4) by (simp_all add: task_sealed_def)
  have f: "files (w_fs w') q = files (w_fs w) q" if "q \<noteq> temp_of (e_ks env) (keystore_path cfg)" for q
    using s x(1) that by auto
  have "store_holds env cfg Q may w'"
    using store_holds_same [of w' cfg w env Q may] f temp_other [of env cfg] st(2) by metis
  with s m assms(1) have store: "server_store env cfg Q may st' w'" by (auto simp: server_store_def io_ok_def)
  have part: "part_sealed env cfg Q may (take j x)" if "io_script (w_fs w) = [] \<longrightarrow> take j x = x" for j
    using that st(1) x(2) by (cases "may_break may") (auto simp: part_sealed_def io_ok_def)
  from s have temp: "temp_holds env cfg Q may (w_fs w')" if "temp_holds env cfg Q may (w_fs w)"
    using that part x by (auto simp: temp_holds_def)
  have "task_sealed env cfg Q may w' (c\<lparr>ct_point := SavingRename k tmp\<rparr>)" if "files (w_fs w') tmp = Some x"
    using that x by (simp add: task_sealed_def address_ok_def temp_holds_def)
  with s store temp f show ?thesis by auto
qed

lemma rename_store:
  assumes "server_store env cfg Q may st w" "task_sealed env cfg Q may w c" "advance env c st w = (p, st', w')"
    and "ct_point c = SavingRename k tmp"
  shows "moved_on env cfg may w p st' w'"
proof -
  let ?t = "temp_of (e_ks env) (keystore_path cfg)"
  note m = store_kept [OF assms(1-3)]
  have st: "ks_ok (e_ks env)" "may_break may \<Longrightarrow> rejects_cuts (e_ks env)" "config st = cfg" "store_holds env cfg Q may w"
    "io_ok may w" using assms(1) by (simp_all add: server_store_def)
  have "save_rename c k tmp (keystore_path cfg) w = (p, w')" using assms(3,4) st(3) by (simp add: advance_def split: prod.splits)
  note s = save_rename_files [OF this]
  have tmp: "tmp = ?t" "temp_holds env cfg Q may (w_fs w)" using assms(2,4) by (simp_all add: task_sealed_def)
  from s consider (same) "files (w_fs w') = files (w_fs w)"
    | (moved) x where "files (w_fs w) ?t = Some x" "files (w_fs w') = (files (w_fs w))(?t := None, keystore_path cfg \<mapsto> x)"
    using tmp(1) by blast
  then have "store_holds env cfg Q may w' \<and> temp_holds env cfg Q may (w_fs w')
      \<and> (\<forall>q. q \<noteq> ?t \<longrightarrow> q \<noteq> keystore_path cfg \<longrightarrow> files (w_fs w') q = files (w_fs w) q)"
  proof cases
    case same
    with st(4) tmp(2) store_holds_same [of w' cfg w env Q may] show ?thesis by (simp add: temp_holds_def)
  next
    case moved
    then have "part_sealed env cfg Q may x" using tmp(2) by (simp add: temp_holds_def)
    with part_on_disk [OF st(1) kept_wf st(2), where x = x and w = w' and cfg = cfg and may = may] moved temp_other [of env cfg] show ?thesis
      by (simp add: temp_holds_def)
  qed
  with s m st show ?thesis by (auto simp: server_store_def io_ok_def)
qed

lemma snapshot_store:
  assumes "server_store env cfg Q may st w" "task_sealed env cfg Q may w c" "advance env c st w = (p, st', w')"
    and "rank (ct_point c) \<notin> {2, 3}"
  shows "moved_on env cfg may w p st' w'"
proof -
  note m = store_kept [OF assms(1-3)] and fs = advance_fs [OF assms(3,4)]
  have "task_sealed env cfg Q may w' c'" if c': "p = At c'" for c'
  proof (cases "rank (ct_point c') \<in> {2, 3}")
    case False
    with assms(2,3) c' advance_address [of env c st w c' st' w'] show ?thesis
      by (auto simp: task_sealed_simple task_sealed_def [of _ _ _ _ _ c])
  next
    case True
    with advance_to_save assms(3,4) c' have "rank (ct_point c) = 4" by fastforce
    then obtain k where k: "ct_point c = Saving k" by (cases "ct_point c") simp_all
    then obtain tmp x where b: "save_begin (e_ks env) (keystore_path cfg) (contents st) = Inr (tmp, x)"
      "ct_point c' = SavingWrite k tmp x"
      using assms(1,3) c' True by (auto simp: advance_def save_snapshot_def snapshot_def server_store_def split: sum.splits)
    with assms(1) save_begin_temp [OF b(1)] show ?thesis
      by (auto simp: task_sealed_def sealed_by_def server_store_def address_ok_def)
  qed
  with fs m assms(1) store_holds_same [of w' cfg w env Q may] show ?thesis by (simp add: server_store_def io_ok_def)
qed

lemma advance_store:
  assumes "server_store env cfg Q may st w" "task_sealed env cfg Q may w c" "advance env c st w = (p, st', w')"
  shows "moved_on env cfg may w p st' w'"
proof -
  consider (wr) k tmp x where "ct_point c = SavingWrite k tmp x" | (rn) k tmp where "ct_point c = SavingRename k tmp"
    | (other) "rank (ct_point c) \<notin> {2, 3}"
    by (cases "ct_point c") auto
  then show ?thesis
    by cases (use write_store [OF assms] rename_store [OF assms] snapshot_store [OF assms] in blast)+
qed

end

sublocale kept_by_server \<subseteq> store: await_invariant env wf_addr "server_store env cfg Q may" "task_sealed env cfg Q may"
  for env cfg may
proof (unfold_locales, goal_cases)
  case (1 st w c p st' w')
  then show ?case using advance_store by blast
next
  case (2 st w c p st' w' d)
  then show ?case using advance_store [OF 2(1-3)] by (auto simp: task_sealed_def split: point.splits)
next
  case 3
  then show ?case by (auto simp: begin_task_At task_sealed_def address_ok_def)
qed

text \<open>The rights of a keystore, and well-formedness with a bound on the pairings.\<close>

interpretation rights: kept_by_server "\<lambda>k. wf_contents k \<and> core_view k = v"
  for v
proof (unfold_locales, goal_cases)
  case (4 c a h ch ps)
  with record_address_wf [OF 4(3)] record_address_core [OF 4(3)] show ?case
    by (auto simp: wf_contents_def core_view_def)
qed auto

end
