(* ===== verification/Await_Properties.thy ===== *)
theory Await_Properties
  imports Server_Store
begin

section \<open>Properties of the server at its awaits\<close>

text \<open>
  What holds of the server when its tasks overtake each other at every await, what only holds while no
  write fails, and what does not hold.
\<close>

text \<open>
  C5: The rights survive every interleaving of the awaits: from the start of the server on a keystore,
  with connections overtaking each other between the check of a pairing and the recording of an
  address, between a change of the memory and its save, and within their saves (which all use one
  temporary file), the memory and the keystore on disk keep the same key, certificate, credential
  time and active pairings, and every connection past the check is one of a phone whose pairing was
  active in the keystore the server started from. If writes fail, the keystore on disk may become
  unreadable, but never one with other rights, since the platform refuses a cut ciphertext.
\<close>
theorem rights_survive_every_await:
  assumes "ks_ok (e_ks env)" "disk env cfg w = Inr (Some c)" "wf_contents c"
    and "server_start env cfg hs w = (Inr st, w1)" "io_script (w_fs w1) = [] \<or> rejects_cuts (e_ks env)"
    and "await_steps env tls_accept wf_addr (up st w1) s"
  shows "(\<exists>st'. sy_server s = Some st' \<and> core_view (contents st') = core_view c \<and> handlers st' = hs)
     \<and> (case disk env cfg (sy_world s) of
           Inl e \<Rightarrow> io_script (w_fs w1) \<noteq> []
         | Inr k \<Rightarrow> \<exists>k'. k = Some k' \<and> wf_contents k' \<and> core_view k' = core_view c)
     \<and> (\<forall>t. Running t \<in> set (sy_tasks s) \<longrightarrow> (\<forall>a. ct_point t \<noteq> Checking a) \<longrightarrow> active_pairing c (ct_peer t) \<noteq> None)"
proof -
  let ?v = "core_view c" and ?Q = "\<lambda>k. wf_contents k \<and> core_view k = core_view c"
  let ?may = "\<lparr>may_lack = False, may_break = (io_script (w_fs w1) \<noteq> [])\<rparr>"
  have "memory_ok cfg hs ?v st \<and> server_store env cfg ?Q ?may st w1"
    using server_start_disk [OF assms(2,4)] assms(1,3,5)
    by (auto simp: memory_ok_def server_store_def store_holds_def io_ok_def with_handlers_def)
  then have m: "memory.everywhere cfg hs c s" and d: "rights.store.everywhere env cfg ?v ?may s"
    using memory.await_steps_inv [OF assms(6)] memory.everywhere_up
      rights.store.await_steps_inv [OF assms(6)] rights.store.everywhere_up by blast+
  from d have "store_holds env cfg ?Q ?may (sy_world s)"
    unfolding rights.store.everywhere_def by (auto simp: server_holds_def server_store_def)
  with m show ?thesis
    unfolding memory.everywhere_def
    by (fastforce simp: server_holds_def store_holds_def memory_ok_def list_all_iff task_ok_def
        split: point.splits sum.splits)
qed

text \<open>A task that runs alone takes its segments as steps of the system.\<close>

lemma task_alone:
  assumes "sy_server s = Some st" "sy_tasks s = xs @ Running c # ys"
    and "task_run env c st (sy_world s) = (r, t', st', w')"
  shows "await_steps env tls_accept addr_ok s (s\<lparr>sy_server := Some st', sy_tasks := xs @ ys, sy_world := w'\<rparr>)"
  using assms
proof (induction "(task_pending c, rank (ct_point c))" arbitrary: c s st rule: wf_induct_rule [OF wf_lex_prod [OF wf_less_than wf_less_than]])
  case (1 c s st)
  obtain p st1 w1 where a: "advance env c st (sy_world s) = (p, st1, w1)" by (cases "advance env c st (sy_world s)")
  note tr = task_run.simps [of env c st "sy_world s"]
  show ?case
  proof (cases p)
    case (Done r1 t1)
    with 1(4) a have "st' = st1" "w' = w1" by (simp_all add: tr)
    with await_step.finished [OF 1(2,3) a [unfolded Done]] show ?thesis by auto
  next
    case (At c1)
    let ?s1 = "s\<lparr>sy_server := Some st1, sy_tasks := xs @ Running c1 # ys, sy_world := w1\<rparr>"
    have "await_step env tls_accept addr_ok s ?s1" by (rule await_step.advanced [OF 1(2,3) a [unfolded At]])
    moreover have "task_run env c1 st1 (sy_world ?s1) = (r, t', st', w')" using 1(4) a At by (simp add: tr)
    from 1(1) [OF _ _ _ this] advance_shrinks [OF a [unfolded At]]
    have "await_steps env tls_accept addr_ok ?s1 (?s1\<lparr>sy_server := Some st', sy_tasks := xs @ ys, sy_world := w'\<rparr>)"
      by auto
    ultimately show ?thesis by (simp add: converse_rtranclp_into_rtranclp)
  qed
qed

text \<open>
  The function is among the interleavings: from any state of the server in which a connection waits for
  its handshake, wherever the other connections are suspended, the segments of this connection alone
  lead to the state and world that \<open>handle_connection\<close> computes.
\<close>

lemma connection_alone_at_its_awaits:
  assumes "sy_server s = Some st" "sy_tasks s = xs @ Arriving a tcp addr # ys"
    and "handle_connection env tls_accept a tcp addr st (sy_world s) = (r, st', w')"
  shows "await_steps env tls_accept addr_ok s (s\<lparr>sy_server := Some st', sy_tasks := xs @ ys, sy_world := w'\<rparr>)"
proof (cases "tls_accept a tcp")
  case (Inl e)
  with assms(1,3) have "s\<lparr>sy_server := Some st', sy_tasks := xs @ ys, sy_world := w'\<rparr> = s\<lparr>sy_tasks := xs @ ys\<rparr>"
    by (simp add: handle_connection_def)
  moreover have "await_step env tls_accept addr_ok s (s\<lparr>sy_tasks := xs @ ys\<rparr>)"
    using assms(2) Inl by (rule await_step.handshake_failed)
  ultimately show ?thesis by simp
next
  case (Inr t)
  show ?thesis
  proof (cases "begin_task env t addr")
    case (Done r1 t1)
    with Inr assms(1,3) have "s\<lparr>sy_server := Some st', sy_tasks := xs @ ys, sy_world := w'\<rparr> = s\<lparr>sy_tasks := xs @ ys\<rparr>"
      by (simp add: handle_connection_def segments_make_up_the_connection)
    moreover have "await_step env tls_accept addr_ok s (s\<lparr>sy_tasks := xs @ ys\<rparr>)"
      using assms(2) Inr Done by (rule await_step.no_peer)
    ultimately show ?thesis by simp
  next
    case (At c)
    let ?s1 = "s\<lparr>sy_tasks := xs @ Running c # ys\<rparr>"
    have "await_step env tls_accept addr_ok s ?s1" using assms(2) Inr At by (rule await_step.arrived)
    moreover obtain t2 where "task_run env c st (sy_world ?s1) = (r, t2, st', w')"
      using Inr At assms(3) by (auto simp: handle_connection_def segments_make_up_the_connection split: prod.splits)
    then have "await_steps env tls_accept addr_ok ?s1 (?s1\<lparr>sy_server := Some st', sy_tasks := xs @ ys, sy_world := w'\<rparr>)"
      by (intro task_alone [where st = st]) (simp_all add: assms(1))
    ultimately show ?thesis by (simp add: converse_rtranclp_into_rtranclp)
  qed
qed

text \<open>The segments of a save that nothing disturbs and nothing fails.\<close>

lemma calm_write_Inr:
  "io_script s = [] \<Longrightarrow> can_create t s \<Longrightarrow> fs_write t x s = (Inr (), s\<lparr>files := (files s)(t \<mapsto> x)\<rparr>)"
  by (simp add: fs_write_def next_outcome_calm)

lemma calm_rename_Inr:
  "io_script s = [] \<Longrightarrow> can_create p s \<Longrightarrow> files s t = Some x \<Longrightarrow>
     fs_rename t p s = (Inr (), s\<lparr>files := (files s)(t := None, p \<mapsto> x)\<rparr>)"
  by (simp add: fs_rename_def next_outcome_calm)

lemma advance_save:
  "save_begin (e_ks env) (keystore_path (config st)) (contents st) = Inr (tmp, x) \<Longrightarrow>
     advance env (c\<lparr>ct_point := Saving k\<rparr>) st w = (at c (SavingWrite k tmp x), st, w)"
  "io_script (w_fs w) = [] \<Longrightarrow> can_create tmp (w_fs w) \<Longrightarrow>
     advance env (c\<lparr>ct_point := SavingWrite k tmp x\<rparr>) st w
       = (at c (SavingRename k tmp), st, w\<lparr>w_fs := (w_fs w)\<lparr>files := (files (w_fs w))(tmp \<mapsto> x)\<rparr>\<rparr>)"
  "io_script (w_fs w) = [] \<Longrightarrow> can_create (keystore_path (config st)) (w_fs w) \<Longrightarrow> files (w_fs w) tmp = Some x \<Longrightarrow>
     advance env (c\<lparr>ct_point := SavingRename k tmp\<rparr>) st w
       = (at c (after k (Inr ())), st,
          w\<lparr>w_fs := (w_fs w)\<lparr>files := (files (w_fs w))(tmp := None, keystore_path (config st) \<mapsto> x)\<rparr>\<rparr>)"
  by (simp_all add: advance_def save_snapshot_def save_write_def save_rename_def snapshot_def on_fs_def
      calm_write_Inr calm_rename_Inr)

lemma advance_config:
  "advance env (c\<lparr>ct_point := Handling (ReauthConfig i) n rs snap\<rparr>) st w =
     (at c (Saving (ToAnswer (Ack n) (DaemonFrame.Error n Internal))),
      st\<lparr>contents := (contents st)\<lparr>reauth_interval_days := interval_to_days i\<rparr>\<rparr>, w)"
  by (simp add: advance_def handle_frame_def state_write_def)

definition two_tasks :: "'o SharedState \<Rightarrow> conn_task \<Rightarrow> conn_task \<Rightarrow> 'o world \<Rightarrow> ('o, 'c conn) system" where
  "two_tasks st a b w = \<lparr>sy_server = Some st, sy_tasks = [Running a, Running b], sy_world = w\<rparr>"

text \<open>Segments of one task, and the same beside a second one.\<close>

definition moves ::
    "daemon_env \<Rightarrow> conn_task \<times> 'o SharedState \<times> 'o world \<Rightarrow> conn_task \<times> 'o SharedState \<times> 'o world \<Rightarrow> bool" where
  "moves env x y \<longleftrightarrow> (case x of (c, st, w) \<Rightarrow> case y of (c', st', w') \<Rightarrow> advance env c st w = (At c', st', w'))"

lemma two_tasks_moves:
  assumes "(moves env)\<^sup>*\<^sup>* (c, st, w) (c', st', w')"
  shows "await_steps env tls_accept addr_ok (two_tasks st c b w) (two_tasks st' c' b w')"
    and "await_steps env tls_accept addr_ok (two_tasks st a c w) (two_tasks st' a c' w')"
proof -
  have one: "await_step env tls_accept addr_ok (two_tasks st1 c1 b w1) (two_tasks st2 c2 b w2)"
    "await_step env tls_accept addr_ok (two_tasks st1 a c1 w1) (two_tasks st2 a c2 w2)"
    if "moves env (c1, st1, w1) (c2, st2, w2)" for c1 st1 w1 c2 st2 w2
    using that await_step.advanced [of "two_tasks st1 c1 b w1" st1 "[]" c1 "[Running b]" env c2 st2 w2 tls_accept addr_ok]
      await_step.advanced [of "two_tasks st1 a c1 w1" st1 "[Running a]" c1 "[]" env c2 st2 w2 tls_accept addr_ok]
    by (simp_all add: two_tasks_def moves_def)
  have "await_steps env tls_accept addr_ok (two_tasks st c b w) (two_tasks st' c' b w')
      \<and> await_steps env tls_accept addr_ok (two_tasks st a c w) (two_tasks st' a c' w')"
    using assms
  proof (induction "(c', st', w')" arbitrary: c' st' w' rule: rtranclp_induct)
    case (step y)
    obtain c1 st1 w1 where y: "y = (c1, st1, w1)" by (cases y)
    from step(3) [OF y] one [OF step(2) [unfolded y]] show ?case
      by (meson rtranclp.rtrancl_into_rtrancl)
  qed simp
  then show "await_steps env tls_accept addr_ok (two_tasks st c b w) (two_tasks st' c' b w')"
    "await_steps env tls_accept addr_ok (two_tasks st a c w) (two_tasks st' a c' w')" by simp_all
qed

lemma moves_config:
  assumes "save_begin (e_ks env) (keystore_path (config st))
      ((contents st)\<lparr>reauth_interval_days := interval_to_days i\<rparr>) = Inr (tmp, x)"
    and "ct_point c = Handling (ReauthConfig i) n rs snap"
  shows "(moves env)\<^sup>*\<^sup>* (c, st, w)
      (c\<lparr>ct_point := SavingWrite (ToAnswer (Ack n) (DaemonFrame.Error n Internal)) tmp x\<rparr>,
       st\<lparr>contents := (contents st)\<lparr>reauth_interval_days := interval_to_days i\<rparr>\<rparr>, w)"
proof -
  let ?k = "ToAnswer (Ack n) (DaemonFrame.Error n Internal)"
  let ?st = "st\<lparr>contents := (contents st)\<lparr>reauth_interval_days := interval_to_days i\<rparr>\<rparr>"
  have "c\<lparr>ct_point := Handling (ReauthConfig i) n rs snap\<rparr> = c" using assms(2) by simp
  then have "moves env (c, st, w) (c\<lparr>ct_point := Saving ?k\<rparr>, ?st, w)"
    using advance_config [where c = c and i = i and n = n and rs = rs and snap = snap and st = st and w = w and env = env]
    by (simp add: moves_def)
  moreover have "moves env (c\<lparr>ct_point := Saving ?k\<rparr>, ?st, w) (c\<lparr>ct_point := SavingWrite ?k tmp x\<rparr>, ?st, w)"
    using advance_save(1) [where st = ?st and c = c and k = ?k] assms(1) by (simp add: moves_def)
  ultimately show ?thesis by auto
qed

lemma moves_commit:
  assumes "io_script (w_fs w) = []" "can_create tmp (w_fs w)" "can_create (keystore_path (config st)) (w_fs w)"
  shows "(moves env)\<^sup>*\<^sup>* (c\<lparr>ct_point := SavingWrite k tmp x\<rparr>, st, w)
      (c\<lparr>ct_point := after k (Inr ())\<rparr>, st,
       w\<lparr>w_fs := (w_fs w)\<lparr>files := (files (w_fs w))(tmp := None, keystore_path (config st) \<mapsto> x)\<rparr>\<rparr>)"
proof -
  let ?w = "w\<lparr>w_fs := (w_fs w)\<lparr>files := (files (w_fs w))(tmp \<mapsto> x)\<rparr>\<rparr>"
  have "moves env (c\<lparr>ct_point := SavingWrite k tmp x\<rparr>, st, w) (c\<lparr>ct_point := SavingRename k tmp\<rparr>, st, ?w)"
    using advance_save(2) [where st = st and c = c and k = k] assms by (simp add: moves_def)
  moreover have "can_create (keystore_path (config st)) (w_fs ?w)" using assms(3) by (simp add: can_create_def)
  then have "moves env (c\<lparr>ct_point := SavingRename k tmp\<rparr>, st, ?w) (c\<lparr>ct_point := after k (Inr ())\<rparr>, st,
       w\<lparr>w_fs := (w_fs w)\<lparr>files := (files (w_fs w))(tmp := None, keystore_path (config st) \<mapsto> x)\<rparr>\<rparr>)"
    using advance_save(3) [where st = st and c = c and k = k and w = ?w] assms(1) by (simp add: moves_def)
  ultimately show ?thesis by auto
qed

text \<open>
  C27: An acknowledged change can be lost: with nothing failing, two connections can each set the
  re-authentication interval and each be answered \<open>Ack\<close>, and in the end the memory holds the second
  interval and the disk the first, because the first took its snapshot before the second changed the
  memory and wrote it after the second had saved. The next start of the daemon works with the first
  interval, although the second one was set, acknowledged and in force.
\<close>
theorem acknowledged_interval_can_be_lost:
  assumes "ks_ok (e_ks env)" "wf_contents (contents st)"
    and "ct_point a = Handling (ReauthConfig i) n rs snap" "ct_point b = Handling (ReauthConfig j) m rs' snap'"
    and "save_begin (e_ks env) (keystore_path (config st))
          ((contents st)\<lparr>reauth_interval_days := interval_to_days i\<rparr>) = Inr (tmp, x)"
    and "save_begin (e_ks env) (keystore_path (config st))
          ((contents st)\<lparr>reauth_interval_days := interval_to_days j\<rparr>) = Inr (tmp', y)"
    and "io_script (w_fs w) = []" "can_create tmp (w_fs w)" "can_create (keystore_path (config st)) (w_fs w)"
  shows "\<exists>st' w'. await_steps env tls_accept addr_ok (two_tasks st a b w)
        (two_tasks st' (a\<lparr>ct_point := Answering (Ack n)\<rparr>) (b\<lparr>ct_point := Answering (Ack m)\<rparr>) w')
     \<and> contents st' = (contents st)\<lparr>reauth_interval_days := interval_to_days j\<rparr>
     \<and> disk env (config st) w' = Inr (Some ((contents st)\<lparr>reauth_interval_days := interval_to_days i\<rparr>))"
proof -
  let ?p = "keystore_path (config st)"
  let ?ka = "ToAnswer (Ack n) (DaemonFrame.Error n Internal)" and ?kb = "ToAnswer (Ack m) (DaemonFrame.Error m Internal)"
  let ?s1 = "st\<lparr>contents := (contents st)\<lparr>reauth_interval_days := interval_to_days i\<rparr>\<rparr>"
  let ?s2 = "st\<lparr>contents := (contents st)\<lparr>reauth_interval_days := interval_to_days j\<rparr>\<rparr>"
  let ?a = "\<lambda>p. a\<lparr>ct_point := p\<rparr>" and ?b = "\<lambda>p. b\<lparr>ct_point := p\<rparr>"
  let ?w2 = "w\<lparr>w_fs := (w_fs w)\<lparr>files := (files (w_fs w))(tmp := None, ?p \<mapsto> y)\<rparr>\<rparr>"
  let ?w4 = "w\<lparr>w_fs := (w_fs w)\<lparr>files := (files (w_fs w))(tmp := None, ?p \<mapsto> x)\<rparr>\<rparr>"
  have tmp: "tmp' = tmp" "tmp \<noteq> ?p"
    using save_begin_temp [OF assms(5)] save_begin_temp [OF assms(6)] temp_other [of env "config st"] by simp_all
  have after: "after ?ka (Inr ()) = Answering (Ack n)" "after ?kb (Inr ()) = Answering (Ack m)"
    by (simp_all add: after_def is_ok_def)
  have begin_a: "(moves env)\<^sup>*\<^sup>* (a, st, w) (?a (SavingWrite ?ka tmp x), ?s1, w)"
    by (rule moves_config [OF assms(5,3)])
  have begin_b: "(moves env)\<^sup>*\<^sup>* (b, ?s1, w) (?b (SavingWrite ?kb tmp y), ?s2, w)"
    using moves_config [where st = ?s1 and c = b and i = j and w = w] assms(4,6) tmp(1) by simp
  have commit_b: "(moves env)\<^sup>*\<^sup>* (?b (SavingWrite ?kb tmp y), ?s2, w) (?b (Answering (Ack m)), ?s2, ?w2)"
    using moves_commit [where st = ?s2 and c = b and k = ?kb and w = w and tmp = tmp] assms(7-9) after(2) by simp
  have commit_a: "(moves env)\<^sup>*\<^sup>* (?a (SavingWrite ?ka tmp x), ?s2, ?w2) (?a (Answering (Ack n)), ?s2, ?w4)"
    using moves_commit [where st = ?s2 and c = a and k = ?ka and w = ?w2 and tmp = tmp] assms(7-9) after(1) tmp(2)
    by (simp add: can_create_def fun_upd_twist)
  have "await_steps env tls_accept addr_ok (two_tasks st a b w)
      (two_tasks ?s2 (?a (Answering (Ack n))) (?b (Answering (Ack m))) ?w4)"
    by (rule rtranclp_trans [OF rtranclp_trans [OF rtranclp_trans [OF two_tasks_moves(1) [OF begin_a]
      two_tasks_moves(2) [OF begin_b]] two_tasks_moves(2) [OF commit_b]] two_tasks_moves(1) [OF commit_a]])
  moreover have "disk env (config st) ?w4 = Inr (Some (contents ?s1))"
    using begun_stored [OF assms(1) _ assms(5), of "w_fs ?w4"] assms(2) by (simp add: disk_def)
  ultimately show ?thesis by (intro exI [of _ ?s2] exI [of _ ?w4]) simp
qed

end
