(* ===== verification/Await_Run.thy ===== *)
theory Await_Run
  imports Await_Properties
begin

section \<open>The server at its awaits, evaluated\<close>

text \<open>
  The properties of \<open>Server_Awaits\<close> and \<open>Await_Properties\<close> applied to a daemon with one paired phone:
  the phone connects, is checked and sends \<open>Lock\<close>; two of its connections set the interval at once.
\<close>

text \<open>Handlers that count the commands they ran.\<close>

definition tally :: "nat \<Rightarrow> (OsHandlerError + unit) \<times> nat" where
  "tally n = (Inr (), Suc n)"

definition tally_handlers :: "nat Handlers" where
  "tally_handlers = \<lparr>h_prepare = (\<lambda>s. (Inr (), s)), h_sleep = tally, h_lock = tally, h_power_off = tally,
     h_session_state = (\<lambda>s. (Inr OnLoggedIn, s))\<rparr>"

definition one_task :: "'o SharedState \<Rightarrow> 'c conn \<Rightarrow> 'o world \<Rightarrow> ('o, 'c conn) system" where
  "one_task st c w = \<lparr>sy_server = Some st, sy_tasks = [c], sy_world = w\<rparr>"

lemma one_task_step:
  "advance env c st w = (At c', st', w') \<Longrightarrow>
     await_step env tls_accept addr_ok (one_task st (Running c) w) (one_task st' (Running c') w')"
  using await_step.advanced [of "one_task st (Running c) w" st "[]" c "[]" env c' st' w' tls_accept addr_ok]
  by (simp add: one_task_def)

lemma one_task_go:
  "await_steps env tls_accept addr_ok s (one_task st (Running c) w) \<Longrightarrow> advance env c st w = (At c', st', w') \<Longrightarrow>
     await_steps env tls_accept addr_ok s (one_task st' (Running c') w')"
  by (blast intro: rtranclp.rtrancl_into_rtrancl one_task_step)

lemma one_task_arrives:
  assumes "build_acceptor env st = Inr a" "tls_accept a tcp = Inr t" "peer_spki_from_tls env t = Inr h" "addr_ok addr"
  shows "await_steps env tls_accept addr_ok (up st w)
     (one_task st (Running \<lparr>ct_peer = h, ct_nonces = counter_new, ct_buf = [], ct_stream = t, ct_point = Checking addr\<rparr>) w)"
proof -
  let ?c = "\<lparr>ct_peer = h, ct_nonces = counter_new, ct_buf = [], ct_stream = t, ct_point = Checking addr\<rparr>"
  have "await_step env tls_accept addr_ok (up st w) (one_task st (Arriving a tcp addr) w)"
    using await_step.accepted [of "up st w" st env a addr_ok addr tls_accept tcp] assms(1,4)
    by (simp add: one_task_def up_def)
  moreover have "await_step env tls_accept addr_ok (one_task st (Arriving a tcp addr) w) (one_task st (Running ?c) w)"
    using await_step.arrived [of "one_task st (Arriving a tcp addr) w" "[]" a tcp addr "[]" tls_accept t env ?c addr_ok]
      assms(2,3) by (simp add: one_task_def begin_task_At)
  ultimately show ?thesis by (meson r_into_rtranclp rtranclp.rtrancl_into_rtrancl)
qed

lemma alice_arrives:
  assumes "contents st = sample_contents"
  shows "\<exists>a. build_acceptor sample_daemon st = Inr a
     \<and> sample_accept a evs = Inr (sample_stream (Some [alice_cert]) evs)"
proof -
  obtain a where a: "build_acceptor sample_daemon st = Inr a"
    by (simp add: build_acceptor_def server_config_for_pinned_clients_def server_config_def sample_daemon_def
        sample_rustls_def Let_def identity_to_rustls_def)
  have "cv_mode (sc_verifier a) = Pinned (with_pins [alice])"
    using build_acceptor_mode [OF a] assms by (simp add: sample_contents_def is_active_def alice_def)
  moreover have "extract_spki_hash sample_x509 alice_cert = Inr alice"
    by (simp add: extract_spki_hash_def compute_spki_hash_def sample_x509_def alice_cert_def alice_def)
  ultimately show ?thesis
    using a by (simp add: sample_accept_def verify_client_cert_def with_pins_def pinset_contains_def)
qed

text \<open>One frame in one chunk.\<close>

lemma read_one:
  assumes "receivable e" "length (frame_bytes e) \<le> READ_CHUNK"
  shows "read_envelope [] (sample_stream certs [Chunk (frame_bytes e)]) = (Inr (Some e), [], sample_stream certs [])"
proof -
  have "frame_bytes e \<noteq> []" by (simp add: frame_bytes_def)
  moreover have "read_envelope (frame_bytes e) t = (Inr (Some e), [], t)" for t
    using decode_frame [OF assms(1), of "[]"] by (simp add: read_envelope.simps [of "frame_bytes e"] Let_def)
  ultimately show ?thesis
    using assms(2) by (simp add: read_envelope.simps [of "[]"] decode_envelope_eq tls_read_def sample_stream_def)
qed

lemma sample_lock:
  "receivable (sample_envelope 1 Lock)" "length (frame_bytes (sample_envelope 1 Lock)) \<le> READ_CHUNK"
  by (simp_all add: receivable_def sendable_def sample_envelope_def envelope_consts put_tag_def frame_bytes_def
      READ_CHUNK_def)

definition alice_task :: "read_event list \<Rightarrow> point \<Rightarrow> conn_task" where
  "alice_task evs p = \<lparr>ct_peer = alice, ct_nonces = counter_new, ct_buf = [],
     ct_stream = sample_stream (Some [alice_cert]) evs, ct_point = p\<rparr>"

lemma alice_task_simps [simp]:
  "ct_peer (alice_task evs p) = alice" "ct_point (alice_task evs p) = p"
  "ct_nonces (alice_task evs p) = counter_new" "ct_buf (alice_task evs p) = []"
  "ct_stream (alice_task evs p) = sample_stream (Some [alice_cert]) evs"
  "(alice_task evs p)\<lparr>ct_point := q\<rparr> = alice_task evs q"
  by (simp_all add: alice_task_def)

lemma alice_checked:
  assumes "contents st = sample_contents" "addr_ok addr"
  shows "await_steps sample_daemon sample_accept addr_ok (up st w) (one_task st (Running (alice_task evs (Recording addr))) w)"
proof -
  obtain a where "build_acceptor sample_daemon st = Inr a" "sample_accept a evs = Inr (sample_stream (Some [alice_cert]) evs)"
    using alice_arrives [OF assms(1)] by blast
  from one_task_arrives [where tls_accept = sample_accept and tcp = evs and addr_ok = addr_ok and addr = addr and w = w,
      OF this alice_spki assms(2)]
  have "await_steps sample_daemon sample_accept addr_ok (up st w) (one_task st (Running (alice_task evs (Checking addr))) w)"
    by (simp add: alice_task_def)
  moreover have "active_pairing (contents st) alice \<noteq> None" using assms(1) by simp
  then have "advance sample_daemon (alice_task evs (Checking addr)) st w = (At (alice_task evs (Recording addr)), st, w)"
    by (auto simp: advance_def at_def)
  ultimately show ?thesis by (rule one_task_go)
qed

theorem host_reached_only_through_the_gate_witness:
  "\<exists>s s' c. await_steps sample_daemon sample_accept wf_addr (up (sample_shared tally_handlers) (sample_world 1000 0)) s
     \<and> await_step sample_daemon sample_accept wf_addr s s' \<and> w_os (sy_world s) = 0 \<and> w_os (sy_world s') = 1
     \<and> Running c \<in> set (sy_tasks s) \<and> active_pairing sample_contents (ct_peer c) \<noteq> None"
proof -
  let ?st = "sample_shared tally_handlers" and ?w = "sample_world 1000 0 :: nat world"
  let ?e = "[Chunk (frame_bytes (sample_envelope 1 Lock))]" and ?t = "sample_stream (Some [alice_cert]) []"
  let ?c = "\<lambda>p. \<lparr>ct_peer = alice, ct_nonces = counter_new\<lparr>recv := \<lparr>recv_last_seen = 1\<rparr>\<rparr>, ct_buf = [],
      ct_stream = ?t, ct_point = p\<rparr>"
  let ?h = "Handling Lock 1 Active sample_contents"
  let ?go = "await_steps sample_daemon sample_accept wf_addr (up ?st ?w)"
  have st: "contents ?st = sample_contents" "wf_contents (contents ?st)" by (simp_all add: sample_shared_def)
  obtain w1 where now: "unix_ms_now ?w = (1000, w1)" "w_os w1 = 0"
    by (simp add: unix_ms_now_def unix_ms_def sample_world_def)
  let ?w2 = "w1\<lparr>w_os := 1\<rparr>"
  let ?s = "one_task ?st (Running (?c ?h)) w1 :: (nat, read_event list conn) system"
  let ?s2 = "one_task ?st (Running (?c (Answering (Ack 1)))) ?w2 :: (nat, read_event list conn) system"
  have "wf_addr alice_addr" by (simp add: alice_addr_def)
  from alice_checked [OF st(1), of wf_addr alice_addr ?w ?e] this
  have "?go (one_task ?st (Running (alice_task ?e (Recording alice_addr))) ?w)" by simp
  then have "?go (one_task ?st (Running (alice_task ?e Reading)) ?w)"
    by (rule one_task_go) (use sample_address [of tally_handlers] in
      \<open>simp add: advance_def at_def state_write_def del: sample_shared_fields\<close>)
  moreover have "read_request sample_daemon (alice_task ?e Reading) ?w = (At (?c (Deciding Lock 1 1000)), w1)"
    using read_one [OF sample_lock] now sample_decode [of Lock]
    by (simp add: read_request_def accept_def counter_new_def receiver_new_def sample_envelope_def wf_client_def
        at_def alice_task_def)
  then have "advance sample_daemon (alice_task ?e Reading) ?st ?w = (At (?c (Deciding Lock 1 1000)), ?st, w1)"
    by (simp add: advance_def)
  ultimately have "?go (one_task ?st (Running (?c (Deciding Lock 1 1000))) w1)" by (rule one_task_go)
  moreover have "evaluate 1000 0 7 = Active"
    by (simp add: evaluate_def expires_at_unix_ms_def Let_def saturating_mul_def saturating_add_def)
  then have "advance sample_daemon (?c (Deciding Lock 1 1000)) ?st w1 = (At (?c ?h), ?st, w1)"
    by (simp add: advance_def at_def snapshot_def st(1) Let_def) (simp add: sample_contents_def)
  ultimately have h: "?go ?s" by (rule one_task_go)
  have "advance sample_daemon (?c ?h) ?st w1 = (At (?c (Answering (Ack 1))), ?st, ?w2)"
    using now(2) by (simp add: advance_def handle_frame_def handle_gated_def block_state_change_def on_os_def
        tally_handlers_def tally_def handler_to_response_def at_def)
  from one_task_step [OF this] have l: "await_step sample_daemon sample_accept wf_addr ?s ?s2" .
  have "w_os (sy_world ?s2) \<noteq> w_os (sy_world ?s)"
    using now(2) by (simp add: one_task_def)
  from host_reached_only_through_the_gate [OF st(2) h l this] obtain c
    where c: "Running c \<in> set (sy_tasks ?s)" "active_pairing (contents ?st) (ct_peer c) \<noteq> None"
    by blast
  have "active_pairing sample_contents (ct_peer c) \<noteq> None" using c(2) st(1) by simp
  moreover have "w_os (sy_world ?s) = 0" "w_os (sy_world ?s2) = 1"
    using now(2) by (simp_all add: one_task_def)
  ultimately show ?thesis using h l c(1) by blast
qed

theorem rights_survive_every_await_witness:
  "\<exists>w1 s t k. server_start sample_daemon home stub_handlers alice_world = (Inr alice_server, w1)
     \<and> await_steps sample_daemon sample_accept wf_addr (up alice_server w1) s
     \<and> sy_tasks s = [Running t] \<and> active_pairing sample_contents (ct_peer t) \<noteq> None
     \<and> disk sample_daemon home (sy_world s) = Inr (Some k) \<and> core_view k = core_view sample_contents"
proof -
  obtain w1 where st: "server_start sample_daemon home stub_handlers alice_world = (Inr alice_server, w1)"
    "phone_world sample_contents w1"
    using alice_start [OF alice_phone_world refl] by (auto simp: alice_server_def with_handlers_def)
  then have calm: "io_script (w_fs w1) = []" by (simp add: phone_world_def home_disk_def)
  let ?t = "alice_task [] (Recording new_addr)"
  let ?s = "one_task alice_server (Running ?t) w1 :: (unit, read_event list conn) system"
  have s: "await_steps sample_daemon sample_accept wf_addr (up alice_server w1) ?s"
    by (rule alice_checked) simp_all
  note r = rights_survive_every_await [OF sample_daemon_ks phone_world_disk [OF alice_phone_world] sample_contents_wf
      st(1) disjI1 [OF calm] s]
  from r [THEN conjunct2, THEN conjunct1] calm obtain k
    where k: "disk sample_daemon home (sy_world ?s) = Inr (Some k)"
      "core_view k = core_view sample_contents" by (auto split: sum.splits)
  have "sy_tasks ?s = [Running ?t]" by (simp add: one_task_def)
  moreover from this r have "active_pairing sample_contents (ct_peer ?t) \<noteq> None" by simp
  ultimately show ?thesis using st(1) s k by blast
qed

lemma small_interval [simp]: "small (sample_contents\<lparr>reauth_interval_days := interval_to_days i\<rparr>)"
proof -
  have "wf_contents (sample_contents\<lparr>reauth_interval_days := interval_to_days i\<rparr>)" by simp
  then show ?thesis by (cases i) (simp_all add: small_def sample_contents_def put_defs)
qed

theorem acknowledged_interval_can_be_lost_witness:
  "\<exists>st' w'. await_steps sample_daemon sample_accept wf_addr
       (two_tasks alice_server (alice_task [] (Handling (ReauthConfig SevenDays) 1 Active sample_contents))
          (alice_task [] (Handling (ReauthConfig OneDay) 1 Active sample_contents)) alice_world)
       (two_tasks st' (alice_task [] (Answering (Ack 1))) (alice_task [] (Answering (Ack 1))) w')
     \<and> reauth_interval_days (contents st') = 1
     \<and> disk sample_daemon home w' = Inr (Some (sample_contents\<lparr>reauth_interval_days := 7\<rparr>))"
proof -
  let ?a = "alice_task [] (Handling (ReauthConfig SevenDays) 1 Active sample_contents)"
  let ?b = "alice_task [] (Handling (ReauthConfig OneDay) 1 Active sample_contents)"
  have h: "home_disk sample_contents (w_fs alice_world)" using alice_phone_world by (simp add: phone_world_def)
  have env: "e_ks sample_daemon = sample_env 7" by (simp add: sample_daemon_def)
  have b: "\<exists>tmp x. save_begin (e_ks sample_daemon) (keystore_path home) c = Inr (tmp, x)" if c: "small c" for c
    using home_disk_save [OF h c] unfolding env
    by (cases "save_begin (sample_env 7) sample_path c") (auto simp: ks_save_begin)
  obtain tmp x tmp2 y where x:
    "save_begin (e_ks sample_daemon) (keystore_path (config alice_server))
       ((contents alice_server)\<lparr>reauth_interval_days := interval_to_days SevenDays\<rparr>) = Inr (tmp, x)"
    "save_begin (e_ks sample_daemon) (keystore_path (config alice_server))
       ((contents alice_server)\<lparr>reauth_interval_days := interval_to_days OneDay\<rparr>) = Inr (tmp2, y)"
    using b [OF small_interval [of SevenDays]] b [OF small_interval [of OneDay]] by auto
  have d: "dirs (w_fs alice_world) = [[], [''data'']]" "io_script (w_fs alice_world) = []"
    "files (w_fs alice_world) = [sample_path \<mapsto> sample_seal (2 # put_contents sample_contents)]"
    by (simp_all add: alice_world_def)
  have "tmp = temp_of (sample_env 7) sample_path" using save_begin_temp [OF x(1)] env by simp
  then have cc: "can_create tmp (w_fs alice_world)" "can_create (keystore_path (config alice_server)) (w_fs alice_world)"
    using d by (simp_all add: can_create_def temp_of_def join_def)
  have wf: "wf_contents (contents alice_server)" by simp
  have ab: "ct_point ?a = Handling (ReauthConfig SevenDays) 1 Active sample_contents"
    "ct_point ?b = Handling (ReauthConfig OneDay) 1 Active sample_contents" by simp_all
  from acknowledged_interval_can_be_lost [where tls_accept = sample_accept and addr_ok = wf_addr,
      OF sample_daemon_ks wf ab x d(2) cc]
  obtain st' w' where r: "await_steps sample_daemon sample_accept wf_addr (two_tasks alice_server ?a ?b alice_world)
      (two_tasks st' (?a\<lparr>ct_point := Answering (Ack 1)\<rparr>) (?b\<lparr>ct_point := Answering (Ack 1)\<rparr>) w')"
    "contents st' = (contents alice_server)\<lparr>reauth_interval_days := interval_to_days OneDay\<rparr>"
    "disk sample_daemon (config alice_server) w' = Inr (Some ((contents alice_server)\<lparr>reauth_interval_days := interval_to_days SevenDays\<rparr>))"
    by blast
  then show ?thesis by (intro exI [of _ st'] exI [of _ w']) simp
qed

end
