(* ===== verification/Await_Refinement.thy ===== *)
theory Await_Refinement
  imports Await_Properties
begin

section \<open>Turns are runs of segments\<close>

text \<open>
  The two models of the server: \<open>Server_System\<close> moves a connection by one turn (its start, or one
  frame with its effect and answer), \<open>Server_Awaits\<close> by one segment between two awaits. A connection at
  the top of its loop is the same task in both, and what a turn does is what its segments do when no
  other task moves in between. So every run of turns is a run of segments.
\<close>

fun refine_task :: "'c task \<Rightarrow> 'c conn" where
  "refine_task (Accepted a tcp addr) = Arriving a tcp addr"
| "refine_task (Serving h ns buf t) = Running (waiting h ns buf t)"

definition refine :: "('o, 'c task) system \<Rightarrow> ('o, 'c conn) system" where
  "refine s = \<lparr>sy_server = sy_server s, sy_tasks = map refine_task (sy_tasks s), sy_world = sy_world s\<rparr>"

lemma refine_sel [simp]:
  "sy_server (refine s) = sy_server s" "sy_tasks (refine s) = map refine_task (sy_tasks s)"
  "sy_world (refine s) = sy_world s"
  by (simp_all add: refine_def)

lemma refine_update [simp]:
  "refine (s\<lparr>sy_tasks := ts\<rparr>) = (refine s)\<lparr>sy_tasks := map refine_task ts\<rparr>"
  "refine (s\<lparr>sy_server := x, sy_tasks := ts, sy_world := w\<rparr>)
     = (refine s)\<lparr>sy_server := x, sy_tasks := map refine_task ts, sy_world := w\<rparr>"
  by (simp_all add: refine_def)

lemma refine_up [simp]: "refine (up st w) = up st w"
  by (simp add: refine_def up_def)

text \<open>The tasks that are left when a task has made the progress \<open>p\<close>.\<close>

definition left_running :: "progress \<Rightarrow> 'c conn list" where
  "left_running p = (case p of Done _ _ \<Rightarrow> [] | At c \<Rightarrow> [Running c])"

lemma left_running_simps [simp]: "left_running (Done r t) = []" "left_running (At c) = [Running c]"
  by (simp_all add: left_running_def)

lemma turn_as_segments:
  assumes "sy_server s = Some st" "sy_tasks s = xs @ Running c # ys"
    and "turn_run env c st (sy_world s) = (p, st', w')"
  shows "await_steps env tls_accept addr_ok s
      (s\<lparr>sy_server := Some st', sy_tasks := xs @ left_running p @ ys, sy_world := w'\<rparr>)"
  using assms
proof (induction env c st "sy_world s" arbitrary: s rule: turn_run.induct)
  case (1 env c st s)
  obtain q st1 w1 where a: "advance env c st (sy_world s) = (q, st1, w1)" by (cases "advance env c st (sy_world s)")
  note tr = turn_run.simps [of env c st "sy_world s"]
  show ?case
  proof (cases q)
    case (Done r t)
    with await_step.finished [OF 1(2,3) a [unfolded Done]] 1(4) a show ?thesis by (auto simp: tr)
  next
    case (At c1)
    let ?s1 = "s\<lparr>sy_server := Some st1, sy_tasks := xs @ Running c1 # ys, sy_world := w1\<rparr>"
    have step: "await_step env tls_accept addr_ok s ?s1" by (rule await_step.advanced [OF 1(2,3) a [unfolded At]])
    show ?thesis
    proof (cases "ct_point c1 = Reading")
      case True
      with step 1(4) a At show ?thesis by (auto simp: tr)
    next
      case False
      with 1(4) a At have "turn_run env c1 st1 (sy_world ?s1) = (p, st', w')" by (simp add: tr)
      with 1(1) [OF a [symmetric] At _ False _ _ this]
      have "await_steps env tls_accept addr_ok ?s1
          (?s1\<lparr>sy_server := Some st', sy_tasks := xs @ left_running p @ ys, sy_world := w'\<rparr>)" by simp
      with step show ?thesis by (simp add: converse_rtranclp_into_rtranclp)
    qed
  qed
qed

lemma start_as_segments:
  assumes "sy_server s = Some st" "sy_tasks s = xs @ Arriving a tcp addr # ys" "tls_accept a tcp = Inr t"
    and "begin_task env t addr = At c" "turn_run env c st (sy_world s) = (p, st', w')"
  shows "await_steps env tls_accept addr_ok s
      (s\<lparr>sy_server := Some st', sy_tasks := xs @ left_running p @ ys, sy_world := w'\<rparr>)"
proof -
  let ?s1 = "s\<lparr>sy_tasks := xs @ Running c # ys\<rparr>"
  have "await_step env tls_accept addr_ok s ?s1" by (rule await_step.arrived [where a = a and tcp = tcp and t = t]) (use assms in simp_all)
  moreover have "await_steps env tls_accept addr_ok ?s1
      (?s1\<lparr>sy_server := Some st', sy_tasks := xs @ left_running p @ ys, sy_world := w'\<rparr>)"
    by (rule turn_as_segments) (use assms in simp_all)
  ultimately show ?thesis by (simp add: converse_rtranclp_into_rtranclp)
qed

lemma net_step_as_segments:
  "net_step env tls_accept addr_ok s s' \<Longrightarrow> await_steps env tls_accept addr_ok (refine s) (refine s')"
proof (induction rule: net_step.induct)
  case (accepted s st a addr tcp)
  then have "await_step env tls_accept addr_ok (refine s)
      ((refine s)\<lparr>sy_tasks := sy_tasks (refine s) @ [Arriving a tcp addr]\<rparr>)"
    by (intro await_step.accepted [where st = st]) simp_all
  then show ?case by auto
next
  case (handshake_failed s xs a tcp addr ys e)
  then show ?case by (auto intro!: r_into_rtranclp await_step.handshake_failed)
next
  case (refused s st xs a tcp addr ys t r t' st' w')
  show ?case
  proof (cases "begin_task env t addr")
    case (Done r1 t1)
    with refused have "st' = st" "w' = sy_world s" by (simp_all add: turn_run_start)
    then have "refine (s\<lparr>sy_server := Some st', sy_tasks := xs @ ys, sy_world := w'\<rparr>)
        = (refine s)\<lparr>sy_tasks := map refine_task xs @ map refine_task ys\<rparr>"
      using refused(1) by (simp add: refine_def)
    with refused Done show ?thesis by (auto intro!: r_into_rtranclp await_step.no_peer)
  next
    case (At c)
    with refused(4) have "turn_run env c st (sy_world s) = (Done r t', st', w')"
      by (simp add: turn_run_start split: prod.splits progress.splits)
    with start_as_segments [where s = "refine s" and st = st and xs = "map refine_task xs" and ys = "map refine_task ys"
        and tls_accept = tls_accept, OF _ _ refused(3) At] refused(1,2)
    show ?thesis by fastforce
  qed
next
  case (started s st xs a tcp addr ys t h t' st' w')
  then obtain c c' where c: "begin_task env t addr = At c" "turn_run env c st (sy_world s) = (At c', st', w')"
    "ct_peer c' = h" "ct_stream c' = t'"
    by (auto simp: turn_run_start split: prod.splits progress.splits)
  with turn_run_started [OF c(1,2)]
    start_as_segments [where s = "refine s" and st = st and xs = "map refine_task xs" and ys = "map refine_task ys"
        and tls_accept = tls_accept, OF _ _ started(3) c(1)] started(1,2)
  show ?case by fastforce
next
  case (turned s st xs h ns buf t ys ns' buf' t' st' w')
  then show ?case
    using turn_as_segments [where s = "refine s" and st = st and c = "waiting h ns buf t"
        and xs = "map refine_task xs" and ys = "map refine_task ys" and env = env]
    by (fastforce simp: turn_run_step turn_progress_def)
next
  case (ended s st xs h ns buf t ys r t' st' w')
  then show ?case
    using turn_as_segments [where s = "refine s" and st = st and c = "waiting h ns buf t"
        and xs = "map refine_task xs" and ys = "map refine_task ys" and env = env]
    by (fastforce simp: turn_run_step turn_progress_def)
qed

lemma net_steps_as_segments:
  "net_steps env tls_accept addr_ok s s' \<Longrightarrow> await_steps env tls_accept addr_ok (refine s) (refine s')"
  by (induction rule: rtranclp_induct) (auto dest: net_step_as_segments intro: rtranclp_trans)

text \<open>
  Whatever the connections can make of a server turn by
  turn, with any order of the turns, any bytes and any failures, they can make of it segment by segment:
  the same memory, disk and host, each served connection suspended at its read with the same nonces and
  buffered bytes. So what holds of every interleaving of segments holds of every interleaving of turns.
\<close>
lemma turns_are_runs_of_segments:
  assumes "net_steps env tls_accept addr_ok (up st w) s"
  shows "await_steps env tls_accept addr_ok (up st w)
      \<lparr>sy_server = sy_server s, sy_tasks = map refine_task (sy_tasks s), sy_world = sy_world s\<rparr>"
  using net_steps_as_segments [OF assms] by (simp add: refine_def [of s])

end
