(* ===== verification/Await_Commands.thy ===== *)
theory Await_Commands
  imports Await_Properties
begin

section \<open>The running server beside the local commands\<close>

text \<open>
  The server of \<open>Server_Awaits\<close>, each of its connections between any two awaits, while the local commands
  of \<open>Server_System\<close> run and other processes do whatever they like to the disk. None of them stops or
  starts the server. What the server allows is in its memory, which nothing of this reaches.
\<close>

inductive beside_step ::
    "daemon_env \<Rightarrow> 'c tls_accept \<Rightarrow> Config \<Rightarrow> 'o Handlers \<Rightarrow> ('o, 'c conn) system \<Rightarrow> ('o, 'c conn) system \<Rightarrow> bool"
  for env tls_accept cfg hs where
  segment: "await_step env tls_accept wf_addr s s' \<Longrightarrow> beside_step env tls_accept cfg hs s s'"
| command: "local_step env tls_accept cfg hs s s' \<Longrightarrow> sy_server s' \<noteq> None \<Longrightarrow> beside_step env tls_accept cfg hs s s'"
| elsewhere: "beside_step env tls_accept cfg hs s (s\<lparr>sy_world := w'\<rparr>)"

abbreviation beside_steps where
  "beside_steps env tls_accept cfg hs \<equiv> (beside_step env tls_accept cfg hs)\<^sup>*\<^sup>*"

text \<open>A command that leaves a running server running changes the world at most.\<close>

lemma command_changes_world:
  assumes "local_step env tls_accept cfg hs s s'" "sy_server s = Some st" "sy_server s' \<noteq> None"
  shows "s' = s\<lparr>sy_world := sy_world s'\<rparr>"
  using assms by cases simp_all

lemma memory_other_world:
  "memory.everywhere cfg hs c (s\<lparr>sy_world := w'\<rparr>) = memory.everywhere cfg hs c s"
  by (simp add: memory.everywhere_def memory.task_holds_def server_holds_def list_all_iff)

lemma beside_step_memory:
  assumes "beside_step env tls_accept cfg hs s s'" "memory.everywhere cfg0 hs0 c s"
  shows "memory.everywhere cfg0 hs0 c s'"
  using assms(1)
proof cases
  case segment
  from memory.await_step_inv [OF this assms(2)] show ?thesis .
next
  case command
  from assms(2) obtain st where "sy_server s = Some st" by (auto simp: memory.everywhere_def server_holds_def)
  from command_changes_world [OF command(1) this command(2)] assms(2) memory_other_world show ?thesis by metis
next
  case elsewhere
  with assms(2) show ?thesis by (simp add: memory_other_world)
qed

lemma beside_steps_memory:
  "beside_steps env tls_accept cfg hs s s' \<Longrightarrow> memory.everywhere cfg0 hs0 c s \<Longrightarrow> memory.everywhere cfg0 hs0 c s'"
  by (induction rule: rtranclp_induct) (auto dest: beside_step_memory)

lemma acceptor_accepts_iff:
  assumes "build_acceptor env st = Inr a" "extract_spki_hash (e_x509 env) leaf = Inr h"
  shows "verify_client_cert (e_x509 env) (sc_verifier a) leaf = Inr () \<longleftrightarrow> active_pairing (contents st) h \<noteq> None"
  using assms(2) build_acceptor_mode [OF assms(1)]
  by (auto simp: verify_client_cert_def with_pins_def pinset_contains_def active_pairing_None is_active_def)

text \<open>
  C6: Only a restart changes what a running server allows: whatever its connections do between any two
  awaits, whichever commands run beside it (\<open>revoke\<close>, \<open>pair\<close>, \<open>reauth-now\<close> and the uninstaller included) and
  whatever else happens to the disk, the server keeps the key, the active pairings and the credential
  time it started with; its next acceptor accepts exactly the phones that were active then, also those
  revoked since and none paired since; and every connection past its check belongs to one of them.
\<close>
theorem only_a_restart_changes_rights:
  assumes "wf_contents (contents st)" "beside_steps env tls_accept cfg hs (up st w) s"
  shows "\<exists>st'. sy_server s = Some st' \<and> handlers st' = handlers st \<and> core_view (contents st') = core_view (contents st)
     \<and> (\<forall>a leaf h. build_acceptor env st' = Inr a \<longrightarrow> extract_spki_hash (e_x509 env) leaf = Inr h \<longrightarrow>
           (verify_client_cert (e_x509 env) (sc_verifier a) leaf = Inr () \<longleftrightarrow> active_pairing (contents st) h \<noteq> None))
     \<and> (\<forall>t. Running t \<in> set (sy_tasks s) \<longrightarrow> (\<forall>a. ct_point t \<noteq> Checking a) \<longrightarrow>
           active_pairing (contents st) (ct_peer t) \<noteq> None)"
proof -
  have "memory.everywhere (config st) (handlers st) (contents st) (up st w)"
    by (rule memory.everywhere_up) (simp add: memory_ok_def assms(1))
  note m = beside_steps_memory [OF assms(2) this]
  from memory_everywhereD(1) [OF m] obtain st' where st': "sy_server s = Some st'" "handlers st' = handlers st"
    "core_view (contents st') = core_view (contents st)"
    by (auto simp: memory_ok_def)
  have "active_pairing (contents st) (ct_peer t) \<noteq> None"
    if "Running t \<in> set (sy_tasks s)" "\<forall>a. ct_point t \<noteq> Checking a" for t
    using memory_everywhereD(2) [OF m that(1)] that(2) by (cases "ct_point t") (simp_all add: task_ok_def)
  with st' acceptor_accepts_iff [of env st'] core_view_active [OF st'(3)] show ?thesis by auto
qed

text \<open>Alice is revoked while the server runs, and is still accepted.\<close>

theorem only_a_restart_changes_rights_witness:
  "\<exists>w1 a. beside_step sample_daemon sample_accept home stub_handlers (up alice_server alice_world) (up alice_server w1)
     \<and> disk sample_daemon home w1 = Inr (Some revoked_contents) \<and> active_pairing revoked_contents alice = None
     \<and> build_acceptor sample_daemon alice_server = Inr a
     \<and> verify_client_cert (e_x509 sample_daemon) (sc_verifier a) alice_cert = Inr ()"
proof -
  obtain w1 where r: "revoke_command sample_daemon home ''Alice'' alice_world = (Inr (), [RevokedLine ''Alice''], w1)"
    "phone_world revoked_contents w1"
    using alice_revoke by blast
  have "local_step sample_daemon sample_accept home stub_handlers (up alice_server alice_world)
      ((up alice_server alice_world)\<lparr>sy_world := w1\<rparr>)"
    by (rule local_step.revoking [where name = "''Alice''"]) (simp add: up_def r(1))
  then have b: "beside_step sample_daemon sample_accept home stub_handlers (up alice_server alice_world) (up alice_server w1)"
    by (intro beside_step.command) (simp_all add: up_def)
  obtain a where a: "build_acceptor sample_daemon alice_server = Inr a" using alice_acceptor by blast
  have "extract_spki_hash (e_x509 sample_daemon) alice_cert = Inr alice"
    by (simp add: extract_spki_hash_def compute_spki_hash_def sample_x509_def alice_cert_def alice_def sample_daemon_def)
  with only_a_restart_changes_rights [OF _ r_into_rtranclp [of "beside_step _ _ _ _", OF b]] a
  have "verify_client_cert (e_x509 sample_daemon) (sc_verifier a) alice_cert = Inr ()" by (simp add: up_def)
  moreover have "active_pairing revoked_contents alice = None"
    unfolding revoked_contents_def by (rule mark_revoked_inactive) (simp add: sample_contents_def)
  ultimately show ?thesis using a b phone_world_disk [OF r(2)] by blast
qed

end
