(* ===== verification/Command_Awaits.thy ===== *)
theory Command_Awaits
  imports Concurrent_Saves
begin

section \<open>The local commands cut at their awaits\<close>

text \<open>
  A local command (\<open>admin.rs\<close>) is a process of its own, and other processes run between any two of its
  accesses to the disk: it loads the keystore, changes its copy, writes the temporary file and renames
  it. \<open>cmd_step\<close> takes one of these segments.
\<close>

datatype errand =
    ListErrand
  | RevokeErrand string
  | ReauthErrand
  | UninstallErrand "SocketAddr \<Rightarrow> connect_result"

definition run_errand ::
    "daemon_env \<Rightarrow> Config \<Rightarrow> errand \<Rightarrow> 'o world \<Rightarrow> (anyhow_error + unit) \<times> admin_line list \<times> 'o world" where
  "run_errand env cfg e w =
     (case e of
        ListErrand \<Rightarrow> list_paired env cfg w
      | RevokeErrand name \<Rightarrow> revoke_command env cfg name w
      | ReauthErrand \<Rightarrow> reauth_now env cfg w
      | UninstallErrand connect \<Rightarrow> uninstall_revoke_broadcast env connect cfg w)"

datatype cmd_point =
    ToLoad
  | ToChange KeystoreContents
  | ToWrite path bytes KeystoreContents
  | ToRename path KeystoreContents
  | CmdEnded "anyhow_error + unit" "admin_line list"

text \<open>From the loaded contents to those it will save, if it saves any.\<close>

definition errand_change ::
    "errand \<Rightarrow> KeystoreContents \<Rightarrow> 'o world \<Rightarrow> (anyhow_error + KeystoreContents option) \<times> 'o world" where
  "errand_change e c w =
     (case e of
        ListErrand \<Rightarrow> (Inr None, w)
      | RevokeErrand name \<Rightarrow>
          if \<not> list_ex (\<lambda>p. phone_name p = name) (pairings c) then (Inl (Anyhow ''no pairing named''), w)
          else (Inr (Some (mark_revoked (\<lambda>p. phone_name p = name) c)), w)
      | ReauthErrand \<Rightarrow>
          if \<not> run_credential_prompt_stub then (Inl (Anyhow ''credential prompt cancelled''), w)
          else
            (case unix_ms_now w of (now, w1) \<Rightarrow> (Inr (Some (c\<lparr>ks_last_authenticated_at_unix_ms := now\<rparr>)), w1))
      | UninstallErrand connect \<Rightarrow> (Inr (Some (mark_revoked (\<lambda>p. True) c)), w))"

text \<open>
  What it does and prints at its end, of the contents it has saved (or, to list them, loaded): the
  uninstaller connects to the phones only now.
\<close>

definition errand_report :: "errand \<Rightarrow> KeystoreContents \<Rightarrow> admin_line list" where
  "errand_report e c =
     (case e of
        ListErrand \<Rightarrow> if pairings c = [] then [NoPairingsLine] else HeaderLine # map pairing_row (pairings c)
      | RevokeErrand name \<Rightarrow> [RevokedLine name]
      | ReauthErrand \<Rightarrow>
          [ReauthLine (ks_last_authenticated_at_unix_ms c) (interval_from_days (reauth_interval_days c))
             (expires_at_unix_ms (ks_last_authenticated_at_unix_ms c) (reauth_interval_days c))]
      | UninstallErrand connect \<Rightarrow>
          let targets = map (\<lambda>p. (phone_name p, last_known_address p)) (pairings c);
              (ls, unreachable, no_address) = broadcast connect targets 0 0
          in if targets = [] then [NothingToBroadcastLine]
             else MarkedLine (length targets) # ls
               @ [SummaryLine 0 unreachable no_address (length targets), NoteLine])"

definition cmd_step ::
    "daemon_env \<Rightarrow> Config \<Rightarrow> errand \<Rightarrow> cmd_point \<Rightarrow> 'o world \<Rightarrow> cmd_point \<times> 'o world" where
  "cmd_step env cfg e p w =
     (case p of
        ToLoad \<Rightarrow>
          (case require_keystore env cfg w of
             (Inl x, w1) \<Rightarrow> (CmdEnded (Inl x) [], w1)
           | (Inr c, w1) \<Rightarrow> (ToChange c, w1))
      | ToChange c \<Rightarrow>
          (case errand_change e c w of
             (Inl x, w1) \<Rightarrow> (CmdEnded (Inl x) [], w1)
           | (Inr None, w1) \<Rightarrow> (CmdEnded (Inr ()) (errand_report e c), w1)
           | (Inr (Some c'), w1) \<Rightarrow>
               (case save_begin (e_ks env) (keystore_path cfg) c' of
                  Inl x \<Rightarrow> (CmdEnded (Inl (FromKeystore x)) [], w1)
                | Inr (tmp, ciphertext) \<Rightarrow> (ToWrite tmp ciphertext c', w1)))
      | ToWrite tmp ciphertext c' \<Rightarrow>
          (case on_fs (fs_write tmp ciphertext) w of
             (Inl x, w1) \<Rightarrow> (CmdEnded (Inl (FromKeystore (Io x))) [], w1)
           | (Inr _, w1) \<Rightarrow> (ToRename tmp c', w1))
      | ToRename tmp c' \<Rightarrow>
          (case on_fs (fs_rename tmp (keystore_path cfg)) w of
             (Inl x, w1) \<Rightarrow> (CmdEnded (Inl (FromKeystore (Io x))) [], w1)
           | (Inr _, w1) \<Rightarrow> (CmdEnded (Inr ()) (errand_report e c'), w1))
      | CmdEnded r out \<Rightarrow> (CmdEnded r out, w))"

subsection \<open>A command left alone\<close>

definition cmd_run ::
    "daemon_env \<Rightarrow> Config \<Rightarrow> errand \<Rightarrow> nat \<Rightarrow> cmd_point \<times> 'o world \<Rightarrow> cmd_point \<times> 'o world" where
  "cmd_run env cfg e n = (\<lambda>(p, w). cmd_step env cfg e p w) ^^ n"

lemma cmd_run_2: "cmd_run env cfg e 2 (p, w) = (case cmd_step env cfg e p w of (p1, w1) \<Rightarrow> cmd_step env cfg e p1 w1)"
  by (simp add: cmd_run_def numeral_2_eq_2 split: prod.split)

lemma cmd_run_4: "cmd_run env cfg e 4 x = cmd_run env cfg e 2 (cmd_run env cfg e 2 x)"
  by (simp add: cmd_run_def numeral_eq_Suc)

lemma cmd_step_ended [simp]: "cmd_step env cfg e (CmdEnded r out) w = (CmdEnded r out, w)"
  by (simp add: cmd_step_def)

text \<open>The three segments of a save are \<open>keystore::save\<close>.\<close>

lemma cmd_run_save:
  "(case save_begin (e_ks env) (keystore_path cfg) c of
      Inl x \<Rightarrow> (CmdEnded (Inl (FromKeystore x)) [], w)
    | Inr (tmp, ciphertext) \<Rightarrow> cmd_run env cfg e 2 (ToWrite tmp ciphertext c, w))
   = (case ks_save_cmd env cfg c w of
        (Inl x, w') \<Rightarrow> (CmdEnded (Inl x) [], w')
      | (Inr _, w') \<Rightarrow> (CmdEnded (Inr ()) (errand_report e c), w'))"
proof (cases "save_begin (e_ks env) (keystore_path cfg) c")
  case (Inl x)
  then show ?thesis by (simp add: ks_save_cmd_def on_fs_def ks_save_begin map_err_def)
next
  case (Inr tx)
  obtain tmp x where tx: "tx = (tmp, x)" by fastforce
  obtain wr s1 where wr: "fs_write tmp x (w_fs w) = (wr, s1)" by fastforce
  obtain rr s2 where rr: "fs_rename tmp (keystore_path cfg) s1 = (rr, s2)" by fastforce
  from Inr tx wr rr show ?thesis
    by (cases wr; cases rr)
      (simp_all add: cmd_run_2 cmd_step_def ks_save_cmd_def on_fs_def ks_save_begin replace_file_def map_err_def)
qed

text \<open>Marking keeps names and addresses, so the report of the saved contents is that of the loaded ones.\<close>

lemma mark_revoked_targets [simp]:
  "map (\<lambda>p. (phone_name p, last_known_address p)) (pairings (mark_revoked hit c))
     = map (\<lambda>p. (phone_name p, last_known_address p)) (pairings c)"
  by (simp add: mark_revoked_def)

lemma run_errand_change:
  "run_errand env cfg e w =
     (case require_keystore env cfg w of
        (Inl x, w1) \<Rightarrow> (Inl x, [], w1)
      | (Inr c, w1) \<Rightarrow>
          (case errand_change e c w1 of
             (Inl x, w2) \<Rightarrow> (Inl x, [], w2)
           | (Inr None, w2) \<Rightarrow> (Inr (), errand_report e c, w2)
           | (Inr (Some c'), w2) \<Rightarrow>
               (case ks_save_cmd env cfg c' w2 of
                  (Inl x, w3) \<Rightarrow> (Inl x, [], w3)
                | (Inr _, w3) \<Rightarrow> (Inr (), errand_report e c', w3))))"
  by (cases e)
    (simp_all add: run_errand_def errand_change_def errand_report_def list_paired_def revoke_command_def reauth_now_def
      uninstall_revoke_broadcast_def Let_def split: prod.split sum.split)

text \<open>
  A local command that no other process overtakes is the function that models it: after four steps it has
  ended with the result, the output, the disk and the clock of that function, whatever fails.
\<close>

lemma cmd_run_errand:
  "cmd_run env cfg e 4 (ToLoad, w) = (case run_errand env cfg e w of (r, out, w') \<Rightarrow> (CmdEnded r out, w'))"
proof -
  have load: "cmd_run env cfg e 2 (ToLoad, w) =
      (case require_keystore env cfg w of
         (Inl x, w1) \<Rightarrow> (CmdEnded (Inl x) [], w1)
       | (Inr c, w1) \<Rightarrow> cmd_step env cfg e (ToChange c) w1)"
    by (simp add: cmd_run_2 split: prod.split sum.split) (simp add: cmd_step_def split: prod.split sum.split)
  have change: "cmd_run env cfg e 2 (cmd_step env cfg e (ToChange c) w1) =
      (case errand_change e c w1 of
         (Inl x, w2) \<Rightarrow> (CmdEnded (Inl x) [], w2)
       | (Inr None, w2) \<Rightarrow> (CmdEnded (Inr ()) (errand_report e c), w2)
       | (Inr (Some c'), w2) \<Rightarrow>
           (case ks_save_cmd env cfg c' w2 of
              (Inl x, w') \<Rightarrow> (CmdEnded (Inl x) [], w')
            | (Inr _, w') \<Rightarrow> (CmdEnded (Inr ()) (errand_report e c'), w')))" for c w1
  proof -
    have saved: "cmd_run env cfg e 2
        (case save_begin (e_ks env) (keystore_path cfg) c' of
           Inl x \<Rightarrow> (CmdEnded (Inl (FromKeystore x)) [], w2)
         | Inr (tmp, ciphertext) \<Rightarrow> (ToWrite tmp ciphertext c', w2)) =
           (case ks_save_cmd env cfg c' w2 of
              (Inl x, w') \<Rightarrow> (CmdEnded (Inl x) [], w')
            | (Inr _, w') \<Rightarrow> (CmdEnded (Inr ()) (errand_report e c'), w'))" for c' w2
      using cmd_run_save [where env = env and cfg = cfg and c = c' and w = w2 and e = e]
      by (simp add: cmd_run_2 [of _ _ _ "CmdEnded _ _"] split: sum.splits prod.splits)
    show ?thesis
      by (cases "errand_change e c w1")
        (auto simp: cmd_step_def [of env cfg e "ToChange c"] saved cmd_run_2 [of _ _ _ "CmdEnded _ _"]
          split: sum.split option.split)
  qed
  show ?thesis
    by (simp add: cmd_run_4 load change run_errand_change cmd_run_2 [of _ _ _ "CmdEnded _ _"] split: prod.split sum.split option.split)
qed

end
