(* ===== verification/Pairing_Awaits.thy ===== *)
theory Pairing_Awaits
  imports Command_Awaits
begin

section \<open>The pairing command cut at its awaits\<close>

text \<open>
  \<open>pair\<close> (\<open>pairing_flow.rs\<close>) loads the keystore once, at its start, and keeps its copy through a window of
  up to five minutes; a successful attempt adds the phone to this copy and saves it. Here the process
  is cut where others can run: at the directory, the load, the opening of the window, every event
  of the window, and the write and the rename of the save. \<open>pairing_advance\<close> takes one segment.
\<close>

record 'c window =
  wd_code :: u32
  wd_acceptor :: ServerConfig
  wd_handshake :: PairingHandshake
  wd_contents :: KeystoreContents
  wd_events :: "'c pair_event list"

text \<open>What is still to be acknowledged when the save of a pairing has ended.\<close>

record reply =
  rp_nonce :: u64
  rp_nonces :: NonceCounter
  rp_stream :: tls_stream

datatype 'c pair_point =
    PairDir
  | PairLoad
  | PairOpen KeystoreContents
  | PairWaiting "'c window"
  | PairWrite path bytes reply "'c window"
  | PairRename path reply "'c window"
  | PairEnded "(anyhow_error + unit) option" "u32 option"

text \<open>An attempt up to its save: it is over, or a pairing is to be added and saved.\<close>

datatype attempt = Over "anyhow_error + bool" | Adding PairingRecord reply

definition refuse_attempt :: "(anyhow_error + unit) \<times> tls_stream \<times> NonceCounter \<Rightarrow> attempt" where
  "refuse_attempt sent = (case sent of (Inl e, _, _) \<Rightarrow> Over (Inl e) | (Inr _, _, _) \<Rightarrow> Over (Inr False))"

definition attempt_begin ::
    "daemon_env \<Rightarrow> tls_stream \<Rightarrow> PairingHandshake \<Rightarrow> 'o world \<Rightarrow> attempt \<times> PairingHandshake \<times> 'o world" where
  "attempt_begin env t hs w =
     (case pair_peer_spki_from_tls env t of
        Inl e \<Rightarrow> (Over (Inl e), hs, w)
      | Inr peer_spki \<Rightarrow>
          (case read_one_envelope [] t of
             (Inl e, _, t1) \<Rightarrow> (Over (Inl e), hs, w)
           | (Inr envelope, _, t1) \<Rightarrow>
               let send_nonces = counter_new in
               (case decode_client_frame (e_client_codec env) (payload envelope) of
                  Inl e \<Rightarrow> (refuse_attempt (send_error env t1 send_nonces (nonce envelope) (to_wire_code e)), hs, w)
                | Inr (Pair name pairing_code) \<Rightarrow>
                    (case unix_ms_now w of
                       (now, w1) \<Rightarrow>
                         (case accept_pair hs now pairing_code name peer_spki of
                            (Succeeded r, hs1) \<Rightarrow>
                              (Adding r \<lparr>rp_nonce = nonce envelope, rp_nonces = send_nonces, rp_stream = t1\<rparr>, hs1, w1)
                          | (Rejected _, hs1) \<Rightarrow>
                              (refuse_attempt (send_error env t1 send_nonces (nonce envelope) NotPaired), hs1, w1)
                          | (_, hs1) \<Rightarrow> (Over (Inl (Anyhow ''unexpected pairing transition'')), hs1, w1)))
                | Inr _ \<Rightarrow> (refuse_attempt (send_error env t1 send_nonces (nonce envelope) Unsupported), hs, w))))"

text \<open>Back in the loop after an attempt that did not pair.\<close>

definition after_attempt :: "'c window \<Rightarrow> 'c pair_point" where
  "after_attempt v =
     (if state (wd_handshake v) = Idle
      then PairEnded (Some (Inl (Anyhow ''pairing window closed (timeout or attempt budget)''))) (Some (wd_code v))
      else PairWaiting v)"

text \<open>The save begins: the pairing is in the copy, whatever becomes of the file.\<close>

definition save_pairing ::
    "daemon_env \<Rightarrow> Config \<Rightarrow> PairingRecord \<Rightarrow> reply \<Rightarrow> 'c window \<Rightarrow> 'c pair_point" where
  "save_pairing env cfg r rp v =
     (let v' = v\<lparr>wd_contents := add_pairing (from_core r) (wd_contents v)\<rparr> in
      case save_begin (e_ks env) (keystore_path cfg) (wd_contents v') of
        Inl _ \<Rightarrow> after_attempt v'
      | Inr (tmp, ciphertext) \<Rightarrow> PairWrite tmp ciphertext rp v')"

text \<open>One event of the window.\<close>

definition window_event ::
    "daemon_env \<Rightarrow> 'c tls_accept \<Rightarrow> Config \<Rightarrow> 'c window \<Rightarrow> 'o world \<Rightarrow> 'c pair_point \<times> 'o world" where
  "window_event env tls_accept cfg v w =
     (case unix_ms_now w of (now, w1) \<Rightarrow>
      (case tick (wd_handshake v) now of (transition, hs1) \<Rightarrow>
       if transition = PairingTransition.Expired
       then (PairEnded (Some (Inl (Anyhow ''pairing window expired''))) (Some (wd_code v)), w1)
       else
         (case wd_events v of
            [] \<Rightarrow> (PairEnded None (Some (wd_code v)), w1)
          | DeadlineElapsed # _ \<Rightarrow>
              (PairEnded (Some (Inl (Anyhow ''pairing window expired''))) (Some (wd_code v)), w1)
          | PairAccepted (Inl e) # _ \<Rightarrow>
              (PairEnded (Some (Inl (Context ''pairing accept'' (FromIo e)))) (Some (wd_code v)), w1)
          | PairAccepted (Inr (tcp, peer)) # rest \<Rightarrow>
              let v1 = (\<lambda>hs. v\<lparr>wd_handshake := hs, wd_events := rest\<rparr>) in
              (case tls_accept (wd_acceptor v) tcp of
                 Inl e \<Rightarrow> (PairWaiting (v1 hs1), w1)
               | Inr t \<Rightarrow>
                   (case attempt_begin env t hs1 w1 of
                      (Over _, hs2, w2) \<Rightarrow> (after_attempt (v1 hs2), w2)
                    | (Adding r rp, hs2, w2) \<Rightarrow> (save_pairing env cfg r rp (v1 hs2), w2))))))"

definition pairing_open ::
    "daemon_env \<Rightarrow> (SocketAddr \<Rightarrow> io_error + 'c pair_listener) \<Rightarrow> Config \<Rightarrow> KeystoreContents \<Rightarrow> 'o world
       \<Rightarrow> 'c pair_point \<times> 'o world" where
  "pairing_open env bind cfg c w =
     (case map_err (\<lambda>e. Context ''parsing daemon device identity'' (FromCrypto e))
             (device_from_bytes (e_rcgen env) (e_x509 env) (device_identity_bytes c)) of
        Inl e \<Rightarrow> (PairEnded (Some (Inl e)) None, w)
      | Inr i \<Rightarrow>
          (case open_window env w of
             None \<Rightarrow> (PairEnded None None, w)
           | Some (Inl e, _, w1) \<Rightarrow> (PairEnded (Some (Inl e)) None, w1)
           | Some (Inr code, hs, w1) \<Rightarrow>
               (case map_err FromCrypto (server_config_for_pairing (e_rustls env) i (e_provider env)) of
                  Inl e \<Rightarrow> (PairEnded (Some (Inl e)) (Some code), w1)
                | Inr acceptor \<Rightarrow>
                    (case bind (bind_addr cfg) of
                       Inl e \<Rightarrow> (PairEnded (Some (Inl (Context ''binding pairing listener'' (FromIo e)))) (Some code), w1)
                     | Inr l \<Rightarrow>
                         (case pl_local_addr l of
                            Inl e \<Rightarrow> (PairEnded (Some (Inl (FromIo e))) (Some code), w1)
                          | Inr _ \<Rightarrow>
                              (PairWaiting \<lparr>wd_code = code, wd_acceptor = acceptor, wd_handshake = hs,
                                 wd_contents = c, wd_events = pl_events l\<rparr>, w1))))))"

definition pairing_advance ::
    "daemon_env \<Rightarrow> 'c tls_accept \<Rightarrow> (SocketAddr \<Rightarrow> io_error + 'c pair_listener) \<Rightarrow> Config \<Rightarrow> 'c pair_point
       \<Rightarrow> 'o world \<Rightarrow> 'c pair_point \<times> 'o world" where
  "pairing_advance env tls_accept bind cfg p w =
     (case p of
        PairDir \<Rightarrow>
          (case on_fs (ensure_data_dir (data_dir cfg)) w of
             (Inl e, w1) \<Rightarrow> (PairEnded (Some (Inl (FromKeystore e))) None, w1)
           | (Inr _, w1) \<Rightarrow> (PairLoad, w1))
      | PairLoad \<Rightarrow>
          (case bootstrap env cfg w of
             (Inl e, w1) \<Rightarrow> (PairEnded (Some (Inl e)) None, w1)
           | (Inr c, w1) \<Rightarrow> (PairOpen c, w1))
      | PairOpen c \<Rightarrow> pairing_open env bind cfg c w
      | PairWaiting v \<Rightarrow> window_event env tls_accept cfg v w
      | PairWrite tmp ciphertext rp v \<Rightarrow>
          (case on_fs (fs_write tmp ciphertext) w of
             (Inl e, w1) \<Rightarrow> (after_attempt v, w1)
           | (Inr _, w1) \<Rightarrow> (PairRename tmp rp v, w1))
      | PairRename tmp rp v \<Rightarrow>
          (case on_fs (fs_rename tmp (keystore_path cfg)) w of
             (Inl e, w1) \<Rightarrow> (after_attempt v, w1)
           | (Inr _, w1) \<Rightarrow>
               (case send_ack env (rp_stream rp) (rp_nonces rp) (rp_nonce rp) of
                  (Inl e, _, _) \<Rightarrow> (after_attempt v, w1)
                | (Inr _, _, _) \<Rightarrow> (PairEnded (Some (Inr ())) (Some (wd_code v)), w1)))
      | PairEnded r code \<Rightarrow> (PairEnded r code, w))"

subsection \<open>A pairing command left alone\<close>

text \<open>Every segment takes an event of the window or comes closer to the next.\<close>

primrec pair_phase :: "'c pair_point \<Rightarrow> nat" where
  "pair_phase PairDir = 3"
| "pair_phase PairLoad = 2"
| "pair_phase (PairOpen c) = 1"
| "pair_phase (PairWaiting v) = 0"
| "pair_phase (PairWrite tmp x rp v) = 0"
| "pair_phase (PairRename tmp rp v) = 0"
| "pair_phase (PairEnded r c) = 0"

fun events_left :: "'c pair_point \<Rightarrow> nat" where
  "events_left (PairWaiting v) = 3 * length (wd_events v) + 1"
| "events_left (PairWrite tmp x rp v) = 3 * length (wd_events v) + 3"
| "events_left (PairRename tmp rp v) = 3 * length (wd_events v) + 2"
| "events_left _ = 0"

lemma after_attempt_left [simp]:
  "pair_phase (after_attempt v) = 0" "events_left (after_attempt v) \<le> 3 * length (wd_events v) + 1"
  by (simp_all add: after_attempt_def)

lemma save_pairing_left [simp]:
  "pair_phase (save_pairing env cfg r rp v) = 0"
  "events_left (save_pairing env cfg r rp v) \<le> 3 * length (wd_events v) + 3"
  by (auto simp: save_pairing_def Let_def after_attempt_def split: sum.split)

lemma window_event_left:
  "window_event env tls_accept cfg v w = (p', w') \<Longrightarrow>
     pair_phase p' = 0 \<and> events_left p' < 3 * length (wd_events v) + 1"
  by (auto simp: window_event_def Let_def after_attempt_def save_pairing_def
      split: prod.splits if_splits list.splits pair_event.splits sum.splits attempt.splits)

lemma pairing_open_phase: "pairing_open env bind cfg c w = (p', w') \<Longrightarrow> pair_phase p' = 0"
  by (auto simp: pairing_open_def split: sum.splits option.splits prod.splits)

lemma pairing_advance_left:
  assumes "pairing_advance env tls_accept bind cfg p w = (p', w')" "\<And>r code. p \<noteq> PairEnded r code"
  shows "pair_phase p' < pair_phase p \<or> pair_phase p' = pair_phase p \<and> events_left p' < events_left p"
proof (cases p)
  case (PairWaiting v)
  with assms(1) window_event_left [of env tls_accept cfg v w p' w'] show ?thesis by (simp add: pairing_advance_def)
next
  case (PairOpen c)
  with assms(1) pairing_open_phase [of env bind cfg c w p' w'] show ?thesis by (simp add: pairing_advance_def)
next
  case (PairWrite tmp x rp v)
  with assms(1) show ?thesis
    by (auto simp: pairing_advance_def after_attempt_def split: prod.splits sum.splits)
next
  case (PairRename tmp rp v)
  with assms(1) show ?thesis
    by (auto simp: pairing_advance_def after_attempt_def split: prod.splits sum.splits)
qed (use assms in \<open>auto simp: pairing_advance_def split: prod.splits sum.splits\<close>)

definition pair_ended :: "'c pair_point \<Rightarrow> bool" where
  "pair_ended p \<longleftrightarrow> (case p of PairEnded _ _ \<Rightarrow> True | _ \<Rightarrow> False)"

function pairing_run ::
    "daemon_env \<Rightarrow> 'c tls_accept \<Rightarrow> (SocketAddr \<Rightarrow> io_error + 'c pair_listener) \<Rightarrow> Config \<Rightarrow> 'c pair_point
       \<Rightarrow> 'o world \<Rightarrow> (anyhow_error + unit) option \<times> u32 option \<times> 'o world" where
  "pairing_run env tls_accept bind cfg p w =
     (case p of
        PairEnded r code \<Rightarrow> (r, code, w)
      | _ \<Rightarrow> (case pairing_advance env tls_accept bind cfg p w of
                (p', w') \<Rightarrow> pairing_run env tls_accept bind cfg p' w'))"
  by pat_completeness auto
termination
  by (relation "measures [\<lambda>(_, _, _, _, p, _). pair_phase p, \<lambda>(_, _, _, _, p, _). events_left p]")
    (rule wf_measures, (drule pairing_advance_left [OF sym], force, force)+)

declare pairing_run.simps [simp del]

lemma pairing_run_ended [simp]: "pairing_run env tls_accept bind cfg (PairEnded r code) w = (r, code, w)"
  by (simp add: pairing_run.simps [of _ _ _ _ "PairEnded r code"])

lemma pairing_run_on:
  "\<not> pair_ended p \<Longrightarrow> pairing_run env tls_accept bind cfg p w =
     (case pairing_advance env tls_accept bind cfg p w of (p', w') \<Rightarrow> pairing_run env tls_accept bind cfg p' w')"
  by (subst pairing_run.simps) (cases p; simp add: pair_ended_def)

lemma not_pair_ended [simp]:
  "\<not> pair_ended PairDir" "\<not> pair_ended PairLoad" "\<not> pair_ended (PairOpen c)" "\<not> pair_ended (PairWaiting v)"
  "\<not> pair_ended (PairWrite tmp x rp v)" "\<not> pair_ended (PairRename tmp rp v)" "pair_ended (PairEnded r code)"
  by (simp_all add: pair_ended_def)

subsection \<open>The segments make up the command\<close>

lemma attempt_over:
  assumes "attempt_begin env t (handshake ps) (p_world ps) = (Over r, hs, w)"
  shows "(\<exists>t'. handle_pair_attempt env cfg t ps = (r, t', ps\<lparr>handshake := hs, p_world := w\<rparr>)) \<and> r \<noteq> Inr True"
proof (cases "pair_peer_spki_from_tls env t")
  case (Inl e)
  with assms show ?thesis by (auto simp: attempt_begin_def handle_pair_attempt_def)
next
  case h: (Inr h)
  obtain x buf t1 where rd: "read_one_envelope [] t = (x, buf, t1)" by (cases "read_one_envelope [] t")
  show ?thesis
  proof (cases x)
    case (Inl e)
    with assms h rd show ?thesis by (auto simp: attempt_begin_def handle_pair_attempt_def)
  next
    case x: (Inr e)
    show ?thesis
    proof (cases "\<exists>name code. decode_client_frame (e_client_codec env) (payload e) = Inr (Pair name code)")
      case True
      then obtain name code where f: "decode_client_frame (e_client_codec env) (payload e) = Inr (Pair name code)" by blast
      obtain now w1 where now: "unix_ms_now (p_world ps) = (now, w1)" by fastforce
      obtain tr hs1 where tr: "accept_pair (handshake ps) now code name h = (tr, hs1)" by fastforce
      obtain q t2 ns where q: "send_error env t1 counter_new (nonce e) NotPaired = (q, t2, ns)"
        by (cases "send_error env t1 counter_new (nonce e) NotPaired")
      from assms h rd x f now tr q show ?thesis
        by (cases tr; cases q)
          (auto simp: attempt_begin_def handle_pair_attempt_def finish_attempt_def refuse_attempt_def)
    next
      case False
      define code where "code = (case decode_client_frame (e_client_codec env) (payload e) of
        Inl x \<Rightarrow> to_wire_code x | Inr _ \<Rightarrow> Unsupported)"
      obtain q t2 ns where q: "send_error env t1 counter_new (nonce e) code = (q, t2, ns)"
        by (cases "send_error env t1 counter_new (nonce e) code")
      from assms h rd x False q show ?thesis
        by (cases q) (auto simp: attempt_begin_def handle_pair_attempt_def refuse_attempt_def code_def
            split: sum.splits ClientFrame.splits)
    qed
  qed
qed

lemma attempt_adding:
  assumes "attempt_begin env t (handshake ps) (p_world ps) = (Adding r rp, hs, w)"
  shows "handle_pair_attempt env cfg t ps =
     finish_attempt env cfg (rp_nonce rp) (Succeeded r) (rp_nonces rp) (rp_stream rp)
       (ps\<lparr>handshake := hs, p_world := w\<rparr>)"
  using assms
  by (auto simp: handle_pair_attempt_def attempt_begin_def refuse_attempt_def Let_def
      split: sum.split_asm prod.split_asm ClientFrame.split_asm PairingTransition.split_asm)

text \<open>What the loop does with the outcome of an attempt.\<close>

definition loop_on ::
    "daemon_env \<Rightarrow> 'c tls_accept \<Rightarrow> ServerConfig \<Rightarrow> Config \<Rightarrow> 'c pair_event list
       \<Rightarrow> (anyhow_error + bool) \<times> tls_stream \<times> 'o pair_state \<Rightarrow> (anyhow_error + unit) option \<times> 'o pair_state" where
  "loop_on env tls_accept acceptor cfg rest x =
     (case x of
        (Inr True, _, ps2) \<Rightarrow> (Some (Inr ()), ps2)
      | (_, _, ps2) \<Rightarrow>
          if state (handshake ps2) = Idle
          then (Some (Inl (Anyhow ''pairing window closed (timeout or attempt budget)'')), ps2)
          else pair_loop env tls_accept acceptor cfg rest ps2)"

text \<open>The state of the loop in a window, and what a run from the window gives.\<close>

definition window_state :: "'c window \<Rightarrow> 'o world \<Rightarrow> 'o pair_state" where
  "window_state v w = \<lparr>handshake = wd_handshake v, p_contents = wd_contents v, p_world = w\<rparr>"

definition loop_result ::
    "u32 \<Rightarrow> (anyhow_error + unit) option \<times> 'o pair_state \<Rightarrow> (anyhow_error + unit) option \<times> u32 option \<times> 'o world" where
  "loop_result code x = (case x of (r, ps) \<Rightarrow> (r, Some code, p_world ps))"

lemma pairing_run_save:
  fixes w :: "'o world"
  assumes IH: "\<And>w :: 'o world. pairing_run env tls_accept bind cfg (PairWaiting (v\<lparr>wd_contents := c'\<rparr>)) w =
      loop_result (wd_code v) (pair_loop env tls_accept (wd_acceptor v) cfg (wd_events v) (window_state (v\<lparr>wd_contents := c'\<rparr>) w))"
    and c': "c' = add_pairing (from_core r) (wd_contents v)"
  shows "pairing_run env tls_accept bind cfg (save_pairing env cfg r rp v) w =
      loop_result (wd_code v) (loop_on env tls_accept (wd_acceptor v) cfg (wd_events v)
        (finish_attempt env cfg (rp_nonce rp) (Succeeded r) (rp_nonces rp) (rp_stream rp) (window_state v w)))"
proof -
  let ?v = "v\<lparr>wd_contents := c'\<rparr>"
  have failed: "pairing_run env tls_accept bind cfg (after_attempt ?v) w' =
      loop_result (wd_code v) (loop_on env tls_accept (wd_acceptor v) cfg (wd_events v) (Inl e, t', window_state ?v w'))" for e t' and w' :: "'o world"
    using IH [of w'] by (simp add: after_attempt_def loop_on_def loop_result_def window_state_def split: bool.split)
  have renamed: "pairing_run env tls_accept bind cfg (PairRename tmp rp ?v) w' =
      (case on_fs (fs_rename tmp (keystore_path cfg)) w' of
         (Inl e, w1) \<Rightarrow> pairing_run env tls_accept bind cfg (after_attempt ?v) w1
       | (Inr _, w1) \<Rightarrow>
           (case send_ack env (rp_stream rp) (rp_nonces rp) (rp_nonce rp) of
              (Inl e, _, _) \<Rightarrow> pairing_run env tls_accept bind cfg (after_attempt ?v) w1
            | (Inr _, _, _) \<Rightarrow> (Some (Inr ()), Some (wd_code v), w1)))" for tmp and w' :: "'o world"
    by (simp add: pairing_run_on pairing_advance_def split: prod.split sum.split)
  have written: "pairing_run env tls_accept bind cfg (PairWrite tmp x rp ?v) w' =
      (case on_fs (fs_write tmp x) w' of
         (Inl e, w1) \<Rightarrow> pairing_run env tls_accept bind cfg (after_attempt ?v) w1
       | (Inr _, w1) \<Rightarrow> pairing_run env tls_accept bind cfg (PairRename tmp rp ?v) w1)" for tmp x and w' :: "'o world"
    by (simp add: pairing_run_on [of "PairWrite _ _ _ _"] pairing_advance_def split: prod.split sum.split)
  have paired: "loop_result code (loop_on env tls_accept acc cfg evs (Inr True, t, window_state ?v w'))
      = (Some (Inr ()), Some code, w')" for code acc evs t and w' :: "'o world"
    by (simp add: loop_on_def loop_result_def window_state_def)
  have finish: "finish_attempt env cfg n (Succeeded r) ns t (window_state v w) =
      (case on_fs (ks_save (e_ks env) (keystore_path cfg) c') w of
         (Inl e, w') \<Rightarrow> (Inl (FromKeystore e), t, window_state ?v w')
       | (Inr _, w') \<Rightarrow>
           (case send_ack env t ns n of
              (Inl e, t', _) \<Rightarrow> (Inl e, t', window_state ?v w')
            | (Inr _, t', _) \<Rightarrow> (Inr True, tls_shutdown t', window_state ?v w')))" for n ns t
    by (simp add: finish_attempt_def window_state_def c' Let_def split: prod.split sum.split)
  show ?thesis
  proof (cases "save_begin (e_ks env) (keystore_path cfg) c'")
    case (Inl e)
    then have "save_pairing env cfg r rp v = after_attempt ?v" by (simp add: save_pairing_def c' Let_def)
    then show ?thesis
      using failed [of w] Inl by (simp add: finish on_fs_def ks_save_begin)
  next
    case (Inr tx)
    obtain tmp x where tx: "tx = (tmp, x)" by fastforce
    obtain wr s1 where wr: "fs_write tmp x (w_fs w) = (wr, s1)" by fastforce
    obtain rr s2 where rr: "fs_rename tmp (keystore_path cfg) s1 = (rr, s2)" by fastforce
    obtain a t2 ns where a: "send_ack env (rp_stream rp) (rp_nonces rp) (rp_nonce rp) = (a, t2, ns)"
      by (cases "send_ack env (rp_stream rp) (rp_nonces rp) (rp_nonce rp)")
    have sv: "save_pairing env cfg r rp v = PairWrite tmp x rp ?v"
      using Inr tx by (simp add: save_pairing_def c' Let_def)
    from Inr tx wr rr a show ?thesis
      unfolding sv written
      by (cases wr; cases rr; cases a)
        (simp_all add: renamed failed finish on_fs_def ks_save_begin replace_file_def
          paired)
  qed
qed

lemma pairing_run_window:
  fixes w :: "'o world"
  shows "pairing_run env tls_accept bind cfg (PairWaiting v) w =
     loop_result (wd_code v) (pair_loop env tls_accept (wd_acceptor v) cfg (wd_events v) (window_state v w))"
proof (induction "length (wd_events v)" arbitrary: v w rule: less_induct)
  case less
  obtain now w1 where n: "unix_ms_now w = (now, w1)" by fastforce
  obtain tr hs1 where tk: "tick (wd_handshake v) now = (tr, hs1)" by fastforce
  let ?ps1 = "\<lparr>handshake = hs1, p_contents = wd_contents v, p_world = w1\<rparr>"
  have run: "pairing_run env tls_accept bind cfg (PairWaiting v) w =
      (case window_event env tls_accept cfg v w of (p', w') \<Rightarrow> pairing_run env tls_accept bind cfg p' w')"
    by (simp add: pairing_run_on pairing_advance_def)
  note loop = pair_loop.simps [of env tls_accept "wd_acceptor v" cfg _
      "\<lparr>handshake = wd_handshake v, p_contents = wd_contents v, p_world = w\<rparr>"]
  note step = run loop window_event_def n tk window_state_def loop_result_def
  show ?case
  proof (cases "tr = PairingTransition.Expired")
    case True
    then show ?thesis by (simp add: step)
  next
    case live: False
    show ?thesis
    proof (cases "wd_events v" rule: pair_events_cases)
      case (connected tcp peer rest)
      have IH: "pairing_run env tls_accept bind cfg (PairWaiting u) w' =
          loop_result (wd_code u) (pair_loop env tls_accept (wd_acceptor u) cfg rest (window_state u w'))"
        if "wd_events u = rest" for u and w' :: "'o world"
        using less [of u w'] connected that by simp
      show ?thesis
      proof (cases "tls_accept (wd_acceptor v) tcp")
        case (Inl e)
        with live connected IH [of "v\<lparr>wd_handshake := hs1, wd_events := rest\<rparr>" w1] show ?thesis by (simp add: step)
      next
        case (Inr t)
        obtain att hs2 w2 where att: "attempt_begin env t hs1 w1 = (att, hs2, w2)"
          by (cases "attempt_begin env t hs1 w1")
        let ?v2 = "v\<lparr>wd_handshake := hs2, wd_events := rest\<rparr>"
        have after: "pair_loop env tls_accept (wd_acceptor v) cfg (wd_events v) (window_state v w) =
            loop_on env tls_accept (wd_acceptor v) cfg rest (handle_pair_attempt env cfg t ?ps1)"
          using live connected Inr
          by (auto simp: loop n tk window_state_def Let_def loop_on_def split: prod.split sum.split bool.split)
        show ?thesis
        proof (cases att)
          case (Over r)
          have ev: "window_event env tls_accept cfg v w = (after_attempt ?v2, w2)"
            using live connected Inr att Over by (simp add: window_event_def n tk)
          from attempt_over [of env t ?ps1 r hs2 w2 cfg] att Over obtain t' where
            h: "handle_pair_attempt env cfg t ?ps1 = (r, t', window_state ?v2 w2)" "r \<noteq> Inr True"
            by (auto simp: window_state_def)
          then show ?thesis
            using IH [of ?v2 w2]
            unfolding run after
            by (cases r) (auto simp: ev loop_on_def after_attempt_def loop_result_def window_state_def split: bool.split)
        next
          case (Adding r rp)
          have ev: "window_event env tls_accept cfg v w = (save_pairing env cfg r rp ?v2, w2)"
            using live connected Inr att Adding by (simp add: window_event_def n tk)
          have h: "handle_pair_attempt env cfg t ?ps1 =
              finish_attempt env cfg (rp_nonce rp) (Succeeded r) (rp_nonces rp) (rp_stream rp) (window_state ?v2 w2)"
            using attempt_adding [of env t ?ps1 r rp hs2 w2 cfg] att Adding by (simp add: window_state_def)
          have "pairing_run env tls_accept bind cfg (save_pairing env cfg r rp ?v2) w2 =
              loop_result (wd_code v) (loop_on env tls_accept (wd_acceptor v) cfg rest
                (finish_attempt env cfg (rp_nonce rp) (Succeeded r) (rp_nonces rp) (rp_stream rp) (window_state ?v2 w2)))"
            by (intro pairing_run_save [OF _ refl, where v = ?v2, simplified]) (simp add: IH window_state_def)
          then show ?thesis by (simp add: run ev after h)
        qed
      qed
    qed (use live in \<open>simp_all add: step\<close>)
  qed
qed

text \<open>The command that no other process overtakes is the function that models it.\<close>

lemma pairing_run_command:
  "pairing_run env tls_accept bind cfg PairDir w = pair_run_command env tls_accept bind cfg w"
proof -
  have open_run: "pairing_run env tls_accept bind cfg (PairOpen c) w =
      (case pairing_open env bind cfg c w of (p, w') \<Rightarrow> pairing_run env tls_accept bind cfg p w')" for c w
    by (simp add: pairing_run_on pairing_advance_def)
  have load_run: "pairing_run env tls_accept bind cfg PairLoad w =
      (case bootstrap env cfg w of
         (Inl e, w1) \<Rightarrow> (Some (Inl e), None, w1)
       | (Inr c, w1) \<Rightarrow> pairing_run env tls_accept bind cfg (PairOpen c) w1)" for w
    by (simp add: pairing_run_on [of PairLoad] pairing_advance_def split: prod.split sum.split)
  show ?thesis
    by (simp add: pairing_run_on [of PairDir] pairing_advance_def load_run open_run pair_run_command_def pairing_open_def
        pairing_run_window loop_result_def window_state_def split: prod.split sum.split option.split)
qed

end
