(* ===== verification/Process_System.thy ===== *)
theory Process_System
  imports Pairing_Awaits System_Wellformed
begin

section \<open>Command processes on one disk\<close>

text \<open>
  Every local command is a process of its own (\<open>main.rs\<close>), with a process id no other live process has,
  and nothing keeps two of them apart: there is no lock on the keystore. Here any number of them runs at
  once, cut at their awaits; each can start, take its next segment, fail, or be killed at any point.
  What they share is the disk. The temporary file of a save has the process id in its name
  (\<open>keystore/mod.rs\<close>), so the saves of two processes do not share it.
\<close>

definition with_pid :: "nat \<Rightarrow> daemon_env \<Rightarrow> daemon_env" where
  "with_pid pid env = env\<lparr>e_ks := (e_ks env)\<lparr>ke_pid := pid\<rparr>\<rparr>"

datatype 'c proc =
    LocalCommand errand cmd_point
  | PairCommand "SocketAddr \<Rightarrow> io_error + 'c pair_listener" "'c pair_point"

definition proc_begins :: "'c proc \<Rightarrow> bool" where
  "proc_begins p = (case p of LocalCommand e q \<Rightarrow> q = ToLoad | PairCommand bind q \<Rightarrow> q = PairDir)"

definition proc_advance ::
    "daemon_env \<Rightarrow> 'c tls_accept \<Rightarrow> Config \<Rightarrow> 'c proc \<Rightarrow> 'o world \<Rightarrow> 'c proc \<times> 'o world" where
  "proc_advance env tls_accept cfg p w =
     (case p of
        LocalCommand e q \<Rightarrow> (case cmd_step env cfg e q w of (q', w') \<Rightarrow> (LocalCommand e q', w'))
      | PairCommand bind q \<Rightarrow>
          (case pairing_advance env tls_accept bind cfg q w of (q', w') \<Rightarrow> (PairCommand bind q', w')))"

type_synonym ('o, 'c) processes = "(nat \<times> 'c proc) list \<times> 'o world"

inductive proc_step ::
    "daemon_env \<Rightarrow> 'c tls_accept \<Rightarrow> Config \<Rightarrow> ('o, 'c) processes \<Rightarrow> ('o, 'c) processes \<Rightarrow> bool"
  for env tls_accept cfg where
  spawned: "proc_begins p \<Longrightarrow> pid \<notin> set (map fst ps) \<Longrightarrow> proc_step env tls_accept cfg (ps, w) (ps @ [(pid, p)], w)"
| moved: "proc_advance (with_pid pid env) tls_accept cfg p w = (p', w') \<Longrightarrow>
    proc_step env tls_accept cfg (xs @ (pid, p) # ys, w) (xs @ (pid, p') # ys, w')"
| left: "proc_step env tls_accept cfg (xs @ (pid, p) # ys, w) (xs @ ys, w)"

subsection \<open>Process ids and temporary files\<close>

definition own_temp :: "Config \<Rightarrow> nat \<Rightarrow> path" where
  "own_temp cfg pid = join (data_dir cfg) (tmp_name pid)"

lemma own_temp_inj [simp]: "own_temp cfg a = own_temp cfg b \<longleftrightarrow> a = b"
  by (simp add: own_temp_def join_def tmp_name_def)

lemma own_temp_keystore [simp]: "own_temp cfg a \<noteq> keystore_path cfg" "keystore_path cfg \<noteq> own_temp cfg a"
  by (simp_all add: own_temp_def join_def tmp_name_def keystore_path_def)

lemma temp_of_pid: "temp_of (e_ks (with_pid pid env)) (keystore_path cfg) = own_temp cfg pid"
  by (simp add: temp_of_def with_pid_def own_temp_def keystore_path_def join_def)

lemma with_pid_fields [simp]:
  "e_rcgen (with_pid pid env) = e_rcgen env" "e_x509 (with_pid pid env) = e_x509 env"
  "ke_platform (e_ks (with_pid pid env)) = ke_platform (e_ks env)"
  "contents_codec (e_ks (with_pid pid env)) = contents_codec (e_ks env)"
  "contents_v1_codec (e_ks (with_pid pid env)) = contents_v1_codec (e_ks env)"
  "e_client_codec (with_pid pid env) = e_client_codec env"
  by (simp_all add: with_pid_def)

lemma disk_pid [simp]: "disk (with_pid pid env) cfg w = disk env cfg w"
  by (simp add: disk_def ks_stored_def with_pid_def parse_plain_def split: option.split sum.split list.split)

lemma save_begin_pid:
  "save_begin (e_ks (with_pid pid env)) (keystore_path cfg) c = Inr (tmp, x) \<Longrightarrow> tmp = own_temp cfg pid"
  "save_begin (e_ks (with_pid pid env)) (keystore_path cfg) c = Inr (tmp, x) \<Longrightarrow>
     \<exists>t. save_begin (e_ks env) (keystore_path cfg) c = Inr (t, x)"
  "save_begin (e_ks env) (keystore_path cfg) c = Inr (t, x) \<Longrightarrow>
     \<exists>tmp. save_begin (e_ks (with_pid pid env)) (keystore_path cfg) c = Inr (tmp, x)"
  using save_begin_temp [of "e_ks (with_pid pid env)" "keystore_path cfg" c tmp x] temp_of_pid [of pid env cfg]
  by (auto simp: save_begin_def map_err_def split: sum.splits option.splits)

lemma offers_pid [simp]: "offers (with_pid pid env) = offers env"
  by (intro ext) (simp add: offers_def first_frame_def pair_peer_spki_from_tls_def cong: option.case_cong sum.case_cong)

lemma bootstrap_reads:
  assumes "bootstrap (with_pid pid env) cfg w = (r, w')"
  shows "files (w_fs w') = files (w_fs w)"
    and "r = Inr c \<Longrightarrow> disk env cfg w = Inr (Some c) \<or> disk env cfg w = Inr None
       \<and> (\<exists>i. device_generate (e_rcgen env) (e_x509 env) = Inr i \<and> c = from_identity (device_to_bytes i))"
proof -
  obtain x w1 where l: "on_fs (ks_load (e_ks (with_pid pid env)) (keystore_path cfg)) w = (x, w1)" by fastforce
  have x: "(x = disk (with_pid pid env) cfg w \<or> (\<exists>e. x = Inl e)) \<and> files (w_fs w1) = files (w_fs w)"
    using on_fs_pair [OF l] ks_load_reads [of "e_ks (with_pid pid env)" "keystore_path cfg" "w_fs w"]
    by (auto simp: disk_def)
  from assms l have "w' = w1" by (auto simp: bootstrap_def split: sum.splits option.splits)
  with x show "files (w_fs w') = files (w_fs w)" by simp
  show "r = Inr c \<Longrightarrow> disk env cfg w = Inr (Some c) \<or> disk env cfg w = Inr None
       \<and> (\<exists>i. device_generate (e_rcgen env) (e_x509 env) = Inr i \<and> c = from_identity (device_to_bytes i))"
    using assms l x by (auto simp: bootstrap_def map_err_def split: sum.splits option.splits)
qed

lemma require_keystore_reads:
  assumes "require_keystore (with_pid pid env) cfg w = (r, w')"
  shows "files (w_fs w') = files (w_fs w)" "r = Inr c \<Longrightarrow> disk env cfg w = Inr (Some c)"
proof -
  have "w' = snd (on_fs (ks_load (e_ks (with_pid pid env)) (keystore_path cfg)) w)"
    using assms by (auto simp: require_keystore_def split: prod.splits sum.splits option.splits)
  then show "files (w_fs w') = files (w_fs w)" by simp
  show "r = Inr c \<Longrightarrow> disk env cfg w = Inr (Some c)" using require_keystore_disk [OF assms] by simp
qed

subsection \<open>The code of a window\<close>

text \<open>The window that a pairing command has open, and that its handshake waits for the printed code.\<close>

fun proc_window :: "'c proc \<Rightarrow> 'c window option" where
  "proc_window (PairCommand bind (PairWaiting v)) = Some v"
| "proc_window (PairCommand bind (PairWrite tmp x rp v)) = Some v"
| "proc_window (PairCommand bind (PairRename tmp rp v)) = Some v"
| "proc_window _ = None"

definition window_fits :: "'c window \<Rightarrow> bool" where
  "window_fits v \<longleftrightarrow> (\<forall>code e k. state (wd_handshake v) = Awaiting code e k \<longrightarrow> code = wd_code v)"

text \<open>
  The offer a window is about to take: its next event is a connection whose handshake under the acceptor of
  the window gives a stream with the key \<open>h\<close>, and whose first frame offers the code of the window, while
  its handshake waits for that code.
\<close>

definition next_offer :: "daemon_env \<Rightarrow> 'c tls_accept \<Rightarrow> 'c window \<Rightarrow> string \<Rightarrow> SpkiHash \<Rightarrow> bool" where
  "next_offer env acc v name h \<longleftrightarrow>
     offered_in env acc (wd_acceptor v) (take 1 (wd_events v)) name (wd_code v) h
     \<and> (\<exists>e k. state (wd_handshake v) = Awaiting (wd_code v) e k)"

text \<open>
  From one moment of the processes to the next, a pairing command has taken such an offer: its window was
  waiting, the event is consumed, and the command goes on with what is left of its listener.
\<close>

definition takes_offer ::
    "daemon_env \<Rightarrow> 'c tls_accept \<Rightarrow> 'c window \<Rightarrow> 'c proc \<Rightarrow> string \<Rightarrow> SpkiHash \<Rightarrow> bool" where
  "takes_offer env acc v p name h \<longleftrightarrow> next_offer env acc v name h
     \<and> (\<exists>v'. proc_window p = Some v' \<and> wd_events v' = tl (wd_events v) \<and> wd_code v' = wd_code v)"

definition lets_in ::
    "daemon_env \<Rightarrow> 'c tls_accept \<Rightarrow> (nat \<times> 'c proc) list \<Rightarrow> (nat \<times> 'c proc) list \<Rightarrow> string \<Rightarrow> SpkiHash \<Rightarrow> bool" where
  "lets_in env acc ps ps' name h \<longleftrightarrow>
     (\<exists>pid bind v q. (pid, PairCommand bind (PairWaiting v)) \<in> set ps \<and> (pid, PairCommand bind q) \<in> set ps'
        \<and> takes_offer env acc v (PairCommand bind q) name h)"

lemma lets_in_moved:
  assumes "takes_offer env acc v (PairCommand bind q) name h"
  shows "lets_in env acc (xs @ (pid, PairCommand bind (PairWaiting v)) # ys) (xs @ (pid, PairCommand bind q) # ys) name h"
proof -
  have "(pid, PairCommand bind (PairWaiting v)) \<in> set (xs @ (pid, PairCommand bind (PairWaiting v)) # ys)"
    "(pid, PairCommand bind q) \<in> set (xs @ (pid, PairCommand bind q) # ys)" by simp_all
  with assms show ?thesis unfolding lets_in_def by blast
qed

definition proc_fits :: "'c proc \<Rightarrow> bool" where
  "proc_fits p \<longleftrightarrow> (\<forall>v. proc_window p = Some v \<longrightarrow> window_fits v)"

lemma accept_pair_cases:
  assumes "accept_pair h now code name spki = (tr, h')"
  shows "state h' = state h \<or> state h' = Idle
     \<or> (\<exists>c e k. state h = Awaiting c e k \<and> ((\<exists>e' k'. state h' = Awaiting c e' k')
          \<or> code = c \<and> (\<exists>r. state h' = Paired r)))"
    and "tr = Succeeded r \<Longrightarrow> pr_phone_name r = name \<and> pr_client_spki r = spki \<and> (\<exists>e k. state h = Awaiting code e k)"
  using assms by (auto simp: accept_pair_def Let_def split: PairingState.splits if_splits)

lemma tick_awaiting: "tick h now = (tr, h') \<Longrightarrow> state h' = Awaiting c e k \<Longrightarrow> state h = Awaiting c e k"
  by (auto simp: tick_def split: PairingState.splits if_splits)

lemma attempt_begin_cases:
  assumes "attempt_begin env t hs w = (a, hs', w')"
  obtains (same) "hs' = hs" "\<And>r rp. a \<noteq> Adding r rp"
    | (offer) name code h now tr where "offers env t name code h" "accept_pair hs now code name h = (tr, hs')"
        "\<And>r rp. a = Adding r rp \<Longrightarrow> tr = Succeeded r"
proof (cases "\<exists>h e buf t1 name code. pair_peer_spki_from_tls env t = Inr h \<and> read_one_envelope [] t = (Inr e, buf, t1)
    \<and> decode_client_frame (e_client_codec env) (payload e) = Inr (Pair name code)")
  case True
  then obtain h e buf t1 name code where f: "pair_peer_spki_from_tls env t = Inr h" "read_one_envelope [] t = (Inr e, buf, t1)"
    "decode_client_frame (e_client_codec env) (payload e) = Inr (Pair name code)" by blast
  then have o: "offers env t name code h" by (simp add: offers_def first_frame_def)
  obtain now w1 where n: "unix_ms_now w = (now, w1)" by fastforce
  obtain tr hs1 where tr: "accept_pair hs now code name h = (tr, hs1)" by fastforce
  have "hs' = hs1" "\<And>r rp. a = Adding r rp \<Longrightarrow> tr = Succeeded r"
    using assms f n tr
    by (auto simp: attempt_begin_def Let_def refuse_attempt_def split: PairingTransition.splits prod.splits sum.splits)
  with tr show ?thesis by (intro offer [OF o]) auto
next
  case False
  with assms have "hs' = hs \<and> (\<forall>r rp. a \<noteq> Adding r rp)"
    by (auto simp: attempt_begin_def Let_def refuse_attempt_def split: sum.splits prod.splits ClientFrame.splits)
  then show ?thesis by (intro same) auto
qed

lemma attempt_adding_offers:
  assumes "attempt_begin env t hs w = (Adding r rp, hs', w')"
  shows "\<exists>code e k. state hs = Awaiting code e k \<and> offers env t (pr_phone_name r) code (pr_client_spki r)"
    and "\<exists>r. state hs' = Paired r"
proof -
  show "\<exists>code e k. state hs = Awaiting code e k \<and> offers env t (pr_phone_name r) code (pr_client_spki r)"
    using assms
  proof (cases rule: attempt_begin_cases)
    case (offer name code h now tr)
    from accept_pair_cases(2) [OF offer(2,3)] offer(1) show ?thesis by auto
  qed blast
  show "\<exists>r. state hs' = Paired r"
    using assms
  proof (cases rule: attempt_begin_cases)
    case (offer name code h now tr)
    from offer(2) offer(3) [OF refl] show ?thesis
      by (auto simp: accept_pair_def Let_def split: PairingState.splits if_splits)
  qed blast
qed

lemma attempt_begin_fits:
  assumes "attempt_begin env t hs w = (a, hs', w')" "window_fits (v\<lparr>wd_handshake := hs, wd_events := es\<rparr>)"
  shows "window_fits (v\<lparr>wd_handshake := hs', wd_events := es\<rparr>)"
  using assms(1)
proof (cases rule: attempt_begin_cases)
  case (offer name code h now tr)
  from accept_pair_cases(1) [OF offer(2)] assms(2) show ?thesis by (auto simp: window_fits_def)
qed (use assms(2) in simp)

lemma window_fits_contents [simp]: "window_fits (v\<lparr>wd_contents := c\<rparr>) = window_fits v"
  by (simp add: window_fits_def)

lemma after_attempt_fits: "window_fits v \<Longrightarrow> proc_fits (PairCommand bind (after_attempt v))"
  by (simp add: after_attempt_def proc_fits_def)

lemma save_pairing_fits: "window_fits v \<Longrightarrow> proc_fits (PairCommand bind (save_pairing env cfg r rp v))"
  using after_attempt_fits [of "v\<lparr>wd_contents := add_pairing (from_core r) (wd_contents v)\<rparr>"]
  by (auto simp: save_pairing_def Let_def proc_fits_def split: sum.split)

lemma window_event_fits:
  assumes "window_event env tls_accept cfg v w = (q', w')" "window_fits v"
  shows "proc_fits (PairCommand bind q')"
proof -
  obtain now w1 where n: "unix_ms_now w = (now, w1)" by fastforce
  obtain tr hs1 where tk: "tick (wd_handshake v) now = (tr, hs1)" by fastforce
  then have f: "window_fits (v\<lparr>wd_handshake := hs1, wd_events := es\<rparr>)" for es
    using assms(2) tick_awaiting [OF tk] by (auto simp: window_fits_def)
  note att = attempt_begin_fits [OF _ f]
  from assms(1) n tk f show ?thesis
    by (auto simp: window_event_def Let_def after_attempt_fits save_pairing_fits att proc_fits_def [of "PairCommand _ (PairEnded _ _)"]
        proc_fits_def [of "PairCommand _ (PairWaiting _)"]
        split: if_splits list.splits pair_event.splits sum.splits prod.splits attempt.splits)
qed

lemma open_window_code:
  "open_window env w = Some (Inr c, hs, w') \<Longrightarrow> state hs = Awaiting code e k \<Longrightarrow> code = c"
  using open_window_cases [of env w "Inr c" hs w'] by simp

lemma pairing_open_fits:
  assumes "pairing_open env bind cfg c w = (q', w')"
  shows "proc_fits (PairCommand bind' q')"
proof -
  have "window_fits v" if v: "q' = PairWaiting v" for v
  proof -
    obtain w'' where "open_window env w = Some (Inr (wd_code v), wd_handshake v, w'')"
      using assms v by (auto simp: pairing_open_def split: sum.splits option.splits prod.splits)
    then show ?thesis by (simp add: window_fits_def open_window_code)
  qed
  moreover have "(\<exists>v. q' = PairWaiting v) \<or> (\<exists>r code. q' = PairEnded r code)"
    using assms by (auto simp: pairing_open_def split: sum.splits option.splits prod.splits)
  ultimately show ?thesis by (auto simp: proc_fits_def)
qed

lemma proc_advance_fits:
  assumes "proc_advance env tls_accept cfg p w = (p', w')" "proc_fits p"
  shows "proc_fits p'"
proof (cases p)
  case (LocalCommand e q)
  with assms show ?thesis by (auto simp: proc_advance_def proc_fits_def split: prod.splits)
next
  case (PairCommand bind q)
  obtain q' where q': "pairing_advance env tls_accept bind cfg q w = (q', w')" "p' = PairCommand bind q'"
    using assms(1) PairCommand by (auto simp: proc_advance_def split: prod.splits)
  show ?thesis
  proof (cases q)
    case (PairOpen c)
    with q' show ?thesis by (auto simp: pairing_advance_def intro: pairing_open_fits)
  next
    case (PairWaiting v)
    with q' PairCommand assms(2) show ?thesis
      by (auto simp: pairing_advance_def proc_fits_def [of "PairCommand _ (PairWaiting _)"] intro: window_event_fits)
  next
    case (PairWrite tmp x rp v)
    with q' PairCommand assms(2) show ?thesis
      by (auto simp: pairing_advance_def proc_fits_def [of "PairCommand _ (PairWrite _ _ _ _)"]
          proc_fits_def [of "PairCommand _ (PairRename _ _ _)"] after_attempt_fits split: prod.splits sum.splits)
  next
    case (PairRename tmp rp v)
    with q' PairCommand assms(2) show ?thesis
      by (auto simp: pairing_advance_def proc_fits_def [of "PairCommand _ (PairRename _ _ _)"]
          proc_fits_def [of "PairCommand _ (PairEnded _ _)"] after_attempt_fits split: prod.splits sum.splits)
  qed (use q' in \<open>auto simp: pairing_advance_def proc_fits_def split: prod.splits sum.splits\<close>)
qed

subsection \<open>An invariant of the processes\<close>

text \<open>
  What every held copy and every ciphertext under way satisfies: \<open>Q n\<close>, a property of keystores that the
  changes of the commands keep and that may grow with the number of steps.
\<close>

fun proc_held :: "'c proc \<Rightarrow> KeystoreContents option" where
  "proc_held (LocalCommand e (ToChange c)) = Some c"
| "proc_held (PairCommand bind (PairOpen c)) = Some c"
| "proc_held (PairCommand bind (PairWaiting v)) = Some (wd_contents v)"
| "proc_held (PairCommand bind (PairWrite tmp x rp v)) = Some (wd_contents v)"
| "proc_held (PairCommand bind (PairRename tmp rp v)) = Some (wd_contents v)"
| "proc_held _ = None"

fun proc_writing :: "'c proc \<Rightarrow> (path \<times> bytes) option" where
  "proc_writing (LocalCommand e (ToWrite tmp x out)) = Some (tmp, x)"
| "proc_writing (PairCommand bind (PairWrite tmp x rp v)) = Some (tmp, x)"
| "proc_writing _ = None"

fun proc_renaming :: "'c proc \<Rightarrow> path option" where
  "proc_renaming (LocalCommand e (ToRename tmp out)) = Some tmp"
| "proc_renaming (PairCommand bind (PairRename tmp rp v)) = Some tmp"
| "proc_renaming _ = None"

definition proc_ok ::
    "daemon_env \<Rightarrow> Config \<Rightarrow> (KeystoreContents \<Rightarrow> bool) \<Rightarrow> fs \<Rightarrow> nat \<Rightarrow> 'c proc \<Rightarrow> bool" where
  "proc_ok env cfg Q s pid p \<longleftrightarrow>
     (\<forall>c. proc_held p = Some c \<longrightarrow> Q c)
     \<and> (\<forall>tmp x. proc_writing p = Some (tmp, x) \<longrightarrow> tmp = own_temp cfg pid \<and> sealed_by env cfg Q x)
     \<and> (\<forall>tmp. proc_renaming p = Some tmp \<longrightarrow>
          tmp = own_temp cfg pid \<and> (\<exists>x. files s tmp = Some x \<and> sealed_by env cfg Q x))"

definition others_same :: "Config \<Rightarrow> nat \<Rightarrow> 'o world \<Rightarrow> 'o world \<Rightarrow> bool" where
  "others_same cfg pid w w' \<longleftrightarrow>
     (\<forall>q. q \<noteq> own_temp cfg pid \<longrightarrow> q \<noteq> keystore_path cfg \<longrightarrow> files (w_fs w') q = files (w_fs w) q)"

lemma write_move:
  assumes "on_fs (fs_write (own_temp cfg pid) x) w = (r, w')" "store_holds env cfg Q f w"
  shows "store_holds env cfg Q f w' \<and> others_same cfg pid w w'
     \<and> (r = Inr () \<longrightarrow> files (w_fs w') (own_temp cfg pid) = Some x)"
proof -
  have w': "w_fs w' = snd (fs_write (own_temp cfg pid) x (w_fs w))" "r = fst (fs_write (own_temp cfg pid) x (w_fs w))"
    using on_fs_pair [OF assms(1)] by simp_all
  with fs_write_other [of _ "own_temp cfg pid" x "w_fs w"] store_holds_same [of w' cfg w env Q f] assms(2)
    fs_write_Inr [of "own_temp cfg pid" x "w_fs w" "()"]
  show ?thesis by (simp add: others_same_def)
qed

lemma rename_move:
  assumes "on_fs (fs_rename (own_temp cfg pid) (keystore_path cfg)) w = (r, w')" "store_holds env cfg Q f w"
    and "ks_ok (e_ks env)" "\<And>c. Q c \<Longrightarrow> wf_contents c"
    and "files (w_fs w) (own_temp cfg pid) = Some x" "sealed_by env cfg Q x"
  shows "store_holds env cfg Q f w' \<and> others_same cfg pid w w'"
proof -
  note fs = on_fs_pair [OF assms(1)]
  show ?thesis
  proof (cases r)
    case (Inl e)
    then have "files (w_fs w') = files (w_fs w)" using fs fs_rename_Inl [of "own_temp cfg pid" "keystore_path cfg" "w_fs w" e] by simp
    with assms(2) store_holds_same [of w' cfg w env Q f] show ?thesis by (simp add: others_same_def)
  next
    case (Inr u)
    then have f: "files (w_fs w') = (files (w_fs w))(own_temp cfg pid := None, keystore_path cfg \<mapsto> x)"
      using fs fs_rename_Inr [of "own_temp cfg pid" "keystore_path cfg" "w_fs w" u] assms(5) by auto
    obtain c t where c: "Q c" "save_begin (e_ks env) (keystore_path cfg) c = Inr (t, x)"
      using assms(6) by (auto simp: sealed_by_def)
    have "ks_stored (e_ks env) (keystore_path cfg) (w_fs w') = Inr (Some c)"
      by (rule begun_stored [OF assms(3) assms(4) [OF c(1)] c(2)]) (simp add: f)
    with c(1) f show ?thesis by (auto simp: store_holds_def disk_def others_same_def)
  qed
qed

lemma quiet_move:
  "files (w_fs w') = files (w_fs w) \<Longrightarrow> store_holds env cfg Q f w \<Longrightarrow> store_holds env cfg Q f w' \<and> others_same cfg pid w w'"
  using store_holds_same [of w' cfg w env Q f] by (simp add: others_same_def)

lemma quiet_proc:
  "proc_writing p = None \<Longrightarrow> proc_renaming p = None \<Longrightarrow>
     proc_ok env cfg Q s pid p \<longleftrightarrow> (\<forall>c. proc_held p = Some c \<longrightarrow> Q c)"
  by (simp add: proc_ok_def)

lemma proc_ok_others:
  "proc_ok env cfg Q (w_fs w) b p \<Longrightarrow> others_same cfg a w w' \<Longrightarrow> a \<noteq> b \<Longrightarrow> proc_ok env cfg Q (w_fs w') b p"
  by (auto simp: proc_ok_def others_same_def)

lemma proc_ok_mono:
  assumes "\<And>c. Q c \<Longrightarrow> R c" "proc_ok env cfg Q s pid p"
  shows "proc_ok env cfg R s pid p"
  using assms(2) sealed_by_mono [of Q R env cfg, OF assms(1)] assms(1) by (fastforce simp: proc_ok_def)

text \<open>A save that begins seals the contents for the temporary file of its process.\<close>

lemma begun_ok:
  assumes "Q c" "save_begin (e_ks (with_pid pid env)) (keystore_path cfg) c = Inr (tmp, x)"
  shows "tmp = own_temp cfg pid \<and> sealed_by env cfg Q x"
  using save_begin_pid(1,2) [OF assms(2)] assms(1) by (auto simp: sealed_by_def)

text \<open>The segments that do not touch the disk.\<close>

lemma errand_change_files: "errand_change e c w = (r, w') \<Longrightarrow> w_fs w' = w_fs w"
  by (cases e) (auto simp: errand_change_def Let_def unix_ms_now_def split: if_splits prod.splits)

lemma attempt_begin_files: "attempt_begin env' t hs w = (a, hs', w') \<Longrightarrow> w_fs w' = w_fs w"
  by (auto simp: attempt_begin_def Let_def unix_ms_now_def
      split: sum.splits prod.splits ClientFrame.splits PairingTransition.splits)

lemma pairing_open_files: "pairing_open env bind cfg c w = (q', w') \<Longrightarrow> w_fs w' = w_fs w"
  by (auto simp: pairing_open_def dest: open_window_cases split: sum.splits option.splits prod.splits)

lemma window_event_files:
  assumes "window_event env tls_accept cfg v w = (q', w')"
  shows "w_fs w' = w_fs w"
proof -
  obtain now w1 where n: "unix_ms_now w = (now, w1)" by fastforce
  then have "w_fs w1 = w_fs w" by (auto simp: unix_ms_now_def)
  with assms n show ?thesis
    by (auto simp: window_event_def Let_def dest: attempt_begin_files
        split: prod.splits if_splits list.splits pair_event.splits sum.splits attempt.splits)
qed

text \<open>
  What is asked of \<open>Q\<close>: the changes of the commands keep it, one more pairing may cost one more step, and
  a new identity has it if the disk may be without a keystore.
\<close>

locale contents_law =
  fixes env :: daemon_env
    and Q :: "nat \<Rightarrow> KeystoreContents \<Rightarrow> bool"
    and may :: disk_may
    and allowed :: "string \<Rightarrow> SpkiHash \<Rightarrow> bool"
  assumes law_wf: "Q n c \<Longrightarrow> wf_contents c"
    and law_mono: "Q n c \<Longrightarrow> Q (Suc n) c"
    and law_time: "Q n c \<Longrightarrow> Q n (c\<lparr>ks_last_authenticated_at_unix_ms := t\<rparr>)"
    and law_revoked: "Q n c \<Longrightarrow> Q n (mark_revoked hit c)"
    and law_paired: "Q n c \<Longrightarrow> Suc n < 2 ^ 64 \<Longrightarrow> wf_string (pr_phone_name r) \<Longrightarrow> wf_spki (pr_client_spki r) \<Longrightarrow>
      allowed (pr_phone_name r) (pr_client_spki r) \<Longrightarrow> Q (Suc n) (add_pairing (from_core r) c)"
    and law_fresh: "may_lack may \<Longrightarrow> device_generate (e_rcgen env) (e_x509 env) = Inr i \<Longrightarrow> Q n (from_identity (device_to_bytes i))"
begin

definition procs_ok :: "nat \<Rightarrow> Config \<Rightarrow> ('o, 'c) processes \<Rightarrow> bool" where
  "procs_ok n cfg s \<longleftrightarrow> (case s of (ps, w) \<Rightarrow>
     ks_ok (e_ks env) \<and> distinct (map fst ps) \<and> store_holds env cfg (Q n) may w
     \<and> (\<forall>(pid, p) \<in> set ps. proc_ok env cfg (Q n) (w_fs w) pid p \<and> proc_fits p))"

definition offers_allowed :: "'c tls_accept \<Rightarrow> (nat \<times> 'c proc) list \<Rightarrow> (nat \<times> 'c proc) list \<Rightarrow> bool" where
  "offers_allowed acc ps ps' \<longleftrightarrow> (\<forall>name h. lets_in env acc ps ps' name h \<longrightarrow> allowed name h)"

lemma holds_up: "store_holds env cfg (Q n) f w \<Longrightarrow> store_holds env cfg (Q (Suc n)) f w"
  by (erule store_holds_mono [rotated]) (rule law_mono)

lemma proc_up: "proc_ok env cfg (Q n) s pid p \<Longrightarrow> proc_ok env cfg (Q (Suc n)) s pid p"
  by (erule proc_ok_mono [rotated]) (rule law_mono)

lemma errand_change_keeps:
  "Q n c \<Longrightarrow> errand_change e c w = (Inr (Some c'), w') \<Longrightarrow> Q n c'"
  by (cases e) (auto simp: errand_change_def Let_def law_time law_revoked split: if_splits prod.splits)

lemma cmd_step_keeps:
  assumes "ks_ok (e_ks env)" "store_holds env cfg (Q n) may w" "proc_ok env cfg (Q n) (w_fs w) pid (LocalCommand e q)"
    and "cmd_step (with_pid pid env) cfg e q w = (q', w')"
  shows "store_holds env cfg (Q n) may w' \<and> proc_ok env cfg (Q n) (w_fs w') pid (LocalCommand e q')
     \<and> others_same cfg pid w w'"
proof (cases q)
  case ToLoad
  obtain r w1 where r: "require_keystore (with_pid pid env) cfg w = (r, w1)" by fastforce
  note rd = require_keystore_reads [OF r] and k = quiet_move [OF require_keystore_reads(1) [OF r] assms(2)]
  have "Q n c" if "r = Inr c" for c using rd(2) [OF that] assms(2) by (auto simp: store_holds_def)
  with k r ToLoad assms(4) show ?thesis by (cases r) (auto simp: cmd_step_def quiet_proc)
next
  case (ToChange c)
  have c: "Q n c" using assms(3) ToChange by (simp add: quiet_proc)
  obtain r w1 where r: "errand_change e c w = (r, w1)" by fastforce
  have w': "w' = w1" using assms(4) ToChange r
    by (auto simp: cmd_step_def split: sum.splits option.splits prod.splits)
  have k: "store_holds env cfg (Q n) may w' \<and> others_same cfg pid w w'"
    by (rule quiet_move [OF _ assms(2)]) (simp add: w' errand_change_files [OF r])
  have "proc_ok env cfg (Q n) (w_fs w') pid (LocalCommand e q')"
  proof (cases "\<exists>c' tmp x. r = Inr (Some c')
      \<and> save_begin (e_ks (with_pid pid env)) (keystore_path cfg) c' = Inr (tmp, x)")
    case True
    then obtain c' tmp x where x: "r = Inr (Some c')"
      "save_begin (e_ks (with_pid pid env)) (keystore_path cfg) c' = Inr (tmp, x)" by blast
    with r errand_change_keeps [OF c] have "Q n c'" by simp
    from begun_ok [where Q = "Q n", OF this x(2)] x assms(4) ToChange r show ?thesis
      by (auto simp: cmd_step_def proc_ok_def)
  next
    case False
    with assms(4) ToChange r show ?thesis
      by (auto simp: cmd_step_def quiet_proc split: sum.splits option.splits prod.splits)
  qed
  with k show ?thesis by blast
next
  case (ToWrite tmp x out)
  with assms(3) have x: "tmp = own_temp cfg pid" "sealed_by env cfg (Q n) x" by (simp_all add: proc_ok_def)
  obtain r w1 where r: "on_fs (fs_write tmp x) w = (r, w1)" by fastforce
  from write_move [OF _ assms(2)] r x(1)
  have "store_holds env cfg (Q n) may w1 \<and> others_same cfg pid w w1
      \<and> (r = Inr () \<longrightarrow> files (w_fs w1) (own_temp cfg pid) = Some x)" by blast
  with r x ToWrite assms(4) show ?thesis by (cases r) (auto simp: cmd_step_def proc_ok_def)
next
  case (ToRename tmp out)
  with assms(3) obtain x where x: "tmp = own_temp cfg pid" "files (w_fs w) tmp = Some x" "sealed_by env cfg (Q n) x"
    by (auto simp: proc_ok_def)
  obtain r w1 where r: "on_fs (fs_rename tmp (keystore_path cfg)) w = (r, w1)" by fastforce
  have "wf_contents c" if "Q n c" for c using law_wf [OF that] .
  with rename_move [where Q = "Q n" and pid = pid and r = r and w' = w1, OF _ assms(2,1) _ _ x(3)] r x(1,2)
  have "store_holds env cfg (Q n) may w1 \<and> others_same cfg pid w w1" by blast
  with r ToRename assms(4) show ?thesis by (cases r) (auto simp: cmd_step_def proc_ok_def)
qed (use assms in \<open>auto simp: quiet_move quiet_proc\<close>)

lemma after_attempt_ok: "Q n (wd_contents v) \<Longrightarrow> proc_ok env cfg (Q n) s pid (PairCommand bind (after_attempt v))"
  by (auto simp: after_attempt_def quiet_proc)

lemma save_pairing_ok:
  assumes "Q n (add_pairing (from_core r) (wd_contents v))"
  shows "proc_ok env cfg (Q n) s pid (PairCommand bind (save_pairing (with_pid pid env) cfg r rp v))"
  using assms after_attempt_ok [of n "v\<lparr>wd_contents := add_pairing (from_core r) (wd_contents v)\<rparr>"] begun_ok [where Q = "Q n"]
  by (auto simp: save_pairing_def Let_def proc_ok_def [of _ _ _ _ _ "PairCommand bind (PairWrite _ _ _ _)"]
      split: sum.split)

lemma save_pairing_window:
  assumes "state (wd_handshake v) = Paired x"
  shows "\<exists>v'. proc_window (PairCommand bind (save_pairing env' cfg r rp v)) = Some v'
     \<and> wd_events v' = wd_events v \<and> wd_code v' = wd_code v"
  using assms by (auto simp: save_pairing_def after_attempt_def Let_def split: sum.split)

lemma window_event_keeps:
  assumes "decodes_wf env" "Suc n < 2 ^ 64" "Q n (wd_contents v)" "window_fits v"
    and allow: "\<forall>name h. takes_offer env tls_accept v (PairCommand bind q') name h \<longrightarrow> allowed name h"
    and "window_event (with_pid pid env) tls_accept cfg v w = (q', w')"
  shows "proc_ok env cfg (Q (Suc n)) s pid (PairCommand bind q')"
proof -
  obtain now w1 where n: "unix_ms_now w = (now, w1)" by fastforce
  obtain tr hs1 where tk: "tick (wd_handshake v) now = (tr, hs1)" by fastforce
  note Q1 = law_mono [OF assms(3)]
  show ?thesis
  proof (cases "tr \<noteq> PairingTransition.Expired \<and> (\<exists>tcp peer rest t. wd_events v = PairAccepted (Inr (tcp, peer)) # rest
      \<and> tls_accept (wd_acceptor v) tcp = Inr t)")
    case True
    then obtain tcp peer rest t where ev: "tr \<noteq> PairingTransition.Expired" "wd_events v = PairAccepted (Inr (tcp, peer)) # rest"
      "tls_accept (wd_acceptor v) tcp = Inr t" by blast
    obtain a hs2 w2 where a: "attempt_begin (with_pid pid env) t hs1 w1 = (a, hs2, w2)"
      by (cases "attempt_begin (with_pid pid env) t hs1 w1")
    let ?v = "v\<lparr>wd_handshake := hs2, wd_events := rest\<rparr>"
    show ?thesis
    proof (cases a)
      case (Over r)
      with assms(6) n tk ev a after_attempt_ok [of "Suc n" ?v] Q1 show ?thesis by (auto simp: window_event_def)
    next
      case (Adding r rp)
      from attempt_adding_offers [OF a [unfolded Adding]] obtain code e k x where o: "state hs1 = Awaiting code e k"
        "offers env t (pr_phone_name r) code (pr_client_spki r)" and x: "state hs2 = Paired x" by auto
      note aw = tick_awaiting [OF tk o(1)]
      then have code: "code = wd_code v" using assms(4) by (auto simp: window_fits_def)
      have q': "q' = save_pairing (with_pid pid env) cfg r rp ?v"
        using assms(6) n tk ev a Adding by (simp add: window_event_def)
      have "next_offer env tls_accept v (pr_phone_name r) (pr_client_spki r)"
        using ev(2,3) o(2) aw code by (auto simp: next_offer_def offered_in_def)
      moreover obtain v' where "proc_window (PairCommand bind q') = Some v'" "wd_events v' = rest" "wd_code v' = wd_code v"
        using save_pairing_window [of ?v x bind "with_pid pid env" cfg r rp] x q' by auto
      ultimately have "allowed (pr_phone_name r) (pr_client_spki r)"
        using allow ev(2) by (auto simp: takes_offer_def)
      from offers_wf [OF assms(1) o(2)] law_paired [OF assms(3,2) _ _ this]
      have "Q (Suc n) (add_pairing (from_core r) (wd_contents ?v))" by simp
      from save_pairing_ok [OF this] assms(6) n tk ev a Adding show ?thesis by (auto simp: window_event_def)
    qed
  next
    case False
    with assms(6) n tk Q1 show ?thesis
      by (auto simp: window_event_def quiet_proc Let_def
          split: if_splits list.splits pair_event.splits sum.splits prod.splits)
  qed
qed

lemma pairing_open_keeps:
  assumes "Q n c" "pairing_open env' bind' cfg c w = (q', w')"
  shows "proc_ok env cfg (Q n) s pid (PairCommand bind q')"
  using assms
  by (auto simp: pairing_open_def quiet_proc
      split: sum.splits option.splits prod.splits PairingTransition.splits)

lemma pairing_advance_keeps:
  assumes "decodes_wf env" "Suc n < 2 ^ 64" "ks_ok (e_ks env)" "store_holds env cfg (Q n) may w"
    and "proc_ok env cfg (Q n) (w_fs w) pid (PairCommand bind q)"
    and "pairing_advance (with_pid pid env) tls_accept bind cfg q w = (q', w')"
    and "proc_fits (PairCommand bind q)"
    and "\<forall>v name h. q = PairWaiting v \<and> takes_offer env tls_accept v (PairCommand bind q') name h \<longrightarrow> allowed name h"
  shows "store_holds env cfg (Q (Suc n)) may w' \<and> proc_ok env cfg (Q (Suc n)) (w_fs w') pid (PairCommand bind q')
     \<and> others_same cfg pid w w'"
proof -
  have later: ?thesis if "store_holds env cfg (Q n) may w' \<and> others_same cfg pid w w'"
    "proc_ok env cfg (Q (Suc n)) (w_fs w') pid (PairCommand bind q')"
    using that holds_up by blast
  have quiet: ?thesis if "w_fs w' = w_fs w" "proc_ok env cfg (Q (Suc n)) (w_fs w') pid (PairCommand bind q')"
    by (rule later [OF quiet_move [OF _ assms(4)] that(2)]) (simp add: that(1))
  show ?thesis
  proof (cases q)
    case PairDir
    obtain r w1 where r: "on_fs (ensure_data_dir (data_dir cfg)) w = (r, w1)" by fastforce
    with assms(6) PairDir have w': "w' = w1" by (cases r) (auto simp: pairing_advance_def)
    have "files (w_fs w') = files (w_fs w)" using on_fs_pair [OF r] w' by simp
    from later [OF quiet_move [OF this assms(4)]] r PairDir assms(6) show ?thesis
      by (cases r) (auto simp: pairing_advance_def quiet_proc)
  next
    case PairLoad
    obtain r w1 where r: "bootstrap (with_pid pid env) cfg w = (r, w1)" by fastforce
    with assms(6) PairLoad have w': "w' = w1" by (cases r) (auto simp: pairing_advance_def)
    have c: "Q n c" if "r = Inr c" for c
      using bootstrap_reads(2) [OF r that] assms(4) law_fresh by (auto simp: store_holds_def)
    have "files (w_fs w') = files (w_fs w)" using bootstrap_reads(1) [OF r] w' by simp
    from later [OF quiet_move [OF this assms(4)]] r PairLoad assms(6) law_mono [OF c] show ?thesis
      by (cases r) (auto simp: pairing_advance_def quiet_proc)
  next
    case (PairOpen c)
    with assms(5) have c: "Q n c" by (simp add: quiet_proc)
    have "pairing_open (with_pid pid env) bind cfg c w = (q', w')" using assms(6) PairOpen by (simp add: pairing_advance_def)
    from pairing_open_keeps [OF c this, where s = "w_fs w'" and pid = pid and bind = bind] quiet [OF pairing_open_files [OF this]] proc_up show ?thesis by blast
  next
    case (PairWaiting v)
    have fit: "window_fits v" using assms(7) PairWaiting by (simp add: proc_fits_def)
    have "Q n (wd_contents v)" using assms(5) PairWaiting by (simp add: quiet_proc)
    have "\<forall>name h. takes_offer env tls_accept v (PairCommand bind q') name h \<longrightarrow> allowed name h"
      using assms(8) PairWaiting by simp
    note ev = window_event_keeps [where s = "w_fs w'", OF assms(1,2) \<open>Q n (wd_contents v)\<close> fit this]
    have "window_event (with_pid pid env) tls_accept cfg v w = (q', w')" using assms(6) PairWaiting by (simp add: pairing_advance_def)
    from ev [OF this] quiet [OF window_event_files [OF this]] show ?thesis by blast
  next
    case (PairWrite tmp x rp v)
    with assms(5) have x: "tmp = own_temp cfg pid" "sealed_by env cfg (Q n) x" "Q n (wd_contents v)"
      by (simp_all add: proc_ok_def)
    obtain r w1 where r: "on_fs (fs_write tmp x) w = (r, w1)" by fastforce
    with assms(6) PairWrite have w': "w' = w1" by (cases r) (auto simp: pairing_advance_def)
    from write_move [OF _ assms(4)] r x(1) have k: "store_holds env cfg (Q n) may w1 \<and> others_same cfg pid w w1
        \<and> (r = Inr () \<longrightarrow> files (w_fs w1) (own_temp cfg pid) = Some x)" by blast
    have "proc_ok env cfg (Q n) (w_fs w') pid (PairCommand bind q')"
      using k r x PairWrite assms(6) after_attempt_ok [OF x(3)] by (cases r) (auto simp: pairing_advance_def proc_ok_def)
    with later proc_up k w' show ?thesis by blast
  next
    case (PairRename tmp rp v)
    with assms(5) obtain x where x: "tmp = own_temp cfg pid" "files (w_fs w) tmp = Some x" "sealed_by env cfg (Q n) x"
      "Q n (wd_contents v)" by (auto simp: proc_ok_def)
    obtain r w1 where r: "on_fs (fs_rename tmp (keystore_path cfg)) w = (r, w1)" by fastforce
    with assms(6) PairRename have w': "w' = w1" by (cases r) (auto simp: pairing_advance_def split: prod.splits sum.splits)
    have "wf_contents c" if "Q n c" for c using law_wf [OF that] .
    with rename_move [where Q = "Q n" and pid = pid and r = r and w' = w1, OF _ assms(4,3) _ _ x(3)] r x(1,2)
    have k: "store_holds env cfg (Q n) may w1 \<and> others_same cfg pid w w1" by blast
    have "proc_ok env cfg (Q n) (w_fs w') pid (PairCommand bind q')"
      using r x PairRename assms(6) after_attempt_ok [OF x(4)]
      by (cases r) (auto simp: pairing_advance_def quiet_proc split: prod.splits sum.splits)
    with later proc_up k w' show ?thesis by blast
  next
    case (PairEnded r code)
    with assms(6) quiet show ?thesis by (auto simp: pairing_advance_def quiet_proc)
  qed
qed

lemma proc_advance_keeps:
  assumes "decodes_wf env" "Suc n < 2 ^ 64" "ks_ok (e_ks env)" "store_holds env cfg (Q n) may w"
    and "proc_ok env cfg (Q n) (w_fs w) pid p" "proc_advance (with_pid pid env) tls_accept cfg p w = (p', w')"
    and "proc_fits p" "offers_allowed tls_accept (xs @ (pid, p) # ys) (xs @ (pid, p') # ys)"
  shows "store_holds env cfg (Q (Suc n)) may w' \<and> proc_ok env cfg (Q (Suc n)) (w_fs w') pid p'
     \<and> others_same cfg pid w w'"
proof (cases p)
  case (LocalCommand e q)
  obtain q' where q': "cmd_step (with_pid pid env) cfg e q w = (q', w')" "p' = LocalCommand e q'"
    using assms(6) LocalCommand by (auto simp: proc_advance_def split: prod.splits)
  from cmd_step_keeps [OF assms(3,4) _ q'(1)] assms(5) LocalCommand q'(2)
    holds_up proc_up show ?thesis by blast
next
  case (PairCommand bind q)
  obtain q' where q': "pairing_advance (with_pid pid env) tls_accept bind cfg q w = (q', w')" "p' = PairCommand bind q'"
    using assms(6) PairCommand by (auto simp: proc_advance_def split: prod.splits)
  have "\<forall>v name h. q = PairWaiting v \<and> takes_offer env tls_accept v (PairCommand bind q') name h \<longrightarrow> allowed name h"
    using assms(8) lets_in_moved PairCommand q'(2) by (fastforce simp: offers_allowed_def)
  from pairing_advance_keeps [OF assms(1-4) _ q'(1) _ this] assms(5,7) PairCommand q'(2) show ?thesis by blast
qed

lemma proc_advance_run:
  assumes "decodes_wf env" "Suc n < 2 ^ 64" "procs_ok n cfg (xs @ (pid, p) # ys, w)"
    and "offers_allowed tls_accept (xs @ (pid, p) # ys) (xs @ (pid, p') # ys)"
    and "proc_advance (with_pid pid env) tls_accept cfg p w = (p', w')"
  shows "store_holds env cfg (Q (Suc n)) may w' \<and> proc_ok env cfg (Q (Suc n)) (w_fs w') pid p'
     \<and> others_same cfg pid w w' \<and> proc_fits p'"
proof -
  have ok: "ks_ok (e_ks env)" "store_holds env cfg (Q n) may w" "proc_ok env cfg (Q n) (w_fs w) pid p" "proc_fits p"
    using assms(3) by (simp_all add: procs_ok_def)
  from proc_advance_keeps [OF assms(1,2) ok(1-3) assms(5) ok(4) assms(4)] proc_advance_fits [OF assms(5) ok(4)] show ?thesis by blast
qed

lemma proc_step_keeps:
  assumes "decodes_wf env" "Suc n < 2 ^ 64"
  shows "proc_step env tls_accept cfg s s' \<Longrightarrow> procs_ok n cfg s \<Longrightarrow> offers_allowed tls_accept (fst s) (fst s') \<Longrightarrow>
     procs_ok (Suc n) cfg s'"
proof (induction rule: proc_step.induct)
  case (spawned p pid ps w)
  have "proc_ok env cfg (Q (Suc n)) (w_fs w) pid p \<and> proc_fits p"
    using spawned(1) by (cases p) (simp_all add: proc_begins_def quiet_proc proc_fits_def)
  with spawned(2,3) show ?case
    by (fastforce simp: procs_ok_def intro: holds_up proc_up)
next
  case (moved pid p w p' w' xs ys)
  then have ok: "distinct (map fst (xs @ (pid, p) # ys))" "ks_ok (e_ks env)" by (simp_all add: procs_ok_def)
  note k = proc_advance_run [OF assms moved(2) _ moved(1)]
  have "proc_ok env cfg (Q (Suc n)) (w_fs w') b r \<and> proc_fits r" if r: "(b, r) \<in> set (xs @ ys)" for b r
  proof -
    have "pid \<noteq> b" using ok(1) r by force
    moreover have "proc_ok env cfg (Q n) (w_fs w) b r \<and> proc_fits r" using moved(2) r by (auto simp: procs_ok_def)
    ultimately show ?thesis using k moved(3) by (auto intro: proc_ok_others proc_up)
  qed
  with k ok moved(3) show ?case by (auto simp: procs_ok_def)
next
  case (left xs pid p ys w)
  then show ?case
    by (fastforce simp: procs_ok_def intro: holds_up proc_up)
qed

text \<open>Along a run: \<open>f i\<close> is the state after \<open>i\<close> steps.\<close>

lemma proc_run_keeps:
  assumes "decodes_wf env" "procs_ok m cfg (f 0)" "m + n < 2 ^ 64"
    and "\<And>i. i < n \<Longrightarrow> proc_step env tls_accept cfg (f i) (f (Suc i))
      \<and> offers_allowed tls_accept (fst (f i)) (fst (f (Suc i)))"
  shows "procs_ok (m + n) cfg (f n)"
  using assms(3,4)
proof (induction n)
  case 0
  then show ?case using assms(2) by simp
next
  case (Suc n)
  then have "procs_ok (m + n) cfg (f n)" by simp
  with proc_step_keeps [OF assms(1), of "m + n" tls_accept cfg "f n" "f (Suc n)"] Suc.prems show ?case by simp
qed

end

subsection \<open>Well-formed keystores of one device\<close>

text \<open>
  Well-formed, of the same device as the keystore \<open>old\<close> of the start, and every phone was in it or is
  \<open>allowed\<close>, by a name and its key.
\<close>

definition phone_of :: "DaemonPairingRecord \<Rightarrow> string \<times> SpkiHash" where
  "phone_of p = (phone_name p, client_spki p)"

definition entitled :: "(string \<Rightarrow> SpkiHash \<Rightarrow> bool) \<Rightarrow> KeystoreContents option \<Rightarrow> string \<times> SpkiHash \<Rightarrow> bool" where
  "entitled allowed old x \<longleftrightarrow> (\<exists>k. old = Some k \<and> x \<in> phone_of ` set (pairings k)) \<or> allowed (fst x) (snd x)"

definition kept_from ::
    "(string \<Rightarrow> SpkiHash \<Rightarrow> bool) \<Rightarrow> KeystoreContents option \<Rightarrow> nat \<Rightarrow> KeystoreContents \<Rightarrow> bool" where
  "kept_from allowed old n c \<longleftrightarrow> keystore_bound n c
     \<and> (case old of None \<Rightarrow> True | Some k \<Rightarrow> device_identity_bytes c = device_identity_bytes k)
     \<and> (\<forall>x \<in> phone_of ` set (pairings c). entitled allowed old x)"

lemma identity_updates [simp]:
  "device_identity_bytes (c\<lparr>ks_last_authenticated_at_unix_ms := t\<rparr>) = device_identity_bytes c"
  "device_identity_bytes (c\<lparr>reauth_interval_days := d\<rparr>) = device_identity_bytes c"
  "device_identity_bytes (c\<lparr>pairings := ps\<rparr>) = device_identity_bytes c"
  "device_identity_bytes (mark_revoked hit c) = device_identity_bytes c"
  "device_identity_bytes (add_pairing p c) = device_identity_bytes c"
  by (simp_all add: device_identity_bytes_def mark_revoked_def add_pairing_def)

lemma phone_updates:
  "phone_of ` set (pairings (mark_revoked hit c)) = phone_of ` set (pairings c)"
  "phone_of ` set (pairings (add_pairing p c)) \<subseteq> insert (phone_of p) (phone_of ` set (pairings c))"
proof -
  have "map phone_of (pairings (mark_revoked hit c)) = map phone_of (pairings c)"
    by (simp add: mark_revoked_def phone_of_def)
  from arg_cong [OF this, of set] show "phone_of ` set (pairings (mark_revoked hit c)) = phone_of ` set (pairings c)"
    by simp
qed (auto simp: add_pairing_def)

lemma keystore_bound_wf: "keystore_bound n c \<Longrightarrow> wf_contents c"
  by (simp add: keystore_bound_def)

lemma kept_from_same:
  assumes "kept_from allowed old n c" "keystore_bound m c'"
    and "device_identity_bytes c' = device_identity_bytes c" "phone_of ` set (pairings c') \<subseteq> phone_of ` set (pairings c)"
  shows "kept_from allowed old m c'"
  using assms by (auto simp: kept_from_def split: option.splits)

lemma kept_from_added:
  assumes "kept_from allowed old n c" "Suc n < 2 ^ 64" "wf_string (pr_phone_name r)" "wf_spki (pr_client_spki r)"
    and "allowed (pr_phone_name r) (pr_client_spki r)"
  shows "kept_from allowed old (Suc n) (add_pairing (from_core r) c)"
proof -
  have "entitled allowed old (phone_of (from_core r))"
    using assms(5) by (simp add: entitled_def from_core_def phone_of_def)
  moreover have "keystore_bound (Suc n) (add_pairing (from_core r) c)"
    by (rule keystore_bound_add) (use assms(1-4) in \<open>simp_all add: kept_from_def\<close>)
  ultimately show ?thesis
    using assms(1) phone_updates(2) [of "from_core r" c] by (auto simp: kept_from_def split: option.splits)
qed

text \<open>
  The disk may be without a keystore if it was at the start, and with one that cannot be read (\<open>broken\<close>)
  where failing writes of the server are allowed for.
\<close>

definition kept_may :: "daemon_env \<Rightarrow> KeystoreContents option \<Rightarrow> bool \<Rightarrow> disk_may" where
  "kept_may env old broken = \<lparr>may_lack = (identity_lengths env \<and> old = None), may_break = broken\<rparr>"

lemma kept_from_fresh:
  assumes "identity_lengths env" "old = None" "device_generate (e_rcgen env) (e_x509 env) = Inr i"
  shows "kept_from allowed old n (from_identity (device_to_bytes i))"
  using assms
  by (simp add: kept_from_def keystore_bound_def wf_contents_def from_identity_def identity_lengths_def device_to_bytes_def)

interpretation kept: contents_law env "kept_from allowed old" "kept_may env old broken" allowed
  for env allowed old broken
proof (unfold_locales, goal_cases)
  case (2 n c)
  then have "keystore_bound (Suc n) c" by (auto simp: kept_from_def intro: keystore_bound_mono)
  with 2 show ?case by (rule kept_from_same) simp_all
next
  case (3 n c t)
  then show ?case by (rule kept_from_same) (use 3 in \<open>simp_all add: kept_from_def\<close>)
next
  case (4 n c hit)
  then show ?case by (rule kept_from_same) (use 4 in \<open>simp_all add: kept_from_def phone_updates(1)\<close>)
next
  case (5 n c r)
  then show ?case by (rule kept_from_added)
next
  case (6 i n)
  then show ?case by (auto simp: kept_may_def intro: kept_from_fresh)
qed (auto simp: kept_from_def dest: keystore_bound_wf)

text \<open>The keystore of the start.\<close>

definition start_ok :: "nat \<Rightarrow> KeystoreContents option \<Rightarrow> bool" where
  "start_ok m old \<longleftrightarrow> (case old of None \<Rightarrow> True | Some k \<Rightarrow>
     wf_contents k \<and> distinct (map client_spki (pairings k)) \<and> length (pairings k) \<le> m)"

lemma kept_start:
  assumes "disk env cfg w = Inr old" "start_ok m old" "identity_lengths env"
  shows "store_holds env cfg (kept_from allowed old m) (kept_may env old broken) w"
  using assms
  by (auto simp: store_holds_def kept_may_def kept_from_def start_ok_def entitled_def keystore_bound_def split: option.splits)

lemma kept_store:
  assumes "store_holds env cfg (kept_from allowed old m) (kept_may env old broken) w"
  shows "old = None \<and> disk env cfg w = Inr None
     \<or> broken \<and> (\<exists>e. disk env cfg w = Inl e)
     \<or> (\<exists>c. disk env cfg w = Inr (Some c) \<and> wf_contents c
          \<and> distinct (map client_spki (pairings c)) \<and> length (pairings c) \<le> m
          \<and> (\<forall>k. old = Some k \<longrightarrow> device_identity_bytes c = device_identity_bytes k))"
  using assms by (auto simp: store_holds_def kept_may_def kept_from_def keystore_bound_def)

text \<open>
  C8: The command processes never break the keystore, whatever they do to each other: any number of
  them, started at any time, each with a process id of its own, interleaved at every await, killed at
  any point and with any calls to the file system failing, leave at every moment no keystore where
  there was none, or a complete one that is well-formed, lists no phone's key twice, and still has the
  private key and certificate of the keystore they started from.
\<close>
theorem command_processes_keep_a_keystore:
  assumes "ks_ok (e_ks env)" "decodes_wf env" "identity_lengths env"
    and "disk env cfg w = Inr old" "start_ok m old"
    and "(proc_step env tls_accept cfg ^^ n) ([], w) (ps, w')" "m + n < 2 ^ 64"
  shows "old = None \<and> disk env cfg w' = Inr None
     \<or> (\<exists>c. disk env cfg w' = Inr (Some c) \<and> wf_contents c
          \<and> distinct (map client_spki (pairings c)) \<and> length (pairings c) \<le> m + n
          \<and> (\<forall>k. old = Some k \<longrightarrow> device_identity_bytes c = device_identity_bytes k))"
proof -
  obtain f where f: "f 0 = ([], w)" "f n = (ps, w')" "\<And>i. i < n \<Longrightarrow> proc_step env tls_accept cfg (f i) (f (Suc i))"
    using assms(6) unfolding relpowp_fun_conv by blast
  have start: "kept.procs_ok env (\<lambda>name h. True) old False m cfg (f 0)"
    using kept_start [OF assms(4,5,3)] assms(1) unfolding kept.procs_ok_def by (simp add: f(1))
  have "kept.procs_ok env (\<lambda>name h. True) old False (m + n) cfg (f n)"
    by (rule kept.proc_run_keeps [where f = f and tls_accept = tls_accept, OF assms(2) start assms(7)])
      (use f(3) in \<open>simp add: kept.offers_allowed_def\<close>)
  then have "store_holds env cfg (kept_from (\<lambda>name h. True) old (m + n)) (kept_may env old False) w'"
    unfolding kept.procs_ok_def by (simp add: f(2))
  from kept_store [OF this] show ?thesis by simp
qed

end
