(* ===== verification/Start_Awaits.thy ===== *)
theory Start_Awaits
  imports Server_System
begin

section \<open>The start of the server at its awaits\<close>

text \<open>
  \<open>run_with_listener_handlers_shutdown\<close> (\<open>server/mod.rs\<close>) up to its accept loop, cut where other processes
  can come between: before the data directory is made, before the keystore is read, and before the
  identity is parsed from what was read. From there on the server works on its copy.
\<close>

datatype start_point = StartDir | StartLoad | StartBuild KeystoreContents

definition start_advance ::
    "daemon_env \<Rightarrow> Config \<Rightarrow> 'o Handlers \<Rightarrow> start_point \<Rightarrow> 'o world
       \<Rightarrow> (start_point + (anyhow_error + 'o SharedState)) \<times> 'o world" where
  "start_advance env cfg hs p w =
     (case p of
        StartDir \<Rightarrow>
          (case on_fs (ensure_data_dir (data_dir cfg)) w of
             (Inl e, w1) \<Rightarrow> (Inr (Inl (FromKeystore e)), w1)
           | (Inr _, w1) \<Rightarrow> (Inl StartLoad, w1))
      | StartLoad \<Rightarrow>
          (case on_fs (ks_load (e_ks env) (keystore_path cfg)) w of
             (Inl e, w1) \<Rightarrow> (Inr (Inl (FromKeystore e)), w1)
           | (Inr None, w1) \<Rightarrow> (Inr (Inl (Anyhow ''no keystore'')), w1)
           | (Inr (Some c), w1) \<Rightarrow> (Inl (StartBuild c), w1))
      | StartBuild c \<Rightarrow>
          (case map_err (\<lambda>e. Context ''loading device identity from keystore'' (FromCrypto e))
                  (device_from_bytes (e_rcgen env) (e_x509 env) (device_identity_bytes c)) of
             Inl e \<Rightarrow> (Inr (Inl e), w)
           | Inr i \<Rightarrow> (case on_os (h_prepare hs) w of (_, w1) \<Rightarrow> (Inr (Inr (with_handlers c i cfg hs)), w1))))"

fun start_rank :: "start_point \<Rightarrow> nat" where
  "start_rank StartDir = 2"
| "start_rank StartLoad = 1"
| "start_rank (StartBuild c) = 0"

lemma start_advance_rank:
  "start_advance env cfg hs p w = (Inl p', w') \<Longrightarrow> start_rank p' < start_rank p"
  by (auto simp: start_advance_def split: start_point.splits prod.splits sum.splits option.splits)

function start_run ::
    "daemon_env \<Rightarrow> Config \<Rightarrow> 'o Handlers \<Rightarrow> start_point \<Rightarrow> 'o world \<Rightarrow> (anyhow_error + 'o SharedState) \<times> 'o world" where
  "start_run env cfg hs p w =
     (case start_advance env cfg hs p w of
        (Inl p', w') \<Rightarrow> start_run env cfg hs p' w'
      | (Inr r, w') \<Rightarrow> (r, w'))"
  by pat_completeness auto
termination by (relation "measure (\<lambda>(env, cfg, hs, p, w). start_rank p)") (auto dest: start_advance_rank [OF sym])

declare start_run.simps [simp del]

text \<open>The segments, run alone, are the start of the server.\<close>

lemma start_segments: "start_run env cfg hs StartDir w = server_start env cfg hs w"
proof -
  have build: "start_run env cfg hs (StartBuild c) w2 =
      (case map_err (\<lambda>e. Context ''loading device identity from keystore'' (FromCrypto e))
          (device_from_bytes (e_rcgen env) (e_x509 env) (device_identity_bytes c)) of
         Inl e \<Rightarrow> (Inl e, w2)
       | Inr i \<Rightarrow> (case on_os (h_prepare hs) w2 of (_, w3) \<Rightarrow> (Inr (with_handlers c i cfg hs), w3)))" for c w2
    by (simp add: start_run.simps [of _ _ _ "StartBuild c"] start_advance_def split: sum.split prod.split)
  have load: "start_run env cfg hs StartLoad w1 =
      (case on_fs (ks_load (e_ks env) (keystore_path cfg)) w1 of
         (Inl e, w2) \<Rightarrow> (Inl (FromKeystore e), w2)
       | (Inr None, w2) \<Rightarrow> (Inl (Anyhow ''no keystore''), w2)
       | (Inr (Some c), w2) \<Rightarrow> start_run env cfg hs (StartBuild c) w2)" for w1
    by (simp add: start_run.simps [of _ _ _ StartLoad] start_advance_def split: sum.split prod.split option.split)
  show ?thesis
    by (simp add: start_run.simps [of _ _ _ StartDir] start_advance_def server_start_def load build
        split: sum.split prod.split option.split)
qed

lemma start_in_segments:
  assumes "server_start env cfg hs w = (Inr st, w')"
  shows "\<exists>w1 w2 c. start_advance env cfg hs StartDir w = (Inl StartLoad, w1)
     \<and> start_advance env cfg hs StartLoad w1 = (Inl (StartBuild c), w2)
     \<and> start_advance env cfg hs (StartBuild c) w2 = (Inr (Inr st), w')"
proof -
  obtain u w1 where d: "on_fs (ensure_data_dir (data_dir cfg)) w = (Inr u, w1)"
    using assms by (auto simp: server_start_def split: prod.splits sum.splits)
  obtain c w2 where l: "on_fs (ks_load (e_ks env) (keystore_path cfg)) w1 = (Inr (Some c), w2)"
    using assms d by (auto simp: server_start_def split: prod.splits sum.splits option.splits)
  have "start_advance env cfg hs (StartBuild c) w2 = (Inr (Inr st), w')"
    using assms d l by (auto simp: server_start_def start_advance_def split: prod.splits sum.splits)
  with d l show ?thesis
    by (intro exI [of _ w1] exI [of _ w2] exI [of _ c]) (simp add: start_advance_def)
qed

text \<open>No segment of it changes a file, and the copy it goes on with was on the disk when it was read.\<close>

lemma start_advance_files:
  assumes "start_advance env cfg hs p w = (r, w')"
  shows "files (w_fs w') = files (w_fs w)"
proof (cases p)
  case StartDir
  obtain d w1 where d: "on_fs (ensure_data_dir (data_dir cfg)) w = (d, w1)" by fastforce
  with assms StartDir have "w' = w1" by (auto simp: start_advance_def split: sum.splits)
  with on_fs_pair [OF d] show ?thesis by simp
next
  case StartLoad
  obtain x w1 where l: "on_fs (ks_load (e_ks env) (keystore_path cfg)) w = (x, w1)" by fastforce
  with assms StartLoad have "w' = w1" by (auto simp: start_advance_def split: sum.splits option.splits)
  with on_fs_pair [OF l] show ?thesis by simp
next
  case (StartBuild c)
  with assms show ?thesis by (auto simp: start_advance_def on_os_def split: sum.splits prod.splits)
qed

lemma start_advance_copy:
  assumes "start_advance env cfg hs p w = (Inl (StartBuild c), w')"
  shows "disk env cfg w = Inr (Some c)"
proof -
  have "p = StartLoad" using assms by (cases p) (auto simp: start_advance_def split: sum.splits prod.splits)
  with assms have l: "on_fs (ks_load (e_ks env) (keystore_path cfg)) w = (Inr (Some c), w')"
    by (auto simp: start_advance_def split: sum.splits prod.splits option.splits)
  show ?thesis
    using on_fs_pair [OF l] store.load_Inr [of "e_ks env" "keystore_path cfg" "w_fs w" "Some c"] by (simp add: disk_def)
qed

lemma start_advance_up:
  assumes "start_advance env cfg hs p w = (Inr (Inr st), w')"
  shows "\<exists>c i. p = StartBuild c \<and> st = with_handlers c i cfg hs"
  using assms by (cases p) (auto simp: start_advance_def split: sum.splits prod.splits option.splits)

end
