(* ===== verification/Machine_Awaits.thy ===== *)
theory Machine_Awaits
  imports Process_System Await_Properties Start_Awaits
begin

section \<open>The whole machine at its awaits\<close>

text \<open>
  The server and the command processes on one disk, all of them cut at their awaits: the connections of
  the server (\<open>Server_Awaits\<close>) with one process id and one temporary file for all of them, every
  command (\<open>Process_System\<close>) with its own. The server can be started, stopped or killed at any moment,
  by itself or by the machine going down; its start is cut at its awaits (\<open>Start_Awaits\<close>) like all else.
\<close>

record ('o, 'c) pc_machine =
  mc_system :: "('o, 'c conn) system"
  mc_pid :: nat
  mc_start :: "start_point option"
  mc_procs :: "(nat \<times> 'c proc) list"

text \<open>The process id of the server is taken.\<close>

definition serving_pid :: "('o, 'c) pc_machine \<Rightarrow> bool" where
  "serving_pid m \<longleftrightarrow> sy_server (mc_system m) \<noteq> None \<or> mc_start m \<noteq> None"

inductive machine_step ::
    "daemon_env \<Rightarrow> 'c tls_accept \<Rightarrow> Config \<Rightarrow> 'o Handlers \<Rightarrow> ('o, 'c) pc_machine \<Rightarrow> ('o, 'c) pc_machine \<Rightarrow> bool"
  for env tls_accept cfg hs where
  serving: "await_step (with_pid (mc_pid m) env) tls_accept wf_addr (mc_system m) s' \<Longrightarrow>
    machine_step env tls_accept cfg hs m (m\<lparr>mc_system := s'\<rparr>)"
| launched: "sy_server (mc_system m) = None \<Longrightarrow> mc_start m = None \<Longrightarrow> pid \<notin> set (map fst (mc_procs m)) \<Longrightarrow>
    machine_step env tls_accept cfg hs m (m\<lparr>mc_pid := pid, mc_start := Some StartDir\<rparr>)"
| starting: "mc_start m = Some p \<Longrightarrow>
    start_advance (with_pid (mc_pid m) env) cfg hs p (sy_world (mc_system m)) = (Inl p', w') \<Longrightarrow>
    machine_step env tls_accept cfg hs m (m\<lparr>mc_system := (mc_system m)\<lparr>sy_world := w'\<rparr>, mc_start := Some p'\<rparr>)"
| started: "mc_start m = Some p \<Longrightarrow>
    start_advance (with_pid (mc_pid m) env) cfg hs p (sy_world (mc_system m)) = (Inr (Inr st), w') \<Longrightarrow>
    machine_step env tls_accept cfg hs m (m\<lparr>mc_system := up st w', mc_start := None\<rparr>)"
| start_failed: "mc_start m = Some p \<Longrightarrow>
    start_advance (with_pid (mc_pid m) env) cfg hs p (sy_world (mc_system m)) = (Inr (Inl e), w') \<Longrightarrow>
    machine_step env tls_accept cfg hs m (m\<lparr>mc_system := (mc_system m)\<lparr>sy_world := w'\<rparr>, mc_start := None\<rparr>)"
| stopped: "machine_step env tls_accept cfg hs m
    (m\<lparr>mc_system := (mc_system m)\<lparr>sy_server := None, sy_tasks := []\<rparr>, mc_start := None\<rparr>)"
| running: "proc_step env tls_accept cfg (mc_procs m, sy_world (mc_system m)) (ps', w') \<Longrightarrow>
    (serving_pid m \<Longrightarrow> mc_pid m \<notin> set (map fst ps')) \<Longrightarrow>
    machine_step env tls_accept cfg hs m (m\<lparr>mc_system := (mc_system m)\<lparr>sy_world := w'\<rparr>, mc_procs := ps'\<rparr>)"

definition idle_machine :: "'o world \<Rightarrow> ('o, 'c) pc_machine" where
  "idle_machine w = \<lparr>mc_system = \<lparr>sy_server = None, sy_tasks = [], sy_world = w\<rparr>, mc_pid = 0,
     mc_start = None, mc_procs = []\<rparr>"

subsection \<open>A disk without failures stays one\<close>

definition calm :: "'o world \<Rightarrow> bool" where
  "calm w \<longleftrightarrow> io_script (w_fs w) = []"

definition calm_op :: "(fs \<Rightarrow> 'a \<times> fs) \<Rightarrow> bool" where
  "calm_op f \<longleftrightarrow> (\<forall>s. io_script s = [] \<longrightarrow> io_script (snd (f s)) = [])"

lemma calm_ops [simp]:
  "calm_op (fs_read p)" "calm_op (fs_write p x)" "calm_op (fs_rename p q)" "calm_op (fs_create_dir_all p)"
  by (auto simp: calm_op_def fs_read_def fs_write_def fs_rename_def fs_create_dir_all_def next_outcome_calm
      split: option.split)

lemma calm_daemon_ops [simp]: "calm_op (ks_load e p)" "calm_op (ensure_data_dir p)"
proof -
  show "calm_op (ks_load e p)"
    unfolding calm_op_def
  proof (intro allI impI)
    fix s :: fs assume "io_script s = []"
    then have "io_script (snd (fs_read p s)) = []" using calm_ops(1) [of p] by (simp add: calm_op_def)
    then show "io_script (snd (ks_load e p s)) = []"
      by (auto simp: ks_load_def split: prod.split sum.split io_error.split)
  qed
  show "calm_op (ensure_data_dir p)"
    using calm_ops(4) [of p] by (auto simp: calm_op_def ensure_data_dir_def split: prod.split sum.split)
qed

lemma calm_on_fs: "on_fs f w = (r, w') \<Longrightarrow> calm_op f \<Longrightarrow> calm w \<Longrightarrow> calm w'"
  using on_fs_pair [of f w r w'] by (simp add: calm_def calm_op_def)

lemma calm_same: "w_fs w' = w_fs w \<Longrightarrow> calm w' = calm w"
  by (simp add: calm_def)

lemma calm_require: "require_keystore env cfg w = (r, w') \<Longrightarrow> calm w \<Longrightarrow> calm w'"
  by (auto simp: require_keystore_def dest: calm_on_fs split: prod.splits sum.splits option.splits)

lemma calm_bootstrap: "bootstrap env cfg w = (r, w') \<Longrightarrow> calm w \<Longrightarrow> calm w'"
  by (auto simp: bootstrap_def dest: calm_on_fs split: prod.splits sum.splits option.splits)

lemma start_advance_calm:
  assumes "start_advance env cfg hs p w = (r, w')" "calm w"
  shows "calm w'"
proof (cases p)
  case StartDir
  then show ?thesis using assms by (auto simp: start_advance_def dest: calm_on_fs split: prod.splits sum.splits)
next
  case StartLoad
  then show ?thesis
    using assms by (auto simp: start_advance_def dest: calm_on_fs split: prod.splits sum.splits option.splits)
next
  case (StartBuild c)
  then have "w_fs w' = w_fs w" using assms(1) by (auto simp: start_advance_def dest: on_os_pair split: prod.splits sum.splits)
  then show ?thesis using assms(2) by (simp add: calm_def)
qed

lemma proc_advance_calm:
  assumes "proc_advance env tls_accept cfg p w = (p', w')" "calm w"
  shows "calm w'"
proof (cases p)
  case (LocalCommand e q)
  with assms show ?thesis
    by (cases q) (auto simp: proc_advance_def cmd_step_def calm_same [OF errand_change_files]
        dest: calm_require calm_on_fs split: prod.splits sum.splits option.splits)
next
  case (PairCommand bind q)
  with assms show ?thesis
    by (cases q) (auto simp: proc_advance_def pairing_advance_def calm_same [OF pairing_open_files] calm_same [OF window_event_files]
        dest: calm_bootstrap calm_on_fs split: prod.splits sum.splits)
qed

lemma proc_step_calm: "proc_step env tls_accept cfg s s' \<Longrightarrow> calm (snd s) \<Longrightarrow> calm (snd s')"
  by (induction rule: proc_step.induct) (auto dest: proc_advance_calm)

subsection \<open>The server under its process id\<close>

lemma sealed_by_pid [simp]: "sealed_by (with_pid pid env) cfg Q x = sealed_by env cfg Q x"
proof
  assume "sealed_by (with_pid pid env) cfg Q x"
  then show "sealed_by env cfg Q x" by (auto simp: sealed_by_def dest: save_begin_pid(2))
next
  assume "sealed_by env cfg Q x"
  then show "sealed_by (with_pid pid env) cfg Q x" 
    unfolding sealed_by_def using save_begin_pid(3) by blast
qed

lemma store_holds_pid [simp]: "store_holds (with_pid pid env) cfg Q f w = store_holds env cfg Q f w"
  by (simp add: store_holds_def)

lemma with_pid_ks_ok [simp]: "ks_ok (e_ks (with_pid pid env)) = ks_ok (e_ks env)"
  by (simp add: ks_ok_def)

lemma with_pid_rejects_cuts [simp]: "rejects_cuts (e_ks (with_pid pid env)) = rejects_cuts (e_ks env)"
  by (simp add: rejects_cuts_def)

lemma task_sealed_others:
  "task_sealed (with_pid pid env) cfg Q may w t \<Longrightarrow>
     files (w_fs w') (own_temp cfg pid) = files (w_fs w) (own_temp cfg pid) \<Longrightarrow> task_sealed (with_pid pid env) cfg Q may w' t"
  by (auto simp: task_sealed_def temp_holds_def temp_of_pid split: point.splits)

lemma task_sealed_mono:
  "(\<And>c. Q c \<Longrightarrow> R c) \<Longrightarrow> task_sealed env cfg Q may w t \<Longrightarrow> task_sealed env cfg R may w t"
  using sealed_by_mono [of Q R env cfg] part_sealed_mono [of Q R env cfg may]
  by (auto simp: task_sealed_def temp_holds_def split: point.splits option.splits)

text \<open>The laws for the whole machine: those of the commands and those of the server.\<close>

locale machine_law = contents_law env Q may allowed
  for env :: daemon_env and Q :: "nat \<Rightarrow> KeystoreContents \<Rightarrow> bool" and may :: disk_may
    and allowed :: "string \<Rightarrow> SpkiHash \<Rightarrow> bool" +
  assumes law_days: "Q n c \<Longrightarrow> Q n (c\<lparr>reauth_interval_days := d\<rparr>)"
    and law_ack: "Q n c \<Longrightarrow> Q n (c\<lparr>pairings := filter (\<lambda>p. client_spki p = h \<longrightarrow> \<not> revoked p) (pairings c)\<rparr>)"
    and law_address: "Q n c \<Longrightarrow> wf_addr a \<Longrightarrow> record_address h a (pairings c) = (ch, ps) \<Longrightarrow> Q n (c\<lparr>pairings := ps\<rparr>)"

sublocale machine_law \<subseteq> serve: kept_by_server "Q n"
  for n
  by unfold_locales (fact law_wf law_days law_ack law_address)+

context machine_law
begin

definition disk_ok :: "'o world \<Rightarrow> bool" where
  "disk_ok w \<longleftrightarrow> io_ok may w \<and> (may_break may \<longrightarrow> rejects_cuts (e_ks env))"

lemma disk_ok_calm: "(calm w \<Longrightarrow> calm w') \<Longrightarrow> disk_ok w \<Longrightarrow> disk_ok w'"
  by (auto simp: disk_ok_def io_ok_def calm_def)

definition server_ok :: "nat \<Rightarrow> Config \<Rightarrow> nat \<Rightarrow> ('o, 'c conn) system \<Rightarrow> bool" where
  "server_ok n cfg pid s \<longleftrightarrow>
     (if sy_server s = None then sy_tasks s = [] else serve.store.everywhere (with_pid pid env) cfg n may s)"

text \<open>A server that is starting is not up, and holds a copy with \<open>Q\<close> once it has read the disk.\<close>

definition start_fits :: "nat \<Rightarrow> ('o, 'c) pc_machine \<Rightarrow> bool" where
  "start_fits n m \<longleftrightarrow> (\<forall>p. mc_start m = Some p \<longrightarrow> sy_server (mc_system m) = None \<and> (\<forall>c. p = StartBuild c \<longrightarrow> Q n c))"

definition machine_ok :: "nat \<Rightarrow> Config \<Rightarrow> ('o, 'c) pc_machine \<Rightarrow> bool" where
  "machine_ok n cfg m \<longleftrightarrow> procs_ok n cfg (mc_procs m, sy_world (mc_system m)) \<and> disk_ok (sy_world (mc_system m))
     \<and> server_ok n cfg (mc_pid m) (mc_system m)
     \<and> (serving_pid m \<longrightarrow> mc_pid m \<notin> set (map fst (mc_procs m))) \<and> start_fits n m"

text \<open>What a segment of the server leaves alone.\<close>

lemma await_step_others:
  assumes "await_step (with_pid pid env) tls_accept wf_addr s s'"
    and "serve.store.everywhere (with_pid pid env) cfg n may s"
  shows "others_same cfg pid (sy_world s) (sy_world s')"
  using assms
proof (induction rule: await_step.induct)
  case (advanced s st xs c ys c' st' w')
  then have "server_store (with_pid pid env) cfg (Q n) may st (sy_world s)"
    "task_sealed (with_pid pid env) cfg (Q n) may (sy_world s) c"
    by (simp_all add: serve.store.everywhere_def server_holds_def serve.store.task_holds_def)
  from serve.advance_store [OF this advanced(3)] show ?case by (simp add: others_same_def temp_of_pid)
next
  case (finished s st xs c ys r t' st' w')
  then have "server_store (with_pid pid env) cfg (Q n) may st (sy_world s)"
    "task_sealed (with_pid pid env) cfg (Q n) may (sy_world s) c"
    by (simp_all add: serve.store.everywhere_def server_holds_def serve.store.task_holds_def)
  from serve.advance_store [OF this finished(3)] show ?case by (simp add: others_same_def temp_of_pid)
qed (simp_all add: others_same_def)

text \<open>What a step of the commands leaves alone.\<close>

lemma proc_step_others:
  assumes "decodes_wf env" "Suc n < 2 ^ 64" "proc_step env tls_accept cfg s s'" "procs_ok n cfg s"
    and "offers_allowed tls_accept (fst s) (fst s')" "b \<notin> set (map fst (fst s))"
  shows "files (w_fs (snd s')) (own_temp cfg b) = files (w_fs (snd s)) (own_temp cfg b)"
  using assms(3-6)
proof (induction rule: proc_step.induct)
  case (moved pid p w p' w' xs ys)
  then have "b \<noteq> pid" "offers_allowed tls_accept (xs @ (pid, p) # ys) (xs @ (pid, p') # ys)" by simp_all
  with proc_advance_run [OF assms(1,2) moved(2) _ moved(1)] show ?case by (auto simp: others_same_def)
qed simp_all

lemma everywhere_up:
  fixes s :: "('o, 'c conn) system"
  assumes "serve.store.everywhere env' cfg n may s"
  shows "serve.store.everywhere env' cfg (Suc n) may s"
proof -
  have t: "task_sealed env' cfg (Q (Suc n)) may w t" if "task_sealed env' cfg (Q n) may w t" for w :: "'o world" and t
    by (rule task_sealed_mono [OF law_mono that])
  have p: "server_store env' cfg (Q (Suc n)) may st w" if "server_store env' cfg (Q n) may st w"
    for st :: "'o SharedState" and w
    using that store_holds_mono [OF law_mono, where env = env' and cfg = cfg and f = may and w = w] law_mono
    by (simp add: server_store_def)
  show ?thesis
    using assms t p
    by (auto simp: serve.store.everywhere_def server_holds_def list_all_iff serve.store.task_holds_def split: conn.splits)
qed

lemma machine_okI:
  assumes "procs_ok n cfg (mc_procs m, sy_world (mc_system m))" "disk_ok (sy_world (mc_system m))"
    and "sy_server (mc_system m) = None \<Longrightarrow> sy_tasks (mc_system m) = []"
    and "sy_server (mc_system m) \<noteq> None \<Longrightarrow> serve.store.everywhere (with_pid (mc_pid m) env) cfg n may (mc_system m)"
    and "serving_pid m \<Longrightarrow> mc_pid m \<notin> set (map fst (mc_procs m))" "start_fits n m"
  shows "machine_ok n cfg m"
  using assms by (simp add: machine_ok_def server_ok_def)

lemma procs_ok_world:
  assumes "procs_ok n cfg (ps, w)" "files (w_fs w') = files (w_fs w)"
  shows "procs_ok n cfg (ps, w')"
  using assms store_holds_same [of w' cfg w env "Q n" may] by (auto simp: procs_ok_def proc_ok_def)

lemma procs_ok_up: "procs_ok n cfg s \<Longrightarrow> procs_ok (Suc n) cfg s"
  using holds_up proc_up by (fastforce simp: procs_ok_def)

lemma machine_ok_up: "machine_ok n cfg m \<Longrightarrow> machine_ok (Suc n) cfg m"
  using procs_ok_up everywhere_up law_mono by (auto simp: machine_ok_def server_ok_def start_fits_def)

lemma serving_ok:
  assumes "machine_ok n cfg m" "await_step (with_pid (mc_pid m) env) tls_accept wf_addr (mc_system m) s'"
  shows "machine_ok n cfg (m\<lparr>mc_system := s'\<rparr>)"
proof (cases "sy_server (mc_system m)")
  case None
  with assms(1) have "sy_tasks (mc_system m) = []" by (simp add: machine_ok_def server_ok_def)
  with assms(2) None show ?thesis by (auto elim: await_step.cases)
next
  case (Some st)
  with assms(1) have ok: "serve.store.everywhere (with_pid (mc_pid m) env) cfg n may (mc_system m)"
    "mc_pid m \<notin> set (map fst (mc_procs m))" "procs_ok n cfg (mc_procs m, sy_world (mc_system m))" "mc_start m = None"
    by (auto simp: machine_ok_def server_ok_def serving_pid_def start_fits_def)
  have ok': "serve.store.everywhere (with_pid (mc_pid m) env) cfg n may s'"
    by (rule serve.store.await_step_inv [OF assms(2) ok(1)])
  then obtain st' where st': "sy_server s' = Some st'" "disk_ok (sy_world s')" "store_holds env cfg (Q n) may (sy_world s')"
    by (auto simp: serve.store.everywhere_def server_holds_def server_store_def disk_ok_def)
  have "procs_ok n cfg (mc_procs m, sy_world s')"
    using ok(2,3) st'(3) proc_ok_others [OF _ await_step_others [OF assms(2) ok(1)]]
    by (fastforce simp: procs_ok_def)
  with st' ok' ok(2,4) show ?thesis by (intro machine_okI) (simp_all add: start_fits_def)
qed

lemma running_ok:
  assumes "decodes_wf env" "Suc n < 2 ^ 64" "machine_ok n cfg m"
    and "proc_step env tls_accept cfg (mc_procs m, sy_world (mc_system m)) (ps', w')"
    and "serving_pid m \<Longrightarrow> mc_pid m \<notin> set (map fst ps')" "offers_allowed tls_accept (mc_procs m) ps'"
  shows "machine_ok (Suc n) cfg (m\<lparr>mc_system := (mc_system m)\<lparr>sy_world := w'\<rparr>, mc_procs := ps'\<rparr>)"
proof -
  have ok: "procs_ok n cfg (mc_procs m, sy_world (mc_system m))" "disk_ok (sy_world (mc_system m))"
    "server_ok n cfg (mc_pid m) (mc_system m)" "start_fits n m"
    using assms(3) by (simp_all add: machine_ok_def)
  have p: "procs_ok (Suc n) cfg (ps', w')" using proc_step_keeps [OF assms(1,2,4) ok(1)] assms(6) by simp
  have c: "disk_ok w'" by (rule disk_ok_calm [OF _ ok(2)]) (use proc_step_calm [OF assms(4)] in simp)
  have "serve.store.everywhere (with_pid (mc_pid m) env) cfg (Suc n) may ((mc_system m)\<lparr>sy_world := w'\<rparr>)"
    if "sy_server (mc_system m) \<noteq> None"
  proof -
    let ?e = "with_pid (mc_pid m) env"
    have up: "serve.store.everywhere ?e cfg (Suc n) may (mc_system m)"
      using ok(3) that by (intro everywhere_up) (simp add: server_ok_def)
    have "mc_pid m \<notin> set (map fst (mc_procs m))" using assms(3) that by (simp add: machine_ok_def serving_pid_def)
    then have "files (w_fs w') (own_temp cfg (mc_pid m)) = files (w_fs (sy_world (mc_system m))) (own_temp cfg (mc_pid m))"
      using proc_step_others [OF assms(1,2,4) ok(1)] assms(6) by simp
    then have t: "task_sealed ?e cfg (Q (Suc n)) may w' t" if "task_sealed ?e cfg (Q (Suc n)) may (sy_world (mc_system m)) t" for t
      by (rule task_sealed_others [OF that])
    have "store_holds env cfg (Q (Suc n)) may w'" using p by (simp add: procs_ok_def)
    with up t c show ?thesis
      by (auto simp: serve.store.everywhere_def server_holds_def server_store_def disk_ok_def list_all_iff
          serve.store.task_holds_def split: conn.splits)
  qed
  moreover have "start_fits (Suc n) (m\<lparr>mc_system := (mc_system m)\<lparr>sy_world := w'\<rparr>, mc_procs := ps'\<rparr>)"
    using ok(4) law_mono by (auto simp: start_fits_def)
  ultimately show ?thesis
    using p c ok(3) assms(5) by (intro machine_okI) (simp_all add: server_ok_def serving_pid_def split: if_splits)
qed

text \<open>The steps of a start.\<close>

lemma start_step:
  assumes "machine_ok n cfg m" "mc_start m = Some p"
    and "start_advance (with_pid (mc_pid m) env) cfg hs p (sy_world (mc_system m)) = (r, w')"
  shows "procs_ok n cfg (mc_procs m, w')" "disk_ok w'" "sy_server (mc_system m) = None" "sy_tasks (mc_system m) = []"
    "mc_pid m \<notin> set (map fst (mc_procs m))"
    "r = Inl (StartBuild c) \<Longrightarrow> Q n c" "r = Inr (Inr st) \<Longrightarrow> Q n (contents st) \<and> config st = cfg"
proof -
  have ok: "procs_ok n cfg (mc_procs m, sy_world (mc_system m))" "disk_ok (sy_world (mc_system m))"
    "server_ok n cfg (mc_pid m) (mc_system m)" "start_fits n m" "serving_pid m \<longrightarrow> mc_pid m \<notin> set (map fst (mc_procs m))"
    using assms(1) by (simp_all add: machine_ok_def)
  show "procs_ok n cfg (mc_procs m, w')" by (rule procs_ok_world [OF ok(1) start_advance_files [OF assms(3)]])
  show "disk_ok w'" by (rule disk_ok_calm [OF start_advance_calm [OF assms(3)] ok(2)])
  show "sy_server (mc_system m) = None" using ok(4) assms(2) by (simp add: start_fits_def)
  with ok(3) show "sy_tasks (mc_system m) = []" by (simp add: server_ok_def)
  show "mc_pid m \<notin> set (map fst (mc_procs m))" using ok(5) assms(2) by (simp add: serving_pid_def)
  show "Q n c" if "r = Inl (StartBuild c)"
    using start_advance_copy [OF assms(3) [unfolded that]] ok(1) by (auto simp: procs_ok_def store_holds_def)
  show "Q n (contents st) \<and> config st = cfg" if "r = Inr (Inr st)"
    using start_advance_up [OF assms(3) [unfolded that]] ok(4) assms(2) by (auto simp: start_fits_def with_handlers_def)
qed

lemma started_ok:
  assumes "machine_ok n cfg m" "mc_start m = Some p"
    and "start_advance (with_pid (mc_pid m) env) cfg hs p (sy_world (mc_system m)) = (Inr (Inr st), w')"
  shows "machine_ok n cfg (m\<lparr>mc_system := up st w', mc_start := None\<rparr>)"
proof -
  note s = start_step [OF assms]
  have "server_store (with_pid (mc_pid m) env) cfg (Q n) may st w'"
    using s(1,2,7) by (auto simp: server_store_def procs_ok_def disk_ok_def)
  from serve.store.everywhere_up [OF this] show ?thesis
    using s by (intro machine_okI) (auto simp: up_def start_fits_def)
qed

lemma machine_ok_keystore:
  "machine_ok n cfg m \<Longrightarrow> store_holds env cfg (Q n) may (sy_world (mc_system m))
     \<and> (\<forall>st. sy_server (mc_system m) = Some st \<longrightarrow> Q n (contents st))"
  by (auto simp: machine_ok_def procs_ok_def server_ok_def serve.store.everywhere_def server_holds_def server_store_def)

lemma machine_step_ok:
  assumes "decodes_wf env" "Suc n < 2 ^ 64"
  shows "machine_step env tls_accept cfg hs m m' \<Longrightarrow> machine_ok n cfg m \<Longrightarrow>
     offers_allowed tls_accept (mc_procs m) (mc_procs m') \<Longrightarrow> machine_ok (Suc n) cfg m'"
proof (induction rule: machine_step.induct)
  case (serving m s')
  then show ?case using machine_ok_up [OF serving_ok] by blast
next
  case (launched m pid)
  then have "machine_ok n cfg (m\<lparr>mc_pid := pid, mc_start := Some StartDir\<rparr>)"
    by (intro machine_okI) (simp_all add: machine_ok_def server_ok_def start_fits_def)
  then show ?case by (rule machine_ok_up)
next
  case (starting m p p' w')
  from start_step [OF starting(3,1,2)] have "machine_ok n cfg (m\<lparr>mc_system := (mc_system m)\<lparr>sy_world := w'\<rparr>, mc_start := Some p'\<rparr>)"
    by (intro machine_okI) (simp_all add: start_fits_def)
  then show ?case by (rule machine_ok_up)
next
  case (started m p st w')
  from started_ok [OF started(3,1,2)] show ?case by (rule machine_ok_up)
next
  case (start_failed m p e w')
  from start_step [OF start_failed(3,1,2)] have "machine_ok n cfg (m\<lparr>mc_system := (mc_system m)\<lparr>sy_world := w'\<rparr>, mc_start := None\<rparr>)"
    by (intro machine_okI) (simp_all add: start_fits_def serving_pid_def)
  then show ?case by (rule machine_ok_up)
next
  case (stopped m)
  then have "machine_ok n cfg (m\<lparr>mc_system := (mc_system m)\<lparr>sy_server := None, sy_tasks := []\<rparr>, mc_start := None\<rparr>)"
    by (intro machine_okI) (simp_all add: machine_ok_def start_fits_def serving_pid_def)
  then show ?case by (rule machine_ok_up)
next
  case (running m ps' w')
  from running(4) have "offers_allowed tls_accept (mc_procs m) ps'" by simp
  with running_ok [OF assms running(3,1,2)] show ?case by blast
qed

lemma machine_run_ok:
  assumes "decodes_wf env" "machine_ok k cfg (f 0)" "k + n < 2 ^ 64"
    and "\<And>i. i < n \<Longrightarrow> machine_step env tls_accept cfg hs (f i) (f (Suc i))
      \<and> offers_allowed tls_accept (mc_procs (f i)) (mc_procs (f (Suc i)))"
  shows "machine_ok (k + n) cfg (f n)"
  using assms(3,4)
proof (induction n)
  case 0
  then show ?case using assms(2) by simp
next
  case (Suc n)
  then have "machine_ok (k + n) cfg (f n)" by simp
  with machine_step_ok [OF assms(1), of "k + n" tls_accept cfg hs "f n" "f (Suc n)"] Suc.prems show ?case by simp
qed

end

subsection \<open>Well-formed keystores of one device\<close>

lemma address_phones:
  assumes "record_address h a ps = (ch, ps')"
  shows "phone_of ` set ps' = phone_of ` set ps"
proof -
  have "record_address h a ps = (ch, ps') \<Longrightarrow> map phone_of ps' = map phone_of ps"
    by (induction ps arbitrary: ch ps') (auto simp: map_prod_def phone_of_def split: if_splits prod.splits)
  from arg_cong [OF this [OF assms], of set] show ?thesis by simp
qed

interpretation whole: machine_law env "kept_from allowed old" "kept_may env old broken" allowed
  for env allowed old broken
proof (unfold_locales, goal_cases)
  case (1 n c d)
  then show ?case by (rule kept_from_same) (use 1 in \<open>simp_all add: kept_from_def\<close>)
next
  case (2 n c h)
  then show ?case
    by (rule kept_from_same) (use 2 in \<open>auto simp: kept_from_def intro: keystore_bound_updates(3)\<close>)
next
  case (3 n c a h ch ps)
  have "keystore_bound n (c\<lparr>pairings := ps\<rparr>)"
    using keystore_bound_address [OF _ 3(2,3)] 3(1) by (simp add: kept_from_def)
  with 3(1) show ?case by (rule kept_from_same) (simp_all add: address_phones [OF 3(3)])
qed

lemma machine_run:
  assumes "ks_ok (e_ks env)" "decodes_wf env" "identity_lengths env"
    and "disk env cfg w = Inr old" "io_script (w_fs w) = [] \<or> rejects_cuts (e_ks env)" "start_ok m old" "m + n < 2 ^ 64"
    and "f 0 = idle_machine w" "\<And>i. i < n \<Longrightarrow> machine_step env tls_accept cfg hs (f i) (f (Suc i))"
    and "\<And>i name h. i < n \<Longrightarrow> lets_in env tls_accept (mc_procs (f i)) (mc_procs (f (Suc i))) name h \<Longrightarrow> allowed name h"
  shows "store_holds env cfg (kept_from allowed old (m + n)) (kept_may env old (io_script (w_fs w) \<noteq> [])) (sy_world (mc_system (f n)))
     \<and> (\<forall>st. sy_server (mc_system (f n)) = Some st \<longrightarrow> kept_from allowed old (m + n) (contents st))"
proof -
  let ?broken = "io_script (w_fs w) \<noteq> []"
  have "whole.machine_ok env allowed old ?broken m cfg (f 0)"
    using kept_start [OF assms(4,6,3), where broken = ?broken and allowed = allowed] assms(1,5)
    unfolding whole.machine_ok_def kept.procs_ok_def whole.server_ok_def whole.disk_ok_def whole.start_fits_def
    by (auto simp: assms(8) idle_machine_def io_ok_def kept_may_def serving_pid_def)
  then have "whole.machine_ok env allowed old ?broken (m + n) cfg (f n)"
    by (rule whole.machine_run_ok [where f = f and tls_accept = tls_accept and hs = hs, OF assms(2) _ assms(7)])
      (use assms(9,10) in \<open>auto simp: kept.offers_allowed_def\<close>)
  then show ?thesis by (rule whole.machine_ok_keystore)
qed

text \<open>
  C7: The whole machine keeps a keystore: with the server started, stopped and killed at any time, its
  connections and any number of command processes interleaved at every await (all the saves of the
  server sharing one temporary file, those of the commands having their own), at every moment the
  disk holds no keystore where there was none, or a complete well-formed one that lists no phone's key
  twice and has the private key and certificate of the keystore at the start; and so has the memory
  of the running server. If calls to the file system fail, the keystore may also become one that
  cannot be read, and nothing else, since the platform refuses a cut ciphertext.
\<close>
theorem machine_keeps_a_keystore:
  assumes "ks_ok (e_ks env)" "decodes_wf env" "identity_lengths env"
    and "disk env cfg w = Inr old" "io_script (w_fs w) = [] \<or> rejects_cuts (e_ks env)" "start_ok m old"
    and "(machine_step env tls_accept cfg hs ^^ n) (idle_machine w) s" "m + n < 2 ^ 64"
  shows "(case disk env cfg (sy_world (mc_system s)) of
        Inl e \<Rightarrow> io_script (w_fs w) \<noteq> []
      | Inr None \<Rightarrow> old = None
      | Inr (Some c) \<Rightarrow> wf_contents c
           \<and> distinct (map client_spki (pairings c)) \<and> length (pairings c) \<le> m + n
           \<and> (\<forall>k. old = Some k \<longrightarrow> device_identity_bytes c = device_identity_bytes k))
     \<and> (\<forall>st. sy_server (mc_system s) = Some st \<longrightarrow> wf_contents (contents st)
           \<and> distinct (map client_spki (pairings (contents st)))
           \<and> (\<forall>k. old = Some k \<longrightarrow> device_identity_bytes (contents st) = device_identity_bytes k))"
proof -
  obtain f where f: "f 0 = idle_machine w" "f n = s" "\<And>i. i < n \<Longrightarrow> machine_step env tls_accept cfg hs (f i) (f (Suc i))"
    using assms(7) unfolding relpowp_fun_conv by blast
  note run = machine_run [where allowed = "\<lambda>name h. True" and f = f, OF assms(1-6,8) f(1,3) TrueI, unfolded f(2)]
  from kept_store [OF conjunct1 [OF run]] conjunct2 [OF run] show ?thesis
    by (auto simp: kept_from_def keystore_bound_def)
qed

text \<open>
  C4: Nobody gets in without a printed code: along every run of the whole machine (server, connections
  and command processes interleaved at every await, started and killed at any time), each phone listed
  in the keystore on disk or in the memory of the server was listed in the keystore at the start, under
  the same name and key, or was let in at a step of the run: a pairing command that was waiting in its
  window, its handshake still open for the code it had printed, took a connection of its listener whose
  TLS handshake gave a stream with a certificate of that key, and whose first frame on that stream was
  the pairing frame with that name and that code. If calls to the file system fail, this needs that the
  platform refuses a cut ciphertext.
\<close>
theorem only_a_printed_code_lets_in:
  assumes "ks_ok (e_ks env)" "decodes_wf env" "identity_lengths env"
    and "disk env cfg w = Inr old" "io_script (w_fs w) = [] \<or> rejects_cuts (e_ks env)" "start_ok m old" "m + n < 2 ^ 64"
    and "f 0 = idle_machine w" "\<And>i. i < n \<Longrightarrow> machine_step env tls_accept cfg hs (f i) (f (Suc i))"
    and "disk env cfg (sy_world (mc_system (f n))) = Inr (Some c)
       \<or> (\<exists>st. sy_server (mc_system (f n)) = Some st \<and> contents st = c)"
    and "p \<in> set (pairings c)"
  shows "(\<exists>k. old = Some k \<and> (\<exists>q \<in> set (pairings k). phone_name q = phone_name p \<and> client_spki q = client_spki p))
     \<or> (\<exists>i < n. lets_in env tls_accept (mc_procs (f i)) (mc_procs (f (Suc i))) (phone_name p) (client_spki p))"
proof -
  let ?allowed = "\<lambda>name h. \<exists>i < n. lets_in env tls_accept (mc_procs (f i)) (mc_procs (f (Suc i))) name h"
  have "?allowed name h" if "i < n" "lets_in env tls_accept (mc_procs (f i)) (mc_procs (f (Suc i))) name h" for i name h
    using that by blast
  from machine_run [where allowed = ?allowed, OF assms(1-9) this]
  have "kept_from ?allowed old (m + n) c"
    using assms(10) by (auto simp: store_holds_def)
  with assms(11) have "entitled ?allowed old (phone_of p)" by (simp add: kept_from_def)
  then show ?thesis by (auto simp: entitled_def phone_of_def)
qed

end
