(* ===== verification/Process_Updates.thy ===== *)
theory Process_Updates
  imports Process_System
begin

section \<open>What the command processes do to each other\<close>

text \<open>
  The keystore is always complete, but a change can be lost: every command writes back the copy it
  loaded. The pairing command keeps its copy longest, for as long as the window is open.
\<close>

abbreviation proc_steps where "proc_steps env tls_accept cfg \<equiv> (proc_step env tls_accept cfg)\<^sup>*\<^sup>*"

text \<open>A process that runs alone takes its segments as steps of the system.\<close>

lemma command_alone:
  "cmd_run (with_pid pid env) cfg e n (q, w) = (q', w') \<Longrightarrow>
     (proc_step env tls_accept cfg ^^ n) (xs @ (pid, LocalCommand e q) # ys, w) (xs @ (pid, LocalCommand e q') # ys, w')"
proof (induction n arbitrary: q' w')
  case (Suc n)
  obtain q1 w1 where r: "cmd_run (with_pid pid env) cfg e n (q, w) = (q1, w1)" by fastforce
  then have "cmd_step (with_pid pid env) cfg e q1 w1 = (q', w')" using Suc.prems by (simp add: cmd_run_def)
  then have "proc_step env tls_accept cfg (xs @ (pid, LocalCommand e q1) # ys, w1) (xs @ (pid, LocalCommand e q') # ys, w')"
    by (intro proc_step.moved) (simp add: proc_advance_def)
  with Suc.IH [OF r] show ?case by auto
qed (simp add: cmd_run_def)

lemma errand_alone:
  "run_errand (with_pid pid env) cfg e w = (r, out, w') \<Longrightarrow>
     (proc_step env tls_accept cfg ^^ 4) (xs @ (pid, LocalCommand e ToLoad) # ys, w) (xs @ (pid, LocalCommand e (CmdEnded r out)) # ys, w')"
  by (rule command_alone) (simp add: cmd_run_errand)

lemma pairing_moves:
  "pairing_advance (with_pid pid env) tls_accept bind cfg q w = (q', w') \<Longrightarrow>
     proc_step env tls_accept cfg (xs @ (pid, PairCommand bind q) # ys, w) (xs @ (pid, PairCommand bind q') # ys, w')"
  by (intro proc_step.moved) (simp add: proc_advance_def)

lemma pairing_alone:
  "pairing_run (with_pid pid env) tls_accept bind cfg q w = (r, code, w') \<Longrightarrow> pair_phase q = 0 \<Longrightarrow>
     \<exists>n \<le> events_left q. (proc_step env tls_accept cfg ^^ n) (xs @ (pid, PairCommand bind q) # ys, w)
       (xs @ (pid, PairCommand bind (PairEnded r code)) # ys, w')"
proof (induction "events_left q" arbitrary: q w rule: less_induct)
  case (less q w)
  show ?case
  proof (cases "pair_ended q")
    case True
    then obtain r' c' where "q = PairEnded r' c'" by (cases q) simp_all
    with less.prems(1) show ?thesis by (intro exI [of _ 0]) simp
  next
    case False
    obtain q1 w1 where a: "pairing_advance (with_pid pid env) tls_accept bind cfg q w = (q1, w1)" by fastforce
    with less.prems(1) False have r: "pairing_run (with_pid pid env) tls_accept bind cfg q1 w1 = (r, code, w')"
      by (simp add: pairing_run_on)
    have "q \<noteq> PairEnded r' c'" for r' c' using False by auto
    from pairing_advance_left [OF a this] less.prems(2) have l: "pair_phase q1 = 0" "events_left q1 < events_left q"
      by simp_all
    from less.hyps [OF l(2) r l(1)] obtain n where n: "n \<le> events_left q1"
      "(proc_step env tls_accept cfg ^^ n) (xs @ (pid, PairCommand bind q1) # ys, w1)
         (xs @ (pid, PairCommand bind (PairEnded r code)) # ys, w')" by blast
    from relpowp_Suc_I2 [OF pairing_moves [OF a] n(2)] n(1) l(2) show ?thesis by (intro exI [of _ "Suc n"]) simp
  qed
qed

text \<open>
  A window that was opened on the copy \<open>c\<close> and ends in success leaves \<open>c\<close> with the new phone on disk,
  whatever was there when it closed.
\<close>

lemma window_writes_its_copy:
  assumes "ks_ok (e_ks env)" "decodes_wf env" "wf_contents c" "Suc (length (pairings c)) < 2 ^ 64"
    and "pairing_open env bind cfg c w = (PairWaiting v, w1)"
    and "pairing_run env tls_accept bind cfg (PairWaiting v) w2 = (Some (Inr ()), code, w3)"
  shows "\<exists>r n. code = Some n \<and> disk env cfg w3 = Inr (Some (add_pairing (from_core r) c))
     \<and> offered_in env tls_accept (wd_acceptor v) (wd_events v) (pr_phone_name r) n (pr_client_spki r)"
proof -
  obtain hs w' where ow: "open_window env w = Some (Inr (wd_code v), hs, w')" "wd_handshake v = hs" "wd_contents v = c"
    using assms(5) by (auto simp: pairing_open_def split: sum.splits option.splits prod.splits)
  let ?heard = "offered_in env tls_accept (wd_acceptor v) (wd_events v)"
  from open_window_cases [OF ow(1)] ow(2,3)
  have inv: "window_inv env cfg (disk env cfg w2) c ?heard (wd_code v) (window_state v w2)"
    by (simp add: window_inv_def window_state_def disk_of_def)
  obtain ps where lp: "pair_loop env tls_accept (wd_acceptor v) cfg (wd_events v) (window_state v w2) = (Some (Inr ()), ps)"
    "w3 = p_world ps" "code = Some (wd_code v)"
    using assms(6) by (auto simp: pairing_run_window loop_result_def split: prod.splits)
  from pair_loop_inv [OF assms(1-4) inv lp(1)] lp show ?thesis by (auto simp: window_inv_def disk_of_def)
qed

lemma active_after_pairing:
  assumes "p \<in> set (pairings c)" "is_active p" "client_spki p \<noteq> pr_client_spki r"
  shows "active_pairing (add_pairing (from_core r) c) (client_spki p) \<noteq> None"
proof -
  have "p \<in> set (pairings (add_pairing (from_core r) c))" using assms(1,3) by (simp add: add_pairing_def from_core_def)
  with assms(2) show ?thesis by (auto simp: active_pairing_def find_None_iff)
qed

lemma with_pid_ok [simp]: "ks_ok (e_ks (with_pid pid env)) = ks_ok (e_ks env)" "decodes_wf (with_pid pid env) = decodes_wf env"
  by (simp_all add: ks_ok_def decodes_wf_def)

text \<open>
  C23: A pairing undoes a revocation that was made while its window was open: the pairing command wrote
  down its copy of the keystore before the window, so when phone \<open>p\<close> is revoked by name during the
  window (the command succeeds, says so, and the disk has the phone revoked) and then another phone
  pairs, both processes report success, and the disk is the copy with the new phone added: \<open>p\<close> is
  an active pairing again, and the next start of the server lets it in.
\<close>
theorem pairing_undoes_a_revocation:
  assumes "ks_ok (e_ks env)" "decodes_wf env" "wf_contents c" "Suc (length (pairings c)) < 2 ^ 64"
    and "disk env cfg w = Inr (Some c)"
    and "pairing_open (with_pid a env) bind cfg c w = (PairWaiting v, w1)"
    and "run_errand (with_pid b env) cfg (RevokeErrand name) w1 = (Inr (), out, w2)"
    and "pairing_run (with_pid a env) tls_accept bind cfg (PairWaiting v) w2 = (Some (Inr ()), code, w3)"
    and "p \<in> set (pairings c)" "is_active p" "phone_name p = name"
  shows "proc_steps env tls_accept cfg ([(a, PairCommand bind (PairOpen c)), (b, LocalCommand (RevokeErrand name) ToLoad)], w)
       ([(a, PairCommand bind (PairEnded (Some (Inr ())) code)), (b, LocalCommand (RevokeErrand name) (CmdEnded (Inr ()) out))], w3)
     \<and> out = [RevokedLine name]
     \<and> disk env cfg w2 = Inr (Some (mark_revoked (\<lambda>p. phone_name p = name) c))
     \<and> (\<exists>r. disk env cfg w3 = Inr (Some (add_pairing (from_core r) c))
          \<and> (client_spki p \<noteq> pr_client_spki r \<longrightarrow>
               active_pairing (add_pairing (from_core r) c) (client_spki p) \<noteq> None))"
proof -
  let ?R = "RevokeErrand name"
  have "proc_step env tls_accept cfg ([(a, PairCommand bind (PairOpen c)), (b, LocalCommand ?R ToLoad)], w)
      ([(a, PairCommand bind (PairWaiting v)), (b, LocalCommand ?R ToLoad)], w1)"
    using pairing_moves [of a env tls_accept bind cfg "PairOpen c" w "PairWaiting v" w1 "[]"] assms(6)
    by (simp add: pairing_advance_def)
  moreover have "proc_steps env tls_accept cfg ([(a, PairCommand bind (PairWaiting v)), (b, LocalCommand ?R ToLoad)], w1)
      ([(a, PairCommand bind (PairWaiting v)), (b, LocalCommand ?R (CmdEnded (Inr ()) out))], w2)"
    using errand_alone [OF assms(7), of tls_accept "[(a, PairCommand bind (PairWaiting v))]" "[]"]
    by (simp add: relpowp_imp_rtranclp)
  moreover have "proc_steps env tls_accept cfg ([(a, PairCommand bind (PairWaiting v)), (b, LocalCommand ?R (CmdEnded (Inr ()) out))], w2)
      ([(a, PairCommand bind (PairEnded (Some (Inr ())) code)), (b, LocalCommand ?R (CmdEnded (Inr ()) out))], w3)"
    using pairing_alone [OF assms(8), of "[]"] by (auto dest: relpowp_imp_rtranclp)
  ultimately have run: "proc_steps env tls_accept cfg ([(a, PairCommand bind (PairOpen c)), (b, LocalCommand ?R ToLoad)], w)
      ([(a, PairCommand bind (PairEnded (Some (Inr ())) code)), (b, LocalCommand ?R (CmdEnded (Inr ()) out))], w3)"
    by (meson converse_rtranclp_into_rtranclp rtranclp_trans)
  have "w_fs w1 = w_fs w"
    by (rule pairing_open_files [OF assms(6)])
  then have "disk env cfg w1 = Inr (Some c)" using assms(5) by (simp add: disk_def)
  then have d: "disk (with_pid b env) cfg w1 = Inr (Some c)" by simp
  from revoke_command_rewrites [OF _ d assms(3)] assms(1,7)
  have "out = [RevokedLine name] \<and> disk env cfg w2 = Inr (Some (mark_revoked (\<lambda>p. phone_name p = name) c))"
    by (simp add: run_errand_def ks_rewritten_def)
  moreover obtain r where "disk env cfg w3 = Inr (Some (add_pairing (from_core r) c))"
    using window_writes_its_copy [OF _ _ assms(3,4,6,8)] assms(1,2) by auto
  ultimately show ?thesis using run active_after_pairing [OF assms(9,10)] by blast
qed

end
