(* ===== verification/Machine_Run.thy ===== *)
theory Machine_Run
  imports Machine_Awaits Process_Updates
begin

section \<open>Processes, evaluated\<close>

text \<open>
  Alice's daemon with processes beside each other: the process 8 revokes Alice while the process 7 is the
  server, or a pairing command whose window is open and which pairs Bob afterwards.
\<close>

lemma with_pid_sample: "e_ks (with_pid pid sample_daemon) = sample_env pid" "with_pid 7 sample_daemon = sample_daemon"
  by (simp_all add: with_pid_def sample_daemon_def sample_env_def)

lemma sample_load_pid: "ks_load (sample_env pid) p s = ks_load (sample_env 7) p s"
  unfolding ks_load_def parse_plain_def sample_env_def ks_env.select_convs by (rule refl)

lemma revoke_beside:
  assumes "phone_world sample_contents w"
  shows "\<exists>w'. run_errand (with_pid pid sample_daemon) home (RevokeErrand ''Alice'') w = (Inr (), [RevokedLine ''Alice''], w')
     \<and> phone_world revoked_contents w' \<and> w_clock w' = w_clock w"
proof -
  let ?e = "with_pid pid sample_daemon"
  have l: "require_keystore ?e home w = (Inr sample_contents, w)"
    using phone_world_load [OF assms] sample_load_pid [of pid sample_path]
    by (simp add: require_keystore_def on_fs_def with_pid_sample) (simp add: sample_daemon_def)
  obtain s' where s': "ks_save (sample_env pid) sample_path revoked_contents (w_fs w) = (Inr (), s')" "home_disk revoked_contents s'"
    using home_disk_save_pid [OF _ small_revoked] assms by (meson phone_world_def)
  have sv: "ks_save_cmd ?e home revoked_contents w = (Inr (), w\<lparr>w_fs := s'\<rparr>)"
    using s'(1) by (simp add: ks_save_cmd_def on_fs_def with_pid_sample map_err_def)
  have "list_ex (\<lambda>p. phone_name p = ''Alice'') (pairings sample_contents)" by (simp add: sample_contents_def)
  then show ?thesis
    using l sv s'(2) by (simp add: run_errand_def revoke_command_def revoked_contents_def [symmetric] phone_world_def)
qed

lemma sample_start: "start_ok 1 (Some sample_contents)"
  using sample_contents_wf by (simp add: start_ok_def) (simp add: sample_contents_def)

lemma spawn_alone: "R x y \<Longrightarrow> (R ^^ 4) y z \<Longrightarrow> (R ^^ 5) x z" for R :: "'a \<Rightarrow> 'a \<Rightarrow> bool"
  using relpowp_Suc_I2 [of R x y 4 z] by (simp add: eval_nat_numeral)

theorem command_processes_keep_a_keystore_witness:
  "\<exists>w' c. (proc_step sample_daemon bob_accept home ^^ 5) ([], alice_world)
       ([(8, LocalCommand (RevokeErrand ''Alice'') (CmdEnded (Inr ()) [RevokedLine ''Alice'']))], w')
     \<and> disk sample_daemon home w' = Inr (Some c) \<and> wf_contents c
     \<and> device_identity_bytes c = device_identity_bytes sample_contents"
proof -
  let ?R = "RevokeErrand ''Alice''"
  obtain w' where r: "run_errand (with_pid 8 sample_daemon) home ?R alice_world = (Inr (), [RevokedLine ''Alice''], w')"
    using revoke_beside [OF alice_phone_world] by blast
  have "proc_step sample_daemon bob_accept home ([], alice_world) ([] @ [(8, LocalCommand ?R ToLoad)], alice_world)"
    by (rule proc_step.spawned) (simp_all add: proc_begins_def)
  from spawn_alone [OF this errand_alone [OF r, of bob_accept "[]" "[]"]]
  have st: "(proc_step sample_daemon bob_accept home ^^ 5) ([], alice_world)
      ([(8, LocalCommand ?R (CmdEnded (Inr ()) [RevokedLine ''Alice'']))], w')" by simp
  from command_processes_keep_a_keystore [OF sample_daemon_ks sample_decodes_wf sample_identity_lengths
      phone_world_disk [OF alice_phone_world] sample_start st]
  obtain c where "disk sample_daemon home w' = Inr (Some c)" "wf_contents c"
    "device_identity_bytes c = device_identity_bytes sample_contents"
    by (auto simp: sample_contents_def)
  with st show ?thesis by blast
qed

subsection \<open>Beside the server\<close>

lemma machine_command_alone:
  assumes "mc_procs m = [(pid, LocalCommand e q)]" "mc_pid m \<noteq> pid"
  shows "cmd_run (with_pid pid env) cfg e n (q, sy_world (mc_system m)) = (q', w') \<Longrightarrow>
     (machine_step env tls_accept cfg hs ^^ n) m
       (m\<lparr>mc_system := (mc_system m)\<lparr>sy_world := w'\<rparr>, mc_procs := [(pid, LocalCommand e q')]\<rparr>)"
proof (induction n arbitrary: q' w')
  case 0
  with assms(1) show ?case by (simp add: cmd_run_def)
next
  case (Suc n)
  obtain q1 w1 where r: "cmd_run (with_pid pid env) cfg e n (q, sy_world (mc_system m)) = (q1, w1)" by fastforce
  then have "cmd_step (with_pid pid env) cfg e q1 w1 = (q', w')" using Suc.prems by (simp add: cmd_run_def)
  then have "proc_step env tls_accept cfg ([] @ (pid, LocalCommand e q1) # [], w1) ([] @ (pid, LocalCommand e q') # [], w')"
    by (intro proc_step.moved) (simp add: proc_advance_def)
  from machine_step.running [of env tls_accept cfg
      "m\<lparr>mc_system := (mc_system m)\<lparr>sy_world := w1\<rparr>, mc_procs := [(pid, LocalCommand e q1)]\<rparr>", where hs = hs] this assms(2)
  have "machine_step env tls_accept cfg hs (m\<lparr>mc_system := (mc_system m)\<lparr>sy_world := w1\<rparr>, mc_procs := [(pid, LocalCommand e q1)]\<rparr>)
      (m\<lparr>mc_system := (mc_system m)\<lparr>sy_world := w'\<rparr>, mc_procs := [(pid, LocalCommand e q')]\<rparr>)"
    by fastforce
  with Suc.IH [OF r] show ?case by auto
qed

text \<open>A start that nothing comes between takes four steps.\<close>

lemma machine_start_alone:
  assumes "server_start (with_pid pid env) cfg hs w = (Inr st, w')"
  shows "(machine_step env tls_accept cfg hs ^^ 4) (idle_machine w)
     \<lparr>mc_system = up st w', mc_pid = pid, mc_start = None, mc_procs = []\<rparr>"
proof -
  let ?e = "with_pid pid env" and ?step = "machine_step env tls_accept cfg hs"
  let ?m = "\<lambda>p w. \<lparr>mc_system = \<lparr>sy_server = None, sy_tasks = [], sy_world = w\<rparr>, mc_pid = pid, mc_start = p, mc_procs = []\<rparr>"
  obtain w1 w2 c where seg: "start_advance ?e cfg hs StartDir w = (Inl StartLoad, w1)"
    "start_advance ?e cfg hs StartLoad w1 = (Inl (StartBuild c), w2)"
    "start_advance ?e cfg hs (StartBuild c) w2 = (Inr (Inr st), w')"
    using start_in_segments [OF assms] by blast
  have "?step (idle_machine w) (?m (Some StartDir) w)"
    using machine_step.launched [of "idle_machine w" pid env tls_accept cfg hs] by (simp add: idle_machine_def)
  moreover have "?step (?m (Some StartDir) w) (?m (Some StartLoad) w1)"
    using machine_step.starting [of "?m (Some StartDir) w" StartDir env cfg hs StartLoad w1 tls_accept] seg(1) by simp
  moreover have "?step (?m (Some StartLoad) w1) (?m (Some (StartBuild c)) w2)"
    using machine_step.starting [of "?m (Some StartLoad) w1" StartLoad env cfg hs "StartBuild c" w2 tls_accept] seg(2) by simp
  moreover have "?step (?m (Some (StartBuild c)) w2) \<lparr>mc_system = up st w', mc_pid = pid, mc_start = None, mc_procs = []\<rparr>"
    using machine_step.started [of "?m (Some (StartBuild c)) w2" "StartBuild c" env cfg hs st w' tls_accept] seg(3) by simp
  ultimately show ?thesis by (auto simp: eval_nat_numeral)
qed

theorem machine_keeps_a_keystore_witness:
  "\<exists>s c. (machine_step sample_daemon bob_accept home stub_handlers ^^ 9) (idle_machine alice_world) s
     \<and> mc_procs s = [(8, LocalCommand (RevokeErrand ''Alice'') (CmdEnded (Inr ()) [RevokedLine ''Alice'']))]
     \<and> sy_server (mc_system s) = Some alice_server
     \<and> disk sample_daemon home (sy_world (mc_system s)) = Inr (Some c) \<and> wf_contents c
     \<and> device_identity_bytes c = device_identity_bytes sample_contents"
proof -
  let ?R = "RevokeErrand ''Alice''" and ?step = "machine_step sample_daemon bob_accept home stub_handlers"
  obtain w1 where w1: "server_start sample_daemon home stub_handlers alice_world = (Inr alice_server, w1)"
    "phone_world sample_contents w1"
    using alice_start [OF alice_phone_world refl] by (auto simp: alice_server_def with_handlers_def)
  let ?m = "\<lambda>ps w. \<lparr>mc_system = \<lparr>sy_server = Some alice_server, sy_tasks = [], sy_world = w\<rparr>, mc_pid = 7, mc_start = None, mc_procs = ps\<rparr>"
  obtain w' where r: "run_errand (with_pid 8 sample_daemon) home ?R w1 = (Inr (), [RevokedLine ''Alice''], w')"
    using revoke_beside [OF w1(2)] by blast
  have start: "(?step ^^ 4) (idle_machine alice_world) (?m [] w1)"
    using machine_start_alone [of 7 sample_daemon home stub_handlers alice_world alice_server w1 bob_accept] w1(1)
    by (simp add: up_def with_pid_sample)
  have "proc_step sample_daemon bob_accept home ([], w1) ([] @ [(8, LocalCommand ?R ToLoad)], w1)"
    by (rule proc_step.spawned) (simp_all add: proc_begins_def)
  then have spawn: "?step (?m [] w1) (?m [(8, LocalCommand ?R ToLoad)] w1)"
    using machine_step.running [of sample_daemon bob_accept home "?m [] w1" "[(8, LocalCommand ?R ToLoad)]" w1] by simp
  have "(?step ^^ 4) (?m [(8, LocalCommand ?R ToLoad)] w1) (?m [(8, LocalCommand ?R (CmdEnded (Inr ()) [RevokedLine ''Alice'']))] w')"
    using machine_command_alone [of "?m [(8, LocalCommand ?R ToLoad)] w1" 8 ?R ToLoad sample_daemon home 4
        "CmdEnded (Inr ()) [RevokedLine ''Alice'']" w' bob_accept stub_handlers] r
    by (simp add: cmd_run_errand)
  from start spawn_alone [OF spawn this]
  have st: "(?step ^^ 9) (idle_machine alice_world) (?m [(8, LocalCommand ?R (CmdEnded (Inr ()) [RevokedLine ''Alice'']))] w')"
    using relpowp_trans [of 4 ?step _ _ 5] by (simp del: relpowp.simps)
  have calm: "io_script (w_fs alice_world) = []" by (simp add: alice_world_def)
  from machine_keeps_a_keystore [OF sample_daemon_ks sample_decodes_wf sample_identity_lengths
      phone_world_disk [OF alice_phone_world] disjI1 [OF calm] sample_start st] calm
  obtain c where "disk sample_daemon home w' = Inr (Some c)" "wf_contents c"
    "device_identity_bytes c = device_identity_bytes sample_contents"
    by (auto simp: sample_contents_def split: sum.splits option.splits)
  with st show ?thesis
    by (intro exI [of _ "?m [(8, LocalCommand ?R (CmdEnded (Inr ()) [RevokedLine ''Alice'']))] w'"] exI [of _ c]) simp
qed

subsection \<open>While a pairing window is open\<close>

definition early_world :: "unit world" where
  "early_world = alice_world\<lparr>w_clock := (\<lambda>i. 0)\<rparr>"

lemma early_phone_world: "phone_world sample_contents early_world"
  using alice_phone_world by (simp add: early_world_def phone_world_def)

lemma alice_window:
  "\<exists>v w. pairing_open sample_daemon bob_bind home sample_contents early_world = (PairWaiting v, w)
     \<and> wd_handshake v = open_handshake \<and> wd_contents v = sample_contents
     \<and> wd_events v = [PairAccepted (Inr ((), alice_addr))] \<and> w_fs w = w_fs early_world \<and> w_clock w = (\<lambda>i. 0)"
proof -
  obtain i where i: "device_from_bytes (e_rcgen sample_daemon) (e_x509 sample_daemon)
      (device_identity_bytes sample_contents) = Inr i"
    by (simp add: device_from_bytes_def sample_daemon_def sample_rcgen_def sample_x509_def extract_spki_hash_def
        compute_spki_hash_def sample_contents_def device_identity_bytes_def map_err_def)
  obtain a where a: "server_config_for_pairing (e_rustls sample_daemon) i (e_provider sample_daemon) = Inr a"
    by (simp add: server_config_for_pairing_def server_config_def sample_daemon_def sample_rustls_def Let_def
        identity_to_rustls_def)
  have "random_pairing_code (\<lambda>i. Inr [7, 0, 0, 0]) 0 = Some (Inr 7, 1)"
    by (subst random_code_stop)
      (simp_all add: draw_ends_def u32_from_le_bytes_def from_be_def RESAMPLE_THRESHOLD_eq PAIRING_CODE_MODULUS_def)
  then have "\<exists>w. open_window sample_daemon early_world = Some (Inr 7, open_handshake, w)
      \<and> w_fs w = w_fs early_world \<and> w_clock w = (\<lambda>i. 0)"
    by (simp add: open_window_def unix_ms_now_def unix_ms_def early_world_def alice_world_def start_def
        handshake_new_def sample_daemon_def open_handshake_def saturating_add_def PAIRING_WINDOW_DEFAULT_MS_def)
  with i a show ?thesis by (auto simp: pairing_open_def map_err_def bob_bind_def)
qed

lemma small_with_bob: "small (add_pairing (from_core bob_record) sample_contents)"
proof -
  have "wf_contents (add_pairing (from_core bob_record) sample_contents)"
    by (rule wf_add_pairing [OF sample_contents_wf])
      (simp_all add: sample_contents_def bob_record_def bob_def wf_string_def wf_spki_def string_bytes_def)
  then show ?thesis
    by (simp add: small_def)
      (simp add: add_pairing_def from_core_def bob_record_def bob_def sample_contents_def put_defs)
qed

theorem pairing_undoes_a_revocation_witness:
  "\<exists>v w1 w2 w3 r. proc_steps sample_daemon bob_accept home
       ([(7, PairCommand bob_bind (PairOpen sample_contents)), (8, LocalCommand (RevokeErrand ''Alice'') ToLoad)], early_world)
       ([(7, PairCommand bob_bind (PairEnded (Some (Inr ())) (Some (wd_code v)))),
         (8, LocalCommand (RevokeErrand ''Alice'') (CmdEnded (Inr ()) [RevokedLine ''Alice'']))], w3)
     \<and> pairing_open sample_daemon bob_bind home sample_contents early_world = (PairWaiting v, w1)
     \<and> run_errand (with_pid 8 sample_daemon) home (RevokeErrand ''Alice'') w1 = (Inr (), [RevokedLine ''Alice''], w2)
     \<and> disk sample_daemon home w2 = Inr (Some revoked_contents)
     \<and> disk sample_daemon home w3 = Inr (Some (add_pairing (from_core r) sample_contents))"
proof -
  obtain v w1 where v: "pairing_open sample_daemon bob_bind home sample_contents early_world = (PairWaiting v, w1)"
    "wd_handshake v = open_handshake" "wd_contents v = sample_contents"
    "wd_events v = [PairAccepted (Inr ((), alice_addr))]" "w_fs w1 = w_fs early_world" "w_clock w1 = (\<lambda>i. 0)"
    using alice_window by blast
  have "phone_world sample_contents w1" using early_phone_world v(5) by (simp add: phone_world_def)
  then obtain w2 where w2: "run_errand (with_pid 8 sample_daemon) home (RevokeErrand ''Alice'') w1 = (Inr (), [RevokedLine ''Alice''], w2)"
    "phone_world revoked_contents w2" "w_clock w2 = (\<lambda>i. 0)"
    using revoke_beside v(6) by metis
  have "fst (ks_save (e_ks sample_daemon) (keystore_path home) (add_pairing (from_core bob_record) sample_contents) (w_fs w2)) = Inr ()"
    using home_disk_save [OF _ small_with_bob] w2(2) unfolding phone_world_def
    by (metis fst_conv home_keystore with_pid_sample)
  then have l: "fst (pair_loop sample_daemon bob_accept (wd_acceptor v) home (wd_events v) (window_state v w2)) = Some (Inr ())"
    unfolding v(4) by (intro bob_pairs_in) (simp_all add: window_state_def v(2,3) w2(3))
  obtain w3 where w3: "pairing_run sample_daemon bob_accept bob_bind home (PairWaiting v) w2
      = (Some (Inr ()), Some (wd_code v), w3)"
    using l by (cases "pair_loop sample_daemon bob_accept (wd_acceptor v) home (wd_events v) (window_state v w2)")
      (simp add: pairing_run_window loop_result_def)
  have n: "Suc (length (pairings sample_contents)) < 2 ^ 64" "hd (pairings sample_contents) \<in> set (pairings sample_contents)"
    "is_active (hd (pairings sample_contents))" "phone_name (hd (pairings sample_contents)) = ''Alice''"
    by (simp_all add: sample_contents_def is_active_def)
  from pairing_undoes_a_revocation [where a = 7 and b = 8 and env = sample_daemon, unfolded with_pid_sample(2),
      OF sample_daemon_ks sample_decodes_wf sample_contents_wf n(1) phone_world_disk [OF early_phone_world] v(1) w2(1) w3 n(2-4)]
  show ?thesis
    using v(1) w2(1) phone_world_disk [OF w2(2)] by blast
qed

subsection \<open>Bob pairs on a new machine\<close>

text \<open>Processes on a machine whose server is down.\<close>

lemma machine_procs:
  "(proc_step env tls_accept cfg ^^ n) (ps, w) (ps', w') \<Longrightarrow>
     (machine_step env tls_accept cfg hs ^^ n) ((idle_machine w)\<lparr>mc_procs := ps\<rparr>) ((idle_machine w')\<lparr>mc_procs := ps'\<rparr>)"
proof (induction n arbitrary: ps' w')
  case (Suc n)
  then obtain ps1 w1 where s1: "(proc_step env tls_accept cfg ^^ n) (ps, w) (ps1, w1)"
    "proc_step env tls_accept cfg (ps1, w1) (ps', w')" by auto
  have "machine_step env tls_accept cfg hs ((idle_machine w1)\<lparr>mc_procs := ps1\<rparr>) ((idle_machine w')\<lparr>mc_procs := ps'\<rparr>)"
    using machine_step.running [of env tls_accept cfg "(idle_machine w1)\<lparr>mc_procs := ps1\<rparr>" ps' w' hs] s1(2)
    by (simp add: idle_machine_def serving_pid_def)
  with Suc.IH [OF s1(1)] show ?case by auto
qed simp

lemma bob_window:
  "\<exists>v w. pairing_open sample_daemon bob_bind home fresh_contents home_world = (PairWaiting v, w)
     \<and> wd_events v = [PairAccepted (Inr ((), alice_addr))]"
proof -
  obtain i where i: "device_from_bytes (e_rcgen sample_daemon) (e_x509 sample_daemon)
      (device_identity_bytes fresh_contents) = Inr i"
    by (simp add: device_from_bytes_def sample_daemon_def sample_rcgen_def sample_x509_def extract_spki_hash_def
        fresh_contents_def from_identity_def device_identity_bytes_def)
  obtain a where a: "server_config_for_pairing (e_rustls sample_daemon) i (e_provider sample_daemon) = Inr a"
    by (simp add: server_config_for_pairing_def server_config_def sample_daemon_def sample_rustls_def Let_def
        identity_to_rustls_def)
  from i a home_window show ?thesis by (simp add: pairing_open_def map_err_def bob_bind_def)
qed

lemma bob_run:
  "\<exists>n w'. n \<le> 8 \<and> (proc_step sample_daemon bob_accept home ^^ n) ([], sample_world 0 ())
       ([(7, PairCommand bob_bind (PairEnded (Some (Inr ())) (Some 7)))], w')
     \<and> pair_run_command sample_daemon bob_accept bob_bind home (sample_world 0 ()) = (Some (Inr ()), Some 7, w')"
proof -
  let ?step = "proc_step sample_daemon bob_accept home" and ?P = "\<lambda>q. [(7, PairCommand bob_bind q)]"
  obtain w' where run: "pair_run_command sample_daemon bob_accept bob_bind home (sample_world 0 ()) = (Some (Inr ()), Some 7, w')"
    using bob_pair_run by blast
  obtain v w1 where v: "pairing_open sample_daemon bob_bind home fresh_contents home_world = (PairWaiting v, w1)"
    "wd_events v = [PairAccepted (Inr ((), alice_addr))]" using bob_window by blast
  have adv: "pairing_advance sample_daemon bob_accept bob_bind home PairDir (sample_world 0 ()) = (PairLoad, home_world)"
    "pairing_advance sample_daemon bob_accept bob_bind home PairLoad home_world = (PairOpen fresh_contents, home_world)"
    "pairing_advance sample_daemon bob_accept bob_bind home (PairOpen fresh_contents) home_world = (PairWaiting v, w1)"
    using home_data_dir home_bootstrap v(1) by (simp_all add: pairing_advance_def)
  have "pairing_run sample_daemon bob_accept bob_bind home (PairWaiting v) w1 = (Some (Inr ()), Some 7, w')"
    using run unfolding pairing_run_command [symmetric]
    by (simp add: pairing_run_on [of PairDir] pairing_run_on [of PairLoad] pairing_run_on [of "PairOpen _"] adv)
  from pairing_alone [where pid = 7 and env = sample_daemon, unfolded with_pid_sample, OF this, of "[]" "[]"] v(2)
  obtain k where k: "k \<le> 4" "(?step ^^ k) (?P (PairWaiting v), w1) (?P (PairEnded (Some (Inr ())) (Some 7)), w')"
    by auto
  have "?step ([], sample_world 0 ()) ([] @ ?P PairDir, sample_world 0 ())"
    by (rule proc_step.spawned) (simp_all add: proc_begins_def)
  moreover note moves = pairing_moves [where pid = 7 and env = sample_daemon, unfolded with_pid_sample, of _ _ _ _ _ _ _ "[]" "[]"]
  note moves [OF adv(1)] moves [OF adv(2)] moves [OF adv(3)]
  ultimately have "(?step ^^ Suc (Suc (Suc (Suc k)))) ([], sample_world 0 ()) (?P (PairEnded (Some (Inr ())) (Some 7)), w')"
    using k(2) by (auto intro!: relpowp_Suc_I2 simp del: relpowp.simps)
  with run k(1) show ?thesis by (intro exI [of _ "Suc (Suc (Suc (Suc k)))"] exI [of _ w']) simp
qed

lemma idle_machine_procs: "(idle_machine w)\<lparr>mc_procs := []\<rparr> = idle_machine w"
  by (simp add: idle_machine_def)

theorem only_a_printed_code_lets_in_witness:
  "\<exists>f n c p. f 0 = idle_machine (sample_world 0 ())
     \<and> (machine_step sample_daemon bob_accept home stub_handlers ^^ n) (f 0) (f n)
     \<and> disk sample_daemon home (sy_world (mc_system (f n))) = Inr (Some c) \<and> p \<in> set (pairings c)
     \<and> (\<exists>i < n. lets_in sample_daemon bob_accept (mc_procs (f i)) (mc_procs (f (Suc i))) (phone_name p) (client_spki p))"
proof -
  let ?step = "machine_step sample_daemon bob_accept home stub_handlers" and ?w = "sample_world 0 () :: unit world"
  obtain n w' where n: "n \<le> 8" "(proc_step sample_daemon bob_accept home ^^ n) ([], ?w)
       ([(7, PairCommand bob_bind (PairEnded (Some (Inr ())) (Some 7)))], w')"
    "pair_run_command sample_daemon bob_accept bob_bind home ?w = (Some (Inr ()), Some 7, w')" using bob_run by blast
  let ?m = "(idle_machine w')\<lparr>mc_procs := [(7, PairCommand bob_bind (PairEnded (Some (Inr ())) (Some 7)))]\<rparr>"
  have st: "(?step ^^ n) (idle_machine ?w) ?m"
    using machine_procs [OF n(2), of stub_handlers] by (simp add: idle_machine_procs)
  then obtain f where f: "f 0 = idle_machine ?w" "f n = ?m" "\<And>i. i < n \<Longrightarrow> ?step (f i) (f (Suc i))"
    unfolding relpowp_fun_conv by blast
  from pair_run_adds [OF sample_daemon_ks sample_decodes_wf home_data_dir home_bootstrap fresh_small n(3)]
  obtain rec where d: "disk sample_daemon home w' = Inr (Some (add_pairing (from_core rec) fresh_contents))" by blast
  let ?c = "add_pairing (from_core rec) fresh_contents"
  have p: "from_core rec \<in> set (pairings ?c)" by (simp add: add_pairing_def)
  have start: "disk sample_daemon home ?w = Inr None" "io_script (w_fs ?w) = [] \<or> rejects_cuts (e_ks sample_daemon)" "start_ok 0 None" "0 + n < 2 ^ 64"
    using n(1) by (simp_all add: disk_def ks_stored_def sample_world_def sample_fs_def start_ok_def)
  have at: "disk sample_daemon home (sy_world (mc_system (f n))) = Inr (Some ?c)" using d f(2) by (simp add: idle_machine_def)
  have "\<exists>i < n. lets_in sample_daemon bob_accept (mc_procs (f i)) (mc_procs (f (Suc i)))
      (phone_name (from_core rec)) (client_spki (from_core rec))"
    using only_a_printed_code_lets_in [OF sample_daemon_ks sample_decodes_wf sample_identity_lengths
      start f(1,3) disjI1 [OF at] p] by blast
  moreover have "(?step ^^ n) (f 0) (f n)" using st f(1,2) by simp
  ultimately show ?thesis using f(1) at p by blast
qed

end
