(* ===== verification/Machine_Unreadable.thy ===== *)
theory Machine_Unreadable
  imports Machine_Run
begin

section \<open>A machine whose keystore cannot be read\<close>

text \<open>
  What a failing write under overlapping saves, or damage from outside, leaves the machine with. Every
  process starts with a load, so none gets further than that, and nothing is written.
\<close>

definition proc_stuck :: "'c proc \<Rightarrow> bool" where
  "proc_stuck p =
     (case p of
        LocalCommand e q \<Rightarrow> q = ToLoad \<or> (\<exists>x. q = CmdEnded (Inl x) [])
      | PairCommand bind q \<Rightarrow> q = PairDir \<or> q = PairLoad \<or> (\<exists>x. q = PairEnded (Some (Inl x)) None))"

definition machine_stuck :: "(path \<Rightarrow> bytes option) \<Rightarrow> ('o, 'c) pc_machine \<Rightarrow> bool" where
  "machine_stuck fs m \<longleftrightarrow> files (w_fs (sy_world (mc_system m))) = fs
     \<and> sy_server (mc_system m) = None \<and> sy_tasks (mc_system m) = []
     \<and> mc_start m \<in> {None, Some StartDir, Some StartLoad} \<and> (\<forall>(pid, p) \<in> set (mc_procs m). proc_stuck p)"

lemma proc_stuck_failed:
  assumes "proc_stuck p"
  shows "proc_window p = None" "p = LocalCommand e (CmdEnded r out) \<Longrightarrow> \<not> is_ok r"
    "p = PairCommand bind (PairEnded (Some r) code) \<Longrightarrow> \<not> is_ok r"
  using assms by (cases p; auto simp: proc_stuck_def)+

lemma proc_stuck_begins: "proc_begins p \<Longrightarrow> proc_stuck p"
  by (simp add: proc_begins_def proc_stuck_def split: proc.splits)

lemma proc_stuck_advance:
  assumes "disk env cfg w = Inl err" "proc_stuck p" "proc_advance (with_pid pid env) tls_accept cfg p w = (p', w')"
  shows "proc_stuck p' \<and> files (w_fs w') = files (w_fs w)"
proof (cases p)
  case (LocalCommand e q)
  obtain r w1 where r: "require_keystore (with_pid pid env) cfg w = (r, w1)" by fastforce
  then obtain x where "r = Inl x" using require_keystore_reads(2) [OF r] assms(1) by (cases r) auto
  with r LocalCommand assms(2,3) require_keystore_reads(1) [OF r] show ?thesis
    by (auto simp: proc_stuck_def proc_advance_def cmd_step_def)
next
  case (PairCommand bind q)
  obtain d w1 where d: "on_fs (ensure_data_dir (data_dir cfg)) w = (d, w1)" by fastforce
  have dir: "files (w_fs w1) = files (w_fs w)" using on_fs_pair [OF d] by simp
  obtain r w2 where r: "bootstrap (with_pid pid env) cfg w = (r, w2)" by fastforce
  then obtain x where "r = Inl x" using bootstrap_reads(2) [OF r] assms(1) by (cases r) auto
  with d dir r PairCommand assms(2,3) bootstrap_reads(1) [OF r] show ?thesis
    by (auto simp: proc_stuck_def proc_advance_def pairing_advance_def split: sum.splits)
qed

lemma proc_step_stuck:
  "proc_step env tls_accept cfg s s' \<Longrightarrow> disk env cfg (snd s) = Inl err \<Longrightarrow> \<forall>(pid, p) \<in> set (fst s). proc_stuck p \<Longrightarrow>
     (\<forall>(pid, p) \<in> set (fst s'). proc_stuck p) \<and> files (w_fs (snd s')) = files (w_fs (snd s))"
proof (induction rule: proc_step.induct)
  case (spawned p pid ps w)
  then show ?case using proc_stuck_begins by auto
next
  case (moved pid p w p' w' xs ys)
  with proc_stuck_advance [OF _ _ moved(1)] show ?case by auto
qed auto

lemma start_stuck:
  assumes "disk env cfg w = Inl err" "p \<in> {StartDir, StartLoad}" "start_advance (with_pid pid env) cfg hs p w = (r, w')"
  shows "r = Inl StartLoad \<or> (\<exists>x. r = Inr (Inl x))"
proof (cases r)
  case (Inl p')
  have "p' \<noteq> StartBuild c" for c using start_advance_copy [of "with_pid pid env" cfg hs p w c w'] assms(1,3) Inl by auto
  moreover have "p' \<noteq> StartDir" using start_advance_rank [of "with_pid pid env" cfg hs p w p' w'] assms(2,3) Inl by auto
  ultimately show ?thesis using Inl by (cases p') auto
next
  case (Inr q)
  then show ?thesis using start_advance_up [of "with_pid pid env" cfg hs p w] assms(2,3) by (cases q) auto
qed

lemma machine_step_stuck:
  "machine_step env tls_accept cfg hs m m' \<Longrightarrow> disk env cfg (sy_world (mc_system m)) = Inl err \<Longrightarrow>
     machine_stuck fs m \<Longrightarrow> machine_stuck fs m'"
proof (induction rule: machine_step.induct)
  case (serving m s')
  then have "sy_server (mc_system m) = None" "sy_tasks (mc_system m) = []" by (simp_all add: machine_stuck_def)
  with serving(1) show ?case by (auto elim: await_step.cases)
next
  case (starting m p p' w')
  then have "p \<in> {StartDir, StartLoad}" by (auto simp: machine_stuck_def)
  from start_stuck [OF starting(3) this starting(2)] start_advance_files [OF starting(2)] starting(4)
  show ?case by (auto simp: machine_stuck_def)
next
  case (started m p st w')
  then have "p \<in> {StartDir, StartLoad}" by (auto simp: machine_stuck_def)
  from start_stuck [OF started(3) this started(2)] show ?case by simp
next
  case (start_failed m p e w')
  with start_advance_files [OF start_failed(2)] show ?case by (simp add: machine_stuck_def)
next
  case (running m ps' w')
  then have "\<forall>(pid, p) \<in> set (mc_procs m). proc_stuck p" by (simp add: machine_stuck_def)
  with proc_step_stuck [OF running(1), of err] running(3,4) show ?case by (auto simp: machine_stuck_def)
qed (auto simp: machine_stuck_def)

text \<open>
  C9: A keystore that cannot be read stops everything and is never replaced: on a machine where the
  ciphertext does not decrypt, or what it decrypts to has an unknown format or does not decode,
  whatever is started, in any number and order and interleaved at every await, no server comes up, no
  command reports success, no pairing window opens, and no file is written, so the old identity is
  never overwritten by a fresh one.
\<close>
theorem unreadable_keystore_stops_everything:
  assumes "disk env cfg w = Inl err"
    and "(machine_step env tls_accept cfg hs)\<^sup>*\<^sup>* (idle_machine w) s"
  shows "files (w_fs (sy_world (mc_system s))) = files (w_fs w) \<and> sy_server (mc_system s) = None
     \<and> (\<forall>(pid, p) \<in> set (mc_procs s). proc_window p = None
          \<and> (\<forall>e r out. p = LocalCommand e (CmdEnded r out) \<longrightarrow> \<not> is_ok r)
          \<and> (\<forall>bind r code. p = PairCommand bind (PairEnded (Some r) code) \<longrightarrow> \<not> is_ok r))"
proof -
  have "machine_stuck (files (w_fs w)) s"
    using assms(2)
  proof (induction rule: rtranclp_induct)
    case base
    then show ?case by (simp add: machine_stuck_def idle_machine_def)
  next
    case (step m m')
    have "disk env cfg (sy_world (mc_system m)) = disk env cfg w"
      using step.IH by (simp add: machine_stuck_def disk_def ks_stored_def)
    with machine_step_stuck [OF step(2) _ step.IH] assms(1) show ?case by simp
  qed
  then have m: "files (w_fs (sy_world (mc_system s))) = files (w_fs w)" "sy_server (mc_system s) = None"
    and stuck: "\<And>pid p. (pid, p) \<in> set (mc_procs s) \<Longrightarrow> proc_stuck p"
    by (auto simp: machine_stuck_def)
  with proc_stuck_failed show ?thesis by blast
qed

definition cut_world :: "unit world" where
  "cut_world = alice_world\<lparr>w_fs := (w_fs alice_world)\<lparr>files := [sample_path \<mapsto> take 3 (sample_seal (2 # put_contents sample_contents))]\<rparr>\<rparr>"

lemma cut_disk: "\<exists>err. disk sample_daemon home cut_world = Inl err"
proof -
  have "take 3 (sample_seal (2 # put_contents sample_contents)) \<noteq> sample_seal q" for q
    by (rule sample_seal_cut) (simp_all add: sample_contents_def put_defs)
  then show ?thesis
    by (simp add: disk_def ks_stored_def cut_world_def sample_daemon_def sample_env_def platform_decrypt_def
        windows_decrypt_def sample_dpapi_def u32_try_from_def map_err_def)
qed

theorem unreadable_keystore_stops_everything_witness:
  "\<exists>s x. (machine_step sample_daemon bob_accept home stub_handlers)\<^sup>*\<^sup>* (idle_machine cut_world) s
     \<and> mc_procs s = [(8, LocalCommand (RevokeErrand ''Alice'') (CmdEnded (Inl x) []))]
     \<and> files (w_fs (sy_world (mc_system s))) = files (w_fs cut_world)"
proof -
  let ?R = "RevokeErrand ''Alice''" and ?step = "machine_step sample_daemon bob_accept home stub_handlers"
  let ?m = "(idle_machine cut_world)\<lparr>mc_procs := [(8, LocalCommand ?R ToLoad)]\<rparr>"
  obtain err where d: "disk sample_daemon home cut_world = Inl err" using cut_disk by blast
  obtain r w1 where r: "require_keystore (with_pid 8 sample_daemon) home cut_world = (r, w1)" by fastforce
  then obtain x where x: "r = Inl x" using require_keystore_reads(2) [OF r] d by (cases r) auto
  have "proc_step sample_daemon bob_accept home ([], cut_world) ([] @ [(8, LocalCommand ?R ToLoad)], cut_world)"
    by (rule proc_step.spawned) (simp_all add: proc_begins_def)
  then have "?step (idle_machine cut_world) ?m"
    using machine_step.running [of sample_daemon bob_accept home "idle_machine cut_world" "[(8, LocalCommand ?R ToLoad)]" cut_world]
    by (simp add: idle_machine_def serving_pid_def)
  moreover have "proc_step sample_daemon bob_accept home ([] @ [(8, LocalCommand ?R ToLoad)], cut_world)
      ([] @ [(8, LocalCommand ?R (CmdEnded (Inl x) []))], w1)"
    using r x by (intro proc_step.moved) (simp add: proc_advance_def cmd_step_def)
  then have "?step ?m ((idle_machine w1)\<lparr>mc_procs := [(8, LocalCommand ?R (CmdEnded (Inl x) []))]\<rparr>)"
    using machine_step.running [of sample_daemon bob_accept home ?m "[(8, LocalCommand ?R (CmdEnded (Inl x) []))]" w1]
    by (simp add: idle_machine_def serving_pid_def)
  ultimately have st: "?step\<^sup>*\<^sup>* (idle_machine cut_world) ((idle_machine w1)\<lparr>mc_procs := [(8, LocalCommand ?R (CmdEnded (Inl x) []))]\<rparr>)"
    by (meson converse_rtranclp_into_rtranclp r_into_rtranclp)
  from unreadable_keystore_stops_everything [OF d st] st show ?thesis
    by (intro exI [of _ "(idle_machine w1)\<lparr>mc_procs := [(8, LocalCommand ?R (CmdEnded (Inl x) []))]\<rparr>"] exI [of _ x]) simp
qed

end
