(* ===== verification/Unit_Tests.thy ===== *)
theory Unit_Tests
  imports System_Run
begin

section \<open>The unit tests of the source\<close>

text \<open>
  The tests inside \<open>reauth.rs\<close> and \<open>keystore/mod.rs\<close> as definitions over the model: an \<open>assert\<close> that fails,
  an \<open>unwrap\<close> of an error and a \<open>panic\<close> are \<open>False\<close>. They hold of the model, those of the keystore in the
  environment of the samples.
\<close>

definition off_interval_is_always_active :: bool where
  "off_interval_is_always_active \<longleftrightarrow> evaluate 0 0 0 = Active \<and> evaluate (- 1 - 1) 0 0 = Active"

definition one_day_window_active_at_25h :: bool where
  "one_day_window_active_at_25h \<longleftrightarrow>
     (let last_auth = 0 in
      evaluate 0 last_auth 1 = Active \<and> evaluate (23 * 3600000) last_auth 1 = Active
      \<and> evaluate (25 * 3600000) last_auth 1 = NeedsReauth)"

definition manual_extend_recovers_to_active :: bool where
  "manual_extend_recovers_to_active \<longleftrightarrow>
     evaluate (25 * 3600000) 0 1 = NeedsReauth \<and> evaluate (25 * 3600000) (12 * 3600000) 1 = Active"

definition ONE_DAY :: u64 where "ONE_DAY = 86400000"

definition boundary_at_exact_expiry_is_needs_reauth :: bool where
  "boundary_at_exact_expiry_is_needs_reauth \<longleftrightarrow> evaluate ONE_DAY 0 1 = NeedsReauth"

definition intervals_round_trip :: bool where
  "intervals_round_trip \<longleftrightarrow> list_all (\<lambda>d. interval_to_days (interval_from_days d) = d) [0, 1, 7, 30]"

lemma reauth_tests_pass:
  "off_interval_is_always_active" "one_day_window_active_at_25h" "manual_extend_recovers_to_active"
  "boundary_at_exact_expiry_is_needs_reauth" "intervals_round_trip"
  by (simp_all add: off_interval_is_always_active_def one_day_window_active_at_25h_def
      manual_extend_recovers_to_active_def boundary_at_exact_expiry_is_needs_reauth_def ONE_DAY_def
      intervals_round_trip_def interval_from_days_def evaluate_def expires_at_unix_ms_def saturating_mul_def
      saturating_add_def Let_def word_less_nat_alt)

text \<open>
  Each test works in a directory of its own, \<open>dir\<close>.
\<close>

definition v1_keystore_loads_with_last_known_address_none ::
    "ks_env \<Rightarrow> rcgen_lib \<Rightarrow> x509_lib \<Rightarrow> path \<Rightarrow> fs \<Rightarrow> bool" where
  "v1_keystore_loads_with_last_known_address_none e g x dir s =
     (let path = join dir ''keystore.bin'' in
      case device_generate g x of
        Inl _ \<Rightarrow> False
      | Inr i \<Rightarrow>
          let v1 = \<lparr>ks_key_pkcs8_der_v1 = key_pkcs8_der (device_to_bytes i),
                ks_cert_der_v1 = cert_der (device_to_bytes i),
                pairings_v1 = [\<lparr>phone_name_v1 = ''legacy-phone'', client_spki_v1 = SpkiHash (replicate 32 0x42),
                  paired_at_unix_ms_v1 = 1000, last_authenticated_at_unix_ms_v1 = 1000,
                  revoked_v1 = False, revoke_pending_v1 = False\<rparr>],
                reauth_interval_days_v1 = 7, ks_last_authenticated_at_unix_ms_v1 = 0\<rparr>
          in (case to_allocvec (contents_v1_codec e) v1 of
                Inl _ \<Rightarrow> False
              | Inr encoded \<Rightarrow>
                  (case platform_encrypt (ke_platform e) (1 # encoded) of
                     Inl _ \<Rightarrow> False
                   | Inr cipher \<Rightarrow>
                       (case fs_write path cipher s of
                          (Inl _, _) \<Rightarrow> False
                        | (Inr _, s1) \<Rightarrow>
                            (case ks_load e path s1 of
                               (Inr (Some loaded), _) \<Rightarrow>
                                 length (pairings loaded) = 1
                                 \<and> phone_name (pairings loaded ! 0) = ''legacy-phone''
                                 \<and> last_known_address (pairings loaded ! 0) = None
                             | _ \<Rightarrow> False)))))"

definition last_known_address_round_trips_through_save_load ::
    "ks_env \<Rightarrow> rcgen_lib \<Rightarrow> x509_lib \<Rightarrow> path \<Rightarrow> fs \<Rightarrow> bool" where
  "last_known_address_round_trips_through_save_load e g x dir s =
     (let path = join dir ''keystore.bin'' in
      case device_generate g x of
        Inl _ \<Rightarrow> False
      | Inr i \<Rightarrow>
          let contents = from_identity (device_to_bytes i);
              addr = V4 [192, 168, 1, 42] 51820;
              contents = contents\<lparr>pairings := pairings contents @
                [\<lparr>phone_name = ''kitchen-phone'', client_spki = SpkiHash (replicate 32 0x11),
                  paired_at_unix_ms = 5000, last_authenticated_at_unix_ms = 5000,
                  revoked = False, revoke_pending = False, last_known_address = Some addr\<rparr>]\<rparr>
          in (case ks_save e path contents s of
                (Inl _, _) \<Rightarrow> False
              | (Inr _, s1) \<Rightarrow>
                  (case ks_load e path s1 of
                     (Inr (Some loaded), _) \<Rightarrow>
                       length (pairings loaded) = 1 \<and> last_known_address (pairings loaded ! 0) = Some addr
                   | _ \<Rightarrow> False)))"

definition unsupported_format_byte_is_rejected :: "ks_env \<Rightarrow> path \<Rightarrow> fs \<Rightarrow> bool" where
  "unsupported_format_byte_is_rejected e dir s =
     (let path = join dir ''keystore.bin'' in
      case platform_encrypt (ke_platform e) [99, 0, 1, 2] of
        Inl _ \<Rightarrow> False
      | Inr cipher \<Rightarrow>
          (case fs_write path cipher s of
             (Inl _, _) \<Rightarrow> False
           | (Inr _, s1) \<Rightarrow>
               (case ks_load e path s1 of
                  (Inl (FormatVersion got expected), _) \<Rightarrow> got = 99 \<and> expected = KEYSTORE_FORMAT_VERSION
                | _ \<Rightarrow> False)))"

text \<open>The device of the samples, and what a file in an empty directory loads as.\<close>

lemma sample_device:
  "\<exists>i. device_generate sample_rcgen sample_x509 = Inr i
     \<and> device_to_bytes i = \<lparr>key_pkcs8_der = [7, 7], cert_der = [0x30, 7, 7]\<rparr>"
  by (simp add: device_generate_def build_from_keypair_def sample_rcgen_def sample_x509_def extract_spki_hash_def
      device_to_bytes_def)

lemma sample_write:
  "fs_write sample_path x (sample_fs []) = (Inr (), (sample_fs [])\<lparr>files := [sample_path \<mapsto> x]\<rparr>)"
  by (simp add: fs_write_def can_create_def next_outcome_calm sample_fs_def)

lemma sample_load:
  "length plain < 2 ^ 32 - 8 \<Longrightarrow> fst (ks_load (sample_env 7) sample_path ((sample_fs [])\<lparr>files := [sample_path \<mapsto> sample_seal plain]\<rparr>))
     = map_ok Some (parse_plain (sample_env 7) plain)"
  by (simp add: ks_load_def fs_read_def next_outcome_calm sample_fs_def sample_env_def platform_decrypt_def
      windows_decrypt_def sample_dpapi_def map_err_def u32_try_from_def)

lemma sample_seals:
  "length plain < 2 ^ 32 - 8 \<Longrightarrow> platform_encrypt (ke_platform (sample_env 7)) plain = Inr (sample_seal plain)"
  by (simp add: sample_env_def platform_encrypt_def windows_encrypt_def sample_dpapi_def u32_try_from_def)

lemma sample_join [simp]: "join [''data''] ''keystore.bin'' = sample_path"
  by (simp add: join_def)

lemma v1_test_passes:
  "v1_keystore_loads_with_last_known_address_none (sample_env 7) sample_rcgen sample_x509 [''data''] (sample_fs [])"
proof -
  obtain i where i: "device_generate sample_rcgen sample_x509 = Inr i"
    "device_to_bytes i = \<lparr>key_pkcs8_der = [7, 7], cert_der = [0x30, 7, 7]\<rparr>" using sample_device by blast
  have wf: "wf_contents_v1 legacy_contents"
    by (simp add: wf_contents_v1_def legacy_contents_def wf_pairing_v1_def wf_string_def wf_spki_def string_bytes_def)
  have enc: "to_allocvec (contents_v1_codec (sample_env 7)) legacy_contents = Inr (put_contents_v1 legacy_contents)"
    by (simp add: sample_env_def keystore_v1_codec_def)
  have len: "length (1 # put_contents_v1 legacy_contents) < 2 ^ 32 - 8"
    by (simp add: legacy_contents_def put_contents_v1_def put_pairing_v1_def put_defs)
  have "parse_plain (sample_env 7) (1 # put_contents_v1 legacy_contents) = Inr (contents_from_v1 legacy_contents)"
    using ks_ok_decode_v1 [OF sample_env_ok wf enc, of "[]"] by (simp add: parse_plain_v1)
  with sample_load [OF len] obtain s' where "ks_load (sample_env 7) sample_path
      ((sample_fs [])\<lparr>files := [sample_path \<mapsto> sample_seal (1 # put_contents_v1 legacy_contents)]\<rparr>)
      = (Inr (Some (contents_from_v1 legacy_contents)), s')"
    by (metis map_ok_simps(2) prod.collapse)
  then show ?thesis
    using i enc sample_seals [OF len]
    by (simp add: v1_keystore_loads_with_last_known_address_none_def legacy_contents_def [symmetric] sample_write)
      (simp add: legacy_contents_def contents_from_v1_def pairing_from_v1_def)
qed

lemma format_test_passes: "unsupported_format_byte_is_rejected (sample_env 7) [''data''] (sample_fs [])"
proof -
  have "fst (ks_load (sample_env 7) sample_path ((sample_fs [])\<lparr>files := [sample_path \<mapsto> sample_seal [99, 0, 1, 2]]\<rparr>))
      = Inl (FormatVersion 99 2)"
    by (subst sample_load) (simp_all add: parse_plain_other)
  then obtain s' where "ks_load (sample_env 7) sample_path ((sample_fs [])\<lparr>files := [sample_path \<mapsto> sample_seal [99, 0, 1, 2]]\<rparr>)
      = (Inl (FormatVersion 99 2), s')" by (metis prod.collapse)
  then show ?thesis
    by (simp add: unsupported_format_byte_is_rejected_def sample_seals sample_write KEYSTORE_FORMAT_VERSION_def)
qed

definition kitchen_contents :: KeystoreContents where
  "kitchen_contents =
     \<lparr>ks_key_pkcs8_der = [7, 7], ks_cert_der = [0x30, 7, 7],
      pairings = [\<lparr>phone_name = ''kitchen-phone'', client_spki = SpkiHash (replicate 32 0x11),
        paired_at_unix_ms = 5000, last_authenticated_at_unix_ms = 5000, revoked = False,
        revoke_pending = False, last_known_address = Some (V4 [192, 168, 1, 42] 51820)\<rparr>],
      reauth_interval_days = 7, ks_last_authenticated_at_unix_ms = 0\<rparr>"

lemma address_test_passes:
  "last_known_address_round_trips_through_save_load (sample_env 7) sample_rcgen sample_x509 [''data''] (sample_fs [])"
proof -
  obtain i where i: "device_generate sample_rcgen sample_x509 = Inr i"
    "device_to_bytes i = \<lparr>key_pkcs8_der = [7, 7], cert_der = [0x30, 7, 7]\<rparr>" using sample_device by blast
  have "wf_contents kitchen_contents"
    by (simp add: wf_contents_def kitchen_contents_def wf_pairing_def wf_string_def wf_spki_def string_bytes_def)
  then have small: "small kitchen_contents"
    by (simp add: small_def) (simp add: kitchen_contents_def put_defs)
  obtain s' where s': "ks_save (sample_env 7) sample_path kitchen_contents (sample_fs []) = (Inr (), s')"
    "home_disk kitchen_contents s'"
    using small
    by (simp add: small_save replace_file_def fs_write_def fs_rename_def can_create_def home_disk_def next_outcome_calm
        sample_fs_def join_def fun_eq_iff)
  from home_disk_load [OF s'(2) small] s'(1) i show ?thesis
    by (simp add: last_known_address_round_trips_through_save_load_def from_identity_def kitchen_contents_def [symmetric])
      (simp add: kitchen_contents_def)
qed

end
