(* ===== verification/Crypto_Tests.thy ===== *)
theory Crypto_Tests
  imports Crypto_Pairing Crypto_Nonce Crypto_Device
begin

section \<open>The unit tests of the cryptography\<close>

text \<open>
  \<open>core/tests/crypto_units.rs\<close> as definitions over the model: an \<open>assert\<close> that fails, an \<open>unwrap\<close> of an error
  and a \<open>panic\<close> are \<open>False\<close>. Random codes, identities and certificates are arguments, so a test that
  holds here holds for every outcome of the random source and not only for the ones of one run.
\<close>

subsection \<open>Nonces\<close>

definition nonce_sender_starts_at_one :: bool where
  "nonce_sender_starts_at_one \<longleftrightarrow>
     (let s = sender_new; (a, s1) = issue s; (b, s2) = issue s1 in
      last_issued s = 0 \<and> a = Some 1 \<and> b = Some 2 \<and> last_issued s2 = 2)"

definition nonce_receiver_strict_monotonic :: bool where
  "nonce_receiver_strict_monotonic \<longleftrightarrow>
     (let r = receiver_new; (a, r) = accept r 1; (b, r) = accept r 2; (c, r) = accept r 2;
          (d, r) = accept r 1; (e, r) = accept r 100; (f, r) = accept r 50 in
      is_ok a \<and> is_ok b \<and> \<not> is_ok c \<and> \<not> is_ok d \<and> is_ok e \<and> \<not> is_ok f \<and> recv_last_seen r = 100)"

definition nonce_receiver_zero_rejected :: bool where
  "nonce_receiver_zero_rejected \<longleftrightarrow> \<not> is_ok (fst (accept receiver_new 0))"

lemma nonce_tests_pass:
  "nonce_sender_starts_at_one" "nonce_receiver_strict_monotonic" "nonce_receiver_zero_rejected"
  by (simp_all add: nonce_sender_starts_at_one_def nonce_receiver_strict_monotonic_def nonce_receiver_zero_rejected_def
      sender_new_def issue_def checked_add_def last_issued_def receiver_new_def accept_def Let_def word_le_nat_alt)

subsection \<open>Identities and pins\<close>

definition extract_spki_hash_matches_device_identity_cache :: "rcgen_lib \<Rightarrow> x509_lib \<Rightarrow> bool" where
  "extract_spki_hash_matches_device_identity_cache g x =
     (case device_generate g x of
        Inl _ \<Rightarrow> False
      | Inr i \<Rightarrow> extract_spki_hash x (id_cert_der i) = Inr (id_spki_hash i))"

definition device_identity_roundtrips_through_bytes :: "rcgen_lib \<Rightarrow> x509_lib \<Rightarrow> bool" where
  "device_identity_roundtrips_through_bytes g x =
     (case device_generate g x of
        Inl _ \<Rightarrow> False
      | Inr i \<Rightarrow>
          (case device_from_bytes g x (device_to_bytes i) of
             Inl _ \<Rightarrow> False
           | Inr restored \<Rightarrow> id_spki_hash i = id_spki_hash restored \<and> id_cert_der i = id_cert_der restored
               \<and> id_key_pkcs8_der i = id_key_pkcs8_der restored))"

text \<open>The identities \<open>id\<close>, \<open>pinned\<close> and \<open>imposter\<close> are the outcomes of the calls of \<open>generate\<close>.\<close>

definition pinned_server_verifier_accepts_pinned_cert :: "x509_lib \<Rightarrow> crypto_provider \<Rightarrow> DeviceIdentity \<Rightarrow> bool" where
  "pinned_server_verifier_accepts_pinned_cert x provider i \<longleftrightarrow>
     is_ok (verify_server_cert x (server_verifier_new (with_pins [id_spki_hash i]) provider) (id_cert_der i))"

definition pinned_server_verifier_rejects_unpinned_cert ::
    "x509_lib \<Rightarrow> crypto_provider \<Rightarrow> DeviceIdentity \<Rightarrow> DeviceIdentity \<Rightarrow> bool" where
  "pinned_server_verifier_rejects_unpinned_cert x provider pinned imposter \<longleftrightarrow>
     \<not> is_ok (verify_server_cert x (server_verifier_new (with_pins [id_spki_hash pinned]) provider) (id_cert_der imposter))"

definition pinned_client_verifier_accepts_pinned_cert :: "x509_lib \<Rightarrow> crypto_provider \<Rightarrow> DeviceIdentity \<Rightarrow> bool" where
  "pinned_client_verifier_accepts_pinned_cert x provider i \<longleftrightarrow>
     is_ok (verify_client_cert x (client_verifier_pinned (with_pins [id_spki_hash i]) provider) (id_cert_der i))"

definition pinned_client_verifier_rejects_unpinned_cert ::
    "x509_lib \<Rightarrow> crypto_provider \<Rightarrow> DeviceIdentity \<Rightarrow> DeviceIdentity \<Rightarrow> bool" where
  "pinned_client_verifier_rejects_unpinned_cert x provider pinned imposter \<longleftrightarrow>
     \<not> is_ok (verify_client_cert x (client_verifier_pinned (with_pins [id_spki_hash pinned]) provider) (id_cert_der imposter))"

definition pairing_window_verifier_accepts_any_well_formed_cert ::
    "x509_lib \<Rightarrow> crypto_provider \<Rightarrow> DeviceIdentity \<Rightarrow> bool" where
  "pairing_window_verifier_accepts_any_well_formed_cert x provider imposter \<longleftrightarrow>
     is_ok (verify_client_cert x (client_verifier_pairing_window provider) (id_cert_der imposter))"

definition pairing_window_verifier_still_rejects_malformed_cert :: "x509_lib \<Rightarrow> crypto_provider \<Rightarrow> bool" where
  "pairing_window_verifier_still_rejects_malformed_cert x provider \<longleftrightarrow>
     \<not> is_ok (verify_client_cert x (client_verifier_pairing_window provider) [0xDE, 0xAD, 0xBE, 0xEF])"

definition pinset_membership_is_sorted_iter :: bool where
  "pinset_membership_is_sorted_iter \<longleftrightarrow>
     (let a = SpkiHash (replicate 32 1); b = SpkiHash (replicate 32 2); c = SpkiHash (replicate 32 3);
          pinset = with_pins [c, a, b] in
      pinset_iter pinset = [a, b, c] \<and> pinset_len pinset = 3 \<and> \<not> pinset_is_empty pinset)"

lemma identity_tests_pass:
  assumes "\<And>k. generate_for g = Inr k \<Longrightarrow> is_ok (from_pkcs8_der_and_sign_algo g (serialize_der g k))"
    and "device_generate g x = Inr i"
  shows "extract_spki_hash_matches_device_identity_cache g x" "device_identity_roundtrips_through_bytes g x"
  using device_identity_roundtrip [OF assms] assms(2)
  by (simp_all add: extract_spki_hash_matches_device_identity_cache_def device_identity_roundtrips_through_bytes_def
      identity_inv_def)

text \<open>The verifier tests need identities from \<open>generate\<close>, with different hashes where there are two.\<close>

lemma verifier_tests_pass:
  assumes "identity_inv x i"
  shows "pinned_server_verifier_accepts_pinned_cert x provider i" "pinned_client_verifier_accepts_pinned_cert x provider i"
    "pairing_window_verifier_accepts_any_well_formed_cert x provider i"
    "id_spki_hash j \<noteq> id_spki_hash i \<Longrightarrow> pinned_server_verifier_rejects_unpinned_cert x provider j i"
    "id_spki_hash j \<noteq> id_spki_hash i \<Longrightarrow> pinned_client_verifier_rejects_unpinned_cert x provider j i"
    "parse_subject_pki x [0xDE, 0xAD, 0xBE, 0xEF] = Inl e \<Longrightarrow> pairing_window_verifier_still_rejects_malformed_cert x provider"
  using assms
  by (simp_all add: pinned_server_verifier_accepts_pinned_cert_def pinned_client_verifier_accepts_pinned_cert_def
      pairing_window_verifier_accepts_any_well_formed_cert_def pinned_server_verifier_rejects_unpinned_cert_def
      pinned_client_verifier_rejects_unpinned_cert_def pairing_window_verifier_still_rejects_malformed_cert_def
      identity_inv_def verify_server_cert_def verify_client_cert_def server_verifier_new_def client_verifier_pinned_def
      client_verifier_pairing_window_def pinset_contains_def with_pins_def extract_spki_hash_def map_err_def
      split: sum.splits)

lemma pinset_test_passes: "pinset_membership_is_sorted_iter"
proof -
  have "SpkiHash (replicate 32 1) < SpkiHash (replicate 32 2)" "SpkiHash (replicate 32 2) < SpkiHash (replicate 32 3)"
    "SpkiHash (replicate 32 1) < SpkiHash (replicate 32 3)"
    by code_simp+
  then show ?thesis
    by (simp add: not_le less_imp_le pinset_membership_is_sorted_iter_def pinset_iter_def pinset_len_def pinset_is_empty_def with_pins_def
        Let_def)
qed

subsection \<open>Pairing\<close>

text \<open>
  \<open>rng\<close> is the random source of the test. Most tests open a window and take the code from \<open>Started\<close>; a
  source that fails or never returns a code makes them panic or hang, so they pass for the others.
\<close>

definition opened :: "rng \<Rightarrow> u64 \<Rightarrow> (u32 \<times> PairingHandshake) option" where
  "opened rng ttl_ms =
     (case start rng 0 handshake_new 0 ttl_ms of
        Some (Inr (Started code), h, _) \<Rightarrow> Some (code, h)
      | _ \<Rightarrow> None)"

definition is_awaiting_state :: "PairingHandshake \<Rightarrow> bool" where
  "is_awaiting_state h = (case state h of Awaiting _ _ _ \<Rightarrow> True | _ \<Rightarrow> False)"

abbreviation zero_spki :: SpkiHash where "zero_spki \<equiv> SpkiHash (replicate 32 0)"

definition pairing_starts_from_idle :: "rng \<Rightarrow> bool" where
  "pairing_starts_from_idle rng \<longleftrightarrow> state handshake_new = Idle
     \<and> (case opened rng PAIRING_WINDOW_DEFAULT_MS of None \<Rightarrow> False | Some (_, h) \<Rightarrow> is_awaiting_state h)"

definition pairing_start_when_already_awaiting_is_noop :: "rng \<Rightarrow> bool" where
  "pairing_start_when_already_awaiting_is_noop rng =
     (case start rng 0 handshake_new 0 PAIRING_WINDOW_DEFAULT_MS of
        Some (Inr _, h, i) \<Rightarrow>
          (case start rng i h 1 PAIRING_WINDOW_DEFAULT_MS of Some (Inr t, _, _) \<Rightarrow> t = NoOp | _ \<Rightarrow> False)
      | _ \<Rightarrow> False)"

definition pairing_accepts_correct_code :: "rng \<Rightarrow> bool" where
  "pairing_accepts_correct_code rng =
     (let spki = SpkiHash (replicate 32 0xAB) in
      case opened rng PAIRING_WINDOW_DEFAULT_MS of
        None \<Rightarrow> False
      | Some (code, h) \<Rightarrow>
          (case accept_pair h 100 code ''Phone'' spki of
             (Succeeded r, h1) \<Rightarrow> pr_phone_name r = ''Phone'' \<and> pr_client_spki r = spki \<and> pr_paired_at_unix_ms r = 100
               \<and> (case state h1 of Paired r1 \<Rightarrow> pr_phone_name r1 = ''Phone'' | _ \<Rightarrow> False)
           | _ \<Rightarrow> False))"

definition pairing_rejects_wrong_code_window_stays_open :: "rng \<Rightarrow> bool" where
  "pairing_rejects_wrong_code_window_stays_open rng =
     (case opened rng PAIRING_WINDOW_DEFAULT_MS of
        None \<Rightarrow> False
      | Some (code, h) \<Rightarrow>
          let bad = code + 1 in
          (case accept_pair h 100 bad ''Phone'' zero_spki of
             (t, h1) \<Rightarrow> t = Rejected WrongCode \<and> is_awaiting_state h1))"

definition pairing_rejects_pair_in_idle :: bool where
  "pairing_rejects_pair_in_idle \<longleftrightarrow> fst (accept_pair handshake_new 0 12345 ''Phone'' zero_spki) = Rejected NotInWindow"

definition pairing_window_expires_via_tick :: "rng \<Rightarrow> bool" where
  "pairing_window_expires_via_tick rng =
     (case opened rng 1000 of
        None \<Rightarrow> False
      | Some (_, h) \<Rightarrow>
          (let (early, h1) = tick h 500; (late, h2) = tick h1 1000; (again, h3) = tick h2 2000 in
           early = NoOp \<and> is_awaiting_state h1 \<and> late = PairingTransition.Expired \<and> state h2 = Idle \<and> again = NoOp))"

definition pairing_pair_after_expiry_rejected :: "rng \<Rightarrow> bool" where
  "pairing_pair_after_expiry_rejected rng =
     (case opened rng 1000 of
        None \<Rightarrow> False
      | Some (code, h) \<Rightarrow>
          (case accept_pair h 2000 code ''Phone'' zero_spki of
             (t, h1) \<Rightarrow> t = Rejected PairingRejection.Expired \<and> state h1 = Idle))"

text \<open>\<open>n\<close> attempts with the code \<open>bad\<close>, each of which has to be refused with the window left open.\<close>

primrec wrong_attempts :: "nat \<Rightarrow> u32 \<Rightarrow> PairingHandshake \<Rightarrow> bool \<times> PairingHandshake" where
  "wrong_attempts 0 bad h = (True, h)"
| "wrong_attempts (Suc n) bad h =
     (case accept_pair h 100 bad ''Phone'' zero_spki of
        (t, h1) \<Rightarrow>
          (case wrong_attempts n bad h1 of
             (ok, h2) \<Rightarrow> (t = Rejected WrongCode \<and> is_awaiting_state h1 \<and> ok, h2)))"

definition pairing_too_many_wrong_codes_locks_window :: "rng \<Rightarrow> bool" where
  "pairing_too_many_wrong_codes_locks_window rng =
     (case opened rng PAIRING_WINDOW_DEFAULT_MS of
        None \<Rightarrow> False
      | Some (code, h) \<Rightarrow>
          let bad = (code + 1) mod 1000000 in
          (case wrong_attempts (unat (MAX_PAIRING_ATTEMPTS - 1)) bad h of
             (ok, h1) \<Rightarrow>
               (case accept_pair h1 100 bad ''Phone'' zero_spki of
                  (t, h2) \<Rightarrow> ok \<and> t = Rejected TooManyAttempts \<and> state h2 = Idle)))"

definition pairing_correct_code_after_some_failures_still_succeeds :: "rng \<Rightarrow> bool" where
  "pairing_correct_code_after_some_failures_still_succeeds rng =
     (case opened rng PAIRING_WINDOW_DEFAULT_MS of
        None \<Rightarrow> False
      | Some (code, h) \<Rightarrow>
          let bad = (code + 1) mod 1000000;
              (_, h1) = accept_pair h 50 bad ''Phone'' zero_spki;
              (_, h2) = accept_pair h1 50 bad ''Phone'' zero_spki
          in (case accept_pair h2 100 code ''Phone'' (SpkiHash (replicate 32 0xAB)) of
                (Succeeded _, _) \<Rightarrow> True
              | _ \<Rightarrow> False))"

definition pairing_out_of_range_code_rejected_and_counted :: "rng \<Rightarrow> bool" where
  "pairing_out_of_range_code_rejected_and_counted rng =
     (case opened rng PAIRING_WINDOW_DEFAULT_MS of
        None \<Rightarrow> False
      | Some (_, h) \<Rightarrow>
          (case accept_pair h 50 1000000 ''Phone'' zero_spki of
             (t, h1) \<Rightarrow>
               let h2 = ((\<lambda>h. snd (accept_pair h 50 (- 1) ''Phone'' zero_spki)) ^^ unat (MAX_PAIRING_ATTEMPTS - 1)) h1
               in t = Rejected OutOfRange \<and> is_awaiting_state h1 \<and> state h2 = Idle))"

definition pairing_codes_are_in_valid_range :: "rng \<Rightarrow> bool" where
  "pairing_codes_are_in_valid_range rng =
     (case opened rng PAIRING_WINDOW_DEFAULT_MS of None \<Rightarrow> False | Some (code, _) \<Rightarrow> code < 1000000)"

definition pairing_reset_clears_paired_state :: "rng \<Rightarrow> bool" where
  "pairing_reset_clears_paired_state rng =
     (case opened rng PAIRING_WINDOW_DEFAULT_MS of
        None \<Rightarrow> False
      | Some (code, h) \<Rightarrow>
          (case accept_pair h 100 code ''Phone'' zero_spki of
             (_, h1) \<Rightarrow> (case state h1 of Paired _ \<Rightarrow> True | _ \<Rightarrow> False) \<and> state (reset h1) = Idle))"

lemma opened_code:
  assumes "random_pairing_code rng 0 = Some (Inr code, j)"
  shows "opened rng ttl = Some (code, \<lparr>state = Awaiting code (saturating_add 0 ttl) 0\<rparr>)"
  using assms by (simp add: opened_def start_def handshake_new_def Let_def)

text \<open>The window of the tests, and what a refused code does to it.\<close>

abbreviation window :: "u32 \<Rightarrow> u8 \<Rightarrow> PairingHandshake" where
  "window code failures \<equiv> \<lparr>state = Awaiting code 300000 failures\<rparr>"

lemma opened_window:
  "random_pairing_code rng 0 = Some (Inr code, j) \<Longrightarrow> opened rng PAIRING_WINDOW_DEFAULT_MS = Some (code, window code 0)"
  by (simp add: opened_code PAIRING_WINDOW_DEFAULT_MS_def saturating_add_def)

lemma refused_code:
  assumes "now < 300000" "bad \<noteq> code \<or> 1000000 \<le> bad"
  shows "k \<in> {0, 1, 2, 3} \<Longrightarrow> accept_pair (window code k) now bad name spki =
      (Rejected (if 1000000 \<le> bad then OutOfRange else WrongCode), window code (k + 1))"
    and "accept_pair (window code 4) now bad name spki = (Rejected TooManyAttempts, \<lparr>state = Idle\<rparr>)"
  using assms by (auto simp: accept_pair_def Let_def pairing_consts saturating_add_def word_le_nat_alt word_less_nat_alt)

lemma four_times: "(f ^^ 4) x = f (f (f (f x)))"
  by (simp add: eval_nat_numeral)

lemmas pairing_test_defs = is_awaiting_state_def handshake_new_def accept_pair_def tick_def reset_def start_def
  PAIRING_WINDOW_DEFAULT_MS_def saturating_add_def Let_def pairing_consts

lemma pairing_tests_pass:
  assumes "random_pairing_code rng 0 = Some (Inr code, j)"
  shows "pairing_starts_from_idle rng" "pairing_start_when_already_awaiting_is_noop rng" "pairing_accepts_correct_code rng"
    "pairing_rejects_pair_in_idle" "pairing_window_expires_via_tick rng" "pairing_pair_after_expiry_rejected rng"
    "pairing_out_of_range_code_rejected_and_counted rng" "pairing_codes_are_in_valid_range rng"
    "pairing_reset_clears_paired_state rng"
proof -
  have code: "code < 1000000" using random_code_range [OF assms] by (simp add: PAIRING_CODE_MODULUS_def)
  note o = opened_code [OF assms]
  show "pairing_starts_from_idle rng" by (simp add: pairing_starts_from_idle_def o pairing_test_defs)
  show "pairing_start_when_already_awaiting_is_noop rng"
    by (simp add: pairing_start_when_already_awaiting_is_noop_def assms pairing_test_defs)
  show "pairing_accepts_correct_code rng"
    using code by (simp add: pairing_accepts_correct_code_def o pairing_test_defs word_le_nat_alt word_less_nat_alt)
  show "pairing_rejects_pair_in_idle" by (simp add: pairing_rejects_pair_in_idle_def pairing_test_defs)
  show "pairing_window_expires_via_tick rng"
    by (simp add: pairing_window_expires_via_tick_def o pairing_test_defs word_le_nat_alt word_less_nat_alt)
  show "pairing_pair_after_expiry_rejected rng"
    by (simp add: pairing_pair_after_expiry_rejected_def o pairing_test_defs word_le_nat_alt word_less_nat_alt)
  have four: "unat (MAX_PAIRING_ATTEMPTS - 1) = 4" by (simp add: MAX_PAIRING_ATTEMPTS_def)
  have r: "accept_pair (window code 0) 50 1000000 ''Phone'' zero_spki = (Rejected OutOfRange, window code 1)"
    using refused_code(1) [of 50 1000000 code 0] by simp
  have m: "(1000000 :: u32) \<le> - 1" by simp
  show "pairing_out_of_range_code_rejected_and_counted rng"
    using refused_code [of 50 "- 1" code] m
    by (simp add: pairing_out_of_range_code_rejected_and_counted_def opened_window [OF assms] four four_times r
        is_awaiting_state_def)
  show "pairing_codes_are_in_valid_range rng" using code by (simp add: pairing_codes_are_in_valid_range_def o)
  show "pairing_reset_clears_paired_state rng"
    using code by (simp add: pairing_reset_clears_paired_state_def o pairing_test_defs word_le_nat_alt word_less_nat_alt)
qed

text \<open>The two tests that take \<open>(code + 1) mod 1000000\<close> for a wrong code.\<close>

lemma next_code:
  assumes "code < (1000000 :: u32)"
  shows "(code + 1) mod 1000000 \<noteq> code" "(code + 1) mod 1000000 < 1000000"
proof -
  have c: "unat code < 1000000" using assms by (simp add: word_less_nat_alt)
  then have "unat ((code + 1) mod 1000000) = (unat code + 1) mod 1000000"
    by (simp add: unat_mod_distrib unat_word_ariths)
  moreover have "(unat code + 1) mod 1000000 \<noteq> unat code" using c by (cases "unat code = 999999") simp_all
  ultimately show "(code + 1) mod 1000000 \<noteq> code" by metis
  show "(code + 1) mod 1000000 < 1000000" by (rule word_mod_less_divisor) simp
qed

lemma wrong_code_tests_pass:
  assumes "random_pairing_code rng 0 = Some (Inr code, j)"
  shows "pairing_too_many_wrong_codes_locks_window rng" "pairing_correct_code_after_some_failures_still_succeeds rng"
proof -
  have code: "code < 1000000" using random_code_range [OF assms] by (simp add: PAIRING_CODE_MODULUS_def)
  let ?bad = "(code + 1) mod 1000000"
  have bad: "?bad \<noteq> code" "\<not> 1000000 \<le> ?bad" using next_code [OF code] by (simp_all add: not_le)
  have r: "accept_pair (window code k) now ?bad ''Phone'' zero_spki = (Rejected WrongCode, window code (k + 1))"
    if "k \<in> {0, 1, 2, 3}" "now < 300000" for k now
    using refused_code(1) [OF that(2) disjI1 [OF bad(1)] that(1)] bad(2) by simp
  have four: "unat (MAX_PAIRING_ATTEMPTS - 1) = Suc (Suc (Suc (Suc 0)))" by (simp add: MAX_PAIRING_ATTEMPTS_def)
  have last: "accept_pair (window code 4) 100 ?bad ''Phone'' zero_spki = (Rejected TooManyAttempts, \<lparr>state = Idle\<rparr>)"
    by (rule refused_code(2)) (simp_all add: bad(1))
  show "pairing_too_many_wrong_codes_locks_window rng"
    unfolding pairing_too_many_wrong_codes_locks_window_def opened_window [OF assms] four
    by (simp add: r last Let_def is_awaiting_state_def)
  have "accept_pair (window code 2) 100 code ''Phone'' s = (Succeeded \<lparr>pr_phone_name = ''Phone'', pr_client_spki = s,
      pr_paired_at_unix_ms = 100\<rparr>, \<lparr>state = Paired \<lparr>pr_phone_name = ''Phone'', pr_client_spki = s, pr_paired_at_unix_ms = 100\<rparr>\<rparr>)" for s
    using code by (simp add: accept_pair_def Let_def pairing_consts word_le_nat_alt word_less_nat_alt)
  then show "pairing_correct_code_after_some_failures_still_succeeds rng"
    unfolding pairing_correct_code_after_some_failures_still_succeeds_def opened_window [OF assms]
    by (simp add: r Let_def)
qed

text \<open>
  The test that takes \<open>code.wrapping_add(1)\<close> for a wrong code fails for the last of the codes: the next number
  is out of range, and the answer is \<open>OutOfRange\<close> and not the \<open>WrongCode\<close> that it asserts.
\<close>

lemma wrong_code_test_fails_for_the_last_code:
  assumes "random_pairing_code rng 0 = Some (Inr code, j)"
  shows "pairing_rejects_wrong_code_window_stays_open rng \<longleftrightarrow> code \<noteq> 999999"
proof -
  have "code < 1000000" using random_code_range [OF assms] by (simp add: PAIRING_CODE_MODULUS_def)
  then have c: "unat code < 1000000" by (simp add: word_less_nat_alt)
  then have u: "unat (code + 1) = unat code + 1" by (simp add: unat_word_ariths)
  then have "1000000 \<le> code + 1 \<longleftrightarrow> unat code = 999999" using c by (simp add: word_le_nat_alt) linarith
  also have "\<dots> \<longleftrightarrow> code = 999999" by (simp add: word_unat_eq_iff)
  finally have last: "1000000 \<le> code + 1 \<longleftrightarrow> code = 999999" .
  have "code + 1 \<noteq> code" by simp
  with refused_code(1) [of 100 "code + 1" code 0 "''Phone''" zero_spki] last show ?thesis
    by (simp add: pairing_rejects_wrong_code_window_stays_open_def opened_window [OF assms] is_awaiting_state_def Let_def)
qed

lemma wrong_code_test_example:
  "\<not> pairing_rejects_wrong_code_window_stays_open (\<lambda>i. Inr [0x3F, 0x42, 0x0F, 0])"
proof -
  have "random_pairing_code (\<lambda>i. Inr [0x3F, 0x42, 0x0F, 0]) 0 = Some (Inr 999999, 1)"
    by (subst random_code_stop)
      (simp_all add: draw_ends_def u32_from_le_bytes_def from_be_def RESAMPLE_THRESHOLD_eq PAIRING_CODE_MODULUS_def)
  from wrong_code_test_fails_for_the_last_code [OF this] show ?thesis by simp
qed

end
