(* ===== verification/Protocol_Tests.thy ===== *)
theory Protocol_Tests
  imports Protocol_Wire
begin

section \<open>The tests of the wire protocol\<close>

text \<open>
  \<open>core/tests/protocol_dynamic.rs\<close> as definitions over the model; \<open>cc\<close> and \<open>dc\<close> are the encoders of the two
  message types. The inputs of the property tests are arguments: what holds here holds for every
  input and not only for the 256 that a run draws. The fuzz test asserts nothing but that the
  decoder returns, and \<open>decode_envelope\<close> is a total function.
\<close>

subsection \<open>Property tests\<close>

definition client_frame_roundtrip :: "ClientFrame codec \<Rightarrow> ClientFrame \<Rightarrow> bool" where
  "client_frame_roundtrip cc frame =
     (case encode_client_frame cc frame of
        Inl _ \<Rightarrow> False
      | Inr b \<Rightarrow> decode_client_frame cc b = Inr frame)"

definition daemon_frame_roundtrip :: "DaemonFrame codec \<Rightarrow> DaemonFrame \<Rightarrow> bool" where
  "daemon_frame_roundtrip dc frame =
     (case encode_daemon_frame dc frame of
        Inl _ \<Rightarrow> False
      | Inr b \<Rightarrow> decode_daemon_frame dc b = Inr frame)"

definition envelope_roundtrip_test :: "ClientFrame codec \<Rightarrow> ClientFrame \<Rightarrow> u64 \<Rightarrow> bool" where
  "envelope_roundtrip_test cc frame n =
     (case encode_client_frame cc frame of
        Inl _ \<Rightarrow> False
      | Inr p \<Rightarrow>
          let env = \<lparr>version = PROTOCOL_VERSION, nonce = n, payload = p\<rparr> in
          (case encode_envelope env of
             Inl _ \<Rightarrow> False
           | Inr b \<Rightarrow>
               (case decode_envelope b of
                  Inr (Frame envelope remainder) \<Rightarrow> envelope = env \<and> remainder = []
                | _ \<Rightarrow> False)))"

definition envelope_concat_two_frames_decodes_first_returns_remainder ::
    "ClientFrame codec \<Rightarrow> DaemonFrame codec \<Rightarrow> ClientFrame \<Rightarrow> DaemonFrame \<Rightarrow> u64 \<Rightarrow> bool" where
  "envelope_concat_two_frames_decodes_first_returns_remainder cc dc frame_a frame_b nonce_a =
     (case (encode_client_frame cc frame_a, encode_daemon_frame dc frame_b) of
        (Inr pa, Inr pb) \<Rightarrow>
          let env_a = \<lparr>version = PROTOCOL_VERSION, nonce = nonce_a, payload = pa\<rparr>;
              env_b = \<lparr>version = PROTOCOL_VERSION, nonce = nonce_a + 1, payload = pb\<rparr> in
          (case (encode_envelope env_a, encode_envelope env_b) of
             (Inr bytes_a, Inr bytes_b) \<Rightarrow>
               (case decode_envelope (bytes_a @ bytes_b) of
                  Inr (Frame envelope remainder) \<Rightarrow> envelope = env_a \<and> remainder = bytes_b
                | _ \<Rightarrow> False)
           | _ \<Rightarrow> False)
      | _ \<Rightarrow> False)"

text \<open>
  The round trips hold for every message of the types, whatever the encoder, as long as it is one; those
  through an envelope for every message that fits a frame.
\<close>

lemma client_tests_pass:
  assumes "payload_codec cc ok" "ok f" "to_allocvec cc f = Inr p"
  shows "client_frame_roundtrip cc f"
    and "9 + length p \<le> MAX_FRAME_LEN \<Longrightarrow> envelope_roundtrip_test cc f n"
proof -
  show "client_frame_roundtrip cc f"
    using payload_codec.decode_enc [OF assms] assms(3)
    by (simp add: client_frame_roundtrip_def encode_client_frame_def decode_client_frame_def)
  show "envelope_roundtrip_test cc f n" if "9 + length p \<le> MAX_FRAME_LEN"
  proof -
    let ?env = "\<lparr>version = PROTOCOL_VERSION, nonce = n, payload = p\<rparr>"
    have e: "encode_envelope ?env = Inr (frame_bytes ?env)" using that by (simp add: encode_envelope_ok sendable_def)
    from envelope_roundtrip [OF e, of "[]"] payload_codec.enc_nonempty [OF assms] e assms(3) show ?thesis
      by (simp add: envelope_roundtrip_test_def encode_client_frame_def)
  qed
qed

lemma daemon_tests_pass:
  assumes "payload_codec dc ok" "ok f" "to_allocvec dc f = Inr p"
  shows "daemon_frame_roundtrip dc f"
  using payload_codec.decode_enc [OF assms] assms(3)
  by (simp add: daemon_frame_roundtrip_def encode_daemon_frame_def decode_daemon_frame_def)

lemma concat_test_passes:
  assumes "payload_codec cc ok" "ok f" "to_allocvec cc f = Inr p" "9 + length p \<le> MAX_FRAME_LEN"
    and "to_allocvec dc g = Inr q" "9 + length q \<le> MAX_FRAME_LEN"
  shows "envelope_concat_two_frames_decodes_first_returns_remainder cc dc f g n"
proof -
  let ?a = "\<lparr>version = PROTOCOL_VERSION, nonce = n, payload = p\<rparr>"
    and ?b = "\<lparr>version = PROTOCOL_VERSION, nonce = n + 1, payload = q\<rparr>"
  have e: "encode_envelope ?a = Inr (frame_bytes ?a)" "encode_envelope ?b = Inr (frame_bytes ?b)"
    using assms(4,6) by (simp_all add: encode_envelope_ok sendable_def)
  from envelope_roundtrip [OF e(1), of "frame_bytes ?b"] payload_codec.enc_nonempty [OF assms(1-3)] e assms(3,5) show ?thesis
    by (simp add: envelope_concat_two_frames_decodes_first_returns_remainder_def encode_client_frame_def encode_daemon_frame_def)
qed

text \<open>In the wire format of the known-answer tests.\<close>

lemma wire_format_tests_pass:
  "wf_client f \<Longrightarrow> client_frame_roundtrip client_codec f"
  "wf_daemon g \<Longrightarrow> daemon_frame_roundtrip daemon_codec g"
  "wf_client f \<Longrightarrow> 9 + length (put_client f) \<le> MAX_FRAME_LEN \<Longrightarrow> envelope_roundtrip_test client_codec f n"
  "wf_client f \<Longrightarrow> 9 + length (put_client f) \<le> MAX_FRAME_LEN \<Longrightarrow> 9 + length (put_daemon g) \<le> MAX_FRAME_LEN \<Longrightarrow>
     envelope_concat_two_frames_decodes_first_returns_remainder client_codec daemon_codec f g n"
  using client_tests_pass(1) [OF client.payload_codec_axioms, of f "put_client f"]
    client_tests_pass(2) [OF client.payload_codec_axioms, of f "put_client f" n]
    daemon_tests_pass [OF daemon.payload_codec_axioms, of g "put_daemon g"]
    concat_test_passes [OF client.payload_codec_axioms, of f "put_client f" daemon_codec g "put_daemon g" n]
  by (simp_all add: client_codec_def daemon_codec_def)

subsection \<open>Negative tests\<close>

definition truncated_length_prefix_is_incomplete :: bool where
  "truncated_length_prefix_is_incomplete \<longleftrightarrow> decode_envelope [0, 0] = Inr Incomplete"

definition oversized_envelope_rejected :: bool where
  "oversized_envelope_rejected \<longleftrightarrow>
     (case u32_try_from (MAX_FRAME_LEN + 1) of
        None \<Rightarrow> False
      | Some oversize \<Rightarrow>
          (case decode_envelope (u32_to_be_bytes oversize) of Inl (OversizedFrame _ _) \<Rightarrow> True | _ \<Rightarrow> False))"

definition undersized_envelope_rejected :: bool where
  "undersized_envelope_rejected \<longleftrightarrow>
     (case u32_try_from (MIN_FRAME_LEN - 1) of
        None \<Rightarrow> False
      | Some undersize \<Rightarrow>
          (case decode_envelope (u32_to_be_bytes undersize @ replicate MIN_FRAME_LEN 0) of
             Inl (UndersizedFrame _ _) \<Rightarrow> True
           | _ \<Rightarrow> False))"

definition version_mismatch_rejected :: bool where
  "version_mismatch_rejected \<longleftrightarrow>
     decode_envelope (u32_to_be_bytes 10 @ [0x99] @ u64_to_be_bytes 1 @ [1])
       = Inl (Error.VersionMismatch 0x99 PROTOCOL_VERSION)"

definition truncated_envelope_payload_is_incomplete :: bool where
  "truncated_envelope_payload_is_incomplete \<longleftrightarrow>
     decode_envelope (u32_to_be_bytes 10 @ [PROTOCOL_VERSION] @ [0, 0, 0, 0, 0]) = Inr Incomplete"

definition trailing_bytes_in_client_payload_rejected :: "ClientFrame codec \<Rightarrow> bool" where
  "trailing_bytes_in_client_payload_rejected cc \<longleftrightarrow> decode_client_frame cc [1, 0xFF, 0xFF] = Inl (TrailingBytes 2)"

definition unknown_client_variant_rejected :: "ClientFrame codec \<Rightarrow> bool" where
  "unknown_client_variant_rejected cc \<longleftrightarrow>
     (case decode_client_frame cc [99] of Inl (Decoding _) \<Rightarrow> True | _ \<Rightarrow> False)"

definition empty_buffer_is_incomplete :: bool where
  "empty_buffer_is_incomplete \<longleftrightarrow> decode_envelope [] = Inr Incomplete"

definition encode_oversize_payload_rejected :: bool where
  "encode_oversize_payload_rejected \<longleftrightarrow>
     (case encode_envelope \<lparr>version = PROTOCOL_VERSION, nonce = 1, payload = replicate MAX_FRAME_LEN 0\<rparr> of
        Inl (OversizedFrame _ _) \<Rightarrow> True
      | _ \<Rightarrow> False)"

definition library_error_to_wire_code_mapping_is_total :: bool where
  "library_error_to_wire_code_mapping_is_total \<longleftrightarrow>
     list_all (\<lambda>(err, want). to_wire_code err = want)
       [(OversizedFrame (MAX_FRAME_LEN + 1) MAX_FRAME_LEN, MalformedFrame),
        (UndersizedFrame 0 MIN_FRAME_LEN, MalformedFrame),
        (Error.VersionMismatch 0xFF PROTOCOL_VERSION, ProtocolError.VersionMismatch),
        (TrailingBytes 1, MalformedFrame), (LengthOverflow, MalformedFrame)]"

lemma envelope_negative_tests_pass:
  "truncated_length_prefix_is_incomplete" "oversized_envelope_rejected" "undersized_envelope_rejected"
  "version_mismatch_rejected" "truncated_envelope_payload_is_incomplete" "empty_buffer_is_incomplete"
  "library_error_to_wire_code_mapping_is_total"
  unfolding truncated_length_prefix_is_incomplete_def oversized_envelope_rejected_def undersized_envelope_rejected_def
    version_mismatch_rejected_def truncated_envelope_payload_is_incomplete_def empty_buffer_is_incomplete_def
    library_error_to_wire_code_mapping_is_total_def
  by (simp_all add: decode_envelope_eq declared_len_def parse_body_def u32_try_from_def envelope_consts nth_append Let_def)

lemma oversize_test_passes: "encode_oversize_payload_rejected"
  by (simp add: encode_oversize_payload_rejected_def encode_envelope_def checked_add_usize_def usize_max_def envelope_consts)

lemma payload_negative_tests_pass:
  "trailing_bytes_in_client_payload_rejected client_codec" "unknown_client_variant_rejected client_codec"
  using undecodable_payload_is_malformed_example client.decode_trailing [of Sleep "[1]" "[0xFF, 0xFF]"]
  by (simp_all add: trailing_bytes_in_client_payload_rejected_def unknown_client_variant_rejected_def
      decode_client_frame_def client_codec_def wf_client_def put_tag_def byte_simps)

end
