(* ===== verification/Debug_Text.thy ===== *)
theory Debug_Text
  imports Server_State
begin

section \<open>The Debug text of the server's state\<close>

text \<open>
  \<open>Debug\<close> of \<open>SharedState\<close> and of its \<open>Inner\<close> (\<open>server/state.rs\<close>), with the derived \<open>Debug\<close> of the identity
  (\<open>core/src/crypto/device.rs\<close>). The texts of the configuration and of a hash are arguments.
\<close>

fun comma_list :: "string list \<Rightarrow> string" where
  "comma_list [] = []"
| "comma_list [x] = x"
| "comma_list (x # y # xs) = x @ '', '' @ comma_list (y # xs)"

definition bytes_debug :: "bytes \<Rightarrow> string" where
  "bytes_debug bs = ''['' @ comma_list (map (\<lambda>b. decimal (unat b)) bs) @ '']''"

definition identity_debug :: "(SpkiHash \<Rightarrow> string) \<Rightarrow> DeviceIdentity \<Rightarrow> string" where
  "identity_debug hash_text i =
     ''DeviceIdentity { key_pkcs8_der: '' @ bytes_debug (id_key_pkcs8_der i) @ '', cert_der: '' @ bytes_debug (id_cert_der i)
       @ '', spki_hash: '' @ hash_text (id_spki_hash i) @ '' }''"

definition inner_debug :: "(SpkiHash \<Rightarrow> string) \<Rightarrow> (Config \<Rightarrow> string) \<Rightarrow> 'o SharedState \<Rightarrow> string" where
  "inner_debug hash_text config_text st =
     ''Inner { identity: '' @ identity_debug hash_text (identity st) @ '', config: '' @ config_text (config st)
       @ '', handlers: \"<dyn Handlers>\", .. }''"

definition shared_state_debug :: "(SpkiHash \<Rightarrow> string) \<Rightarrow> (Config \<Rightarrow> string) \<Rightarrow> 'o SharedState \<Rightarrow> string" where
  "shared_state_debug hash_text config_text st = ''SharedState { inner: '' @ inner_debug hash_text config_text st @ '' }''"

subsection \<open>What it tells\<close>

lemma decimal_digits: "c \<in> set (decimal n) \<Longrightarrow> 48 \<le> (of_char c :: nat) \<and> (of_char c :: nat) < 58"
proof (induction n rule: decimal.induct)
  case (1 n)
  have d: "of_char (char_of (48 + m) :: char) = 48 + m" if "m < 10" for m :: nat
    using that by simp
  show ?case
  proof (cases "n < 10")
    case True
    with 1(2) d [of n] show ?thesis by (simp add: decimal.simps [of n])
  next
    case False
    with 1(2) have "c \<in> set (decimal (n div 10)) \<or> c = char_of (48 + n mod 10)" by (auto simp: decimal.simps [of n])
    with 1(1) [OF False] d [of "n mod 10"] show ?thesis by auto
  qed
qed

lemma decimal_plain: "CHR '','' \<notin> set (decimal n)" "CHR '']'' \<notin> set (decimal n)" "decimal n \<noteq> []"
  using decimal_digits [of "CHR '',''" n] decimal_digits [of "CHR '']''" n]
  by (auto simp: of_char_def decimal.simps [of n])

lemma unsplit:
  assumes "a \<notin> set xs" "a \<notin> set ys" "xs @ a # us = ys @ a # vs"
  shows "xs = ys \<and> us = vs"
proof -
  have t: "takeWhile (\<lambda>c. c \<noteq> a) (zs @ a # ws) = zs" if "a \<notin> set zs" for zs ws
    using that by (induction zs) auto
  have "xs = ys" using t [OF assms(1), of us] t [OF assms(2), of vs] assms(3) by simp
  with assms(3) show ?thesis by simp
qed

lemma comma_list_inj:
  assumes "\<forall>x \<in> set xs. CHR '','' \<notin> set x \<and> x \<noteq> []" "\<forall>y \<in> set ys. CHR '','' \<notin> set y \<and> y \<noteq> []"
    and "comma_list xs = comma_list ys"
  shows "xs = ys"
  using assms
proof (induction xs arbitrary: ys rule: comma_list.induct)
  case 1
  then show ?case by (cases ys rule: comma_list.cases) simp_all
next
  case (2 x)
  then show ?case by (cases ys rule: comma_list.cases) auto
next
  case (3 x x' xs)
  then obtain y y' zs where ys: "ys = y # y' # zs" by (cases ys rule: comma_list.cases) auto
  have "x = y \<and> '' '' @ comma_list (x' # xs) = '' '' @ comma_list (y' # zs)"
    using 3(2-4) unsplit [of "CHR '',''" x y "'' '' @ comma_list (x' # xs)" "'' '' @ comma_list (y' # zs)"] ys by simp
  moreover have "x' # xs = y' # zs" if "comma_list (x' # xs) = comma_list (y' # zs)"
    by (rule 3(1) [OF _ _ that]) (use 3(2,3) ys in auto)
  ultimately show ?case using ys by auto
qed

lemma comma_list_plain:
  "c \<in> set (comma_list xs) \<Longrightarrow> c \<in> {CHR '','', CHR '' ''} \<or> (\<exists>x \<in> set xs. c \<in> set x)"
  by (induction xs rule: comma_list.induct) auto

lemma bytes_debug_inj:
  assumes "bytes_debug a @ us = bytes_debug b @ vs"
  shows "a = b"
proof -
  let ?t = "map (\<lambda>b. decimal (unat b))"
  have n: "CHR '']'' \<notin> set (comma_list (?t xs))" for xs :: bytes
    using comma_list_plain [of "CHR '']''" "?t xs"] decimal_plain(2) by auto
  have "comma_list (?t a) = comma_list (?t b)"
    using unsplit [OF n n, of a us b vs] assms by (simp add: bytes_debug_def)
  then have "?t a = ?t b" by (rule comma_list_inj [rotated 2]) (auto simp: decimal_plain)
  moreover have "inj (\<lambda>b :: u8. decimal (unat b))" by (auto intro!: injI simp: word_unat_eq_iff)
  ultimately show ?thesis by (simp add: inj_map_eq_map)
qed

text \<open>
  The text of the state tells the private key: two servers with the same text have the same key, although
  the field is commented \<open>Never log\<close>.
\<close>
lemma debug_reveals_private_key:
  assumes "shared_state_debug hash_text config_text st = shared_state_debug hash_text config_text st'"
  shows "id_key_pkcs8_der (identity st) = id_key_pkcs8_der (identity st')"
  using assms unfolding shared_state_debug_def inner_debug_def identity_debug_def append_assoc same_append_eq
  by (rule bytes_debug_inj)

end
