(* ===== verification/Spec2Isabelle.thy ===== *)
theory Spec2Isabelle
  imports Daemon_Main Library_Facade Session_End_To_End System_Wellformed Await_Run Await_Refinement
    Await_Commands Machine_Run Machine_Unreadable Unit_Tests Crypto_Tests Protocol_Tests
    Debug_Text
begin

text \<open>
  A model of \<open>wake-my-pc\<close>: the daemon on a PC that paired phones command over the local network
  (\<open>daemon/src\<close>), and the protocol and cryptography crate it is built on (\<open>core/src\<close>).

  \<^bold>\<open>How the parts fit.\<close> A phone and the daemon speak length-prefixed envelopes, each with a version, a
  nonce and a serialised frame, over TLS 1.3 with self-signed certificates on both sides that are
  pinned by the hash of their key. \<open>pair\<close> opens a window of five minutes in which a phone that sends
  the printed six digit code is added to the keystore; \<open>serve\<close> accepts pinned phones and runs one
  task for each connection; \<open>revoke\<close>, \<open>reauth-now\<close>, \<open>list-paired\<close> and the uninstaller work on the keystore
  alone. The keystore is one encrypted file, and the only thing these processes share.

  \<^bold>\<open>The theories, bottom up.\<close>
  \<^item> \<open>Prelude\<close>: results as sums, saturating and big-endian arithmetic on words, slices.
  \<^item> \<open>Protocol_Message\<close> (\<open>core/src/protocol/message.rs\<close>, \<open>error.rs\<close>): frames, error codes, the codec as a
    parameter with its laws (locale \<open>payload_codec\<close>). \<open>Protocol_Envelope\<close> (\<open>envelope.rs\<close>): encoder and
    streaming decoder. \<open>Wire_Primitives\<close> and \<open>Protocol_Wire\<close>: the wire format of the known-answer tests, an
    instance of the codec, and the vectors.
  \<^item> \<open>Crypto_Nonce\<close> (\<open>nonce.rs\<close>; locale \<open>replay_window\<close>), \<open>Crypto_Pairing\<close> (\<open>pairing.rs\<close>), \<open>Crypto_Pins\<close>
    (\<open>pin.rs\<close>, \<open>spki.rs\<close>), \<open>Crypto_Device\<close> (\<open>device.rs\<close>), \<open>Crypto_Tls\<close> (\<open>tls.rs\<close>), \<open>Crypto_Error\<close>: the crypto crate.
  \<^item> \<open>Std_Fs\<close>: files, directories and a script of failures. \<open>Daemon_Error\<close>, \<open>Daemon_Config\<close>,
    \<open>Daemon_Pairings\<close>, \<open>Daemon_Reauth\<close>: \<open>error.rs\<close>, \<open>config.rs\<close>, \<open>pairings.rs\<close>, \<open>reauth.rs\<close>.
  \<^item> \<open>Daemon_Keystore\<close> (\<open>keystore/mod.rs\<close>, \<open>keystore/platform.rs\<close>; locale \<open>cipher_layer\<close>): contents, load,
    save. \<open>Keystore_Wire\<close>: an instance of its codec. \<open>Keystore_Store\<close>: the contract of a store that
    load and save keep (locale \<open>keystore_store\<close>), over the abstract value on disk \<open>ks_stored\<close>.
  \<^item> \<open>Daemon_Platform\<close> (\<open>handlers.rs\<close>, \<open>platform/\<close>; locale \<open>os_handlers\<close>): the operations on the host.
  \<^item> \<open>Tls_Stream\<close>: an established stream, the bytes and errors it will deliver in whatever pieces, and the
    two reading loops. \<open>Server_State\<close> (\<open>server/state.rs\<close>) and the world: disk, clock, random source, host.
  \<^item> \<open>Server_Connection\<close> (\<open>server/connection.rs\<close>), its lemmas in \<open>Connection_Facts\<close> (locale \<open>server_invariant\<close>:
    what every dispatch keeps, every connection keeps), the specification of a session over envelopes
    in \<open>Connection_Session\<close>, the properties in \<open>Server_Properties\<close>. \<open>Server_Listener\<close> (\<open>server/listener.rs\<close>,
    \<open>server/mod.rs\<close>): acceptor, accept loop, start.
  \<^item> \<open>Pairing_Flow\<close> (\<open>pairing_flow.rs\<close>), \<open>Pairing_Properties\<close>, and a concrete pairing in \<open>Pairing_Run\<close>.
  \<^item> \<open>Daemon_Admin\<close> (\<open>admin.rs\<close>). \<open>Connection_Steps\<close>: the connection cut where other tasks run.
    \<open>Server_System\<close>: the step relations of the server's tasks and of the local commands beside it, with
    the invariants of every interleaving; \<open>System_Properties\<close>, and concrete runs in \<open>System_Run\<close>.
    \<open>System_Wellformed\<close>: what every change of a keystore keeps of it. \<open>Session_End_To_End\<close>: a phone on
    the functions of \<open>core\<close> against the daemon's connection.
  \<^item> \<open>Concurrent_Saves\<close>: saves of several tasks, cut at their awaits. \<open>Connection_Awaits\<close>: the whole task of a
    connection cut at every access to the lock, the disk, the clock and the host, with the proof that
    the segments make up \<open>conn_run\<close>. \<open>Server_Awaits\<close>: the server with these segments interleaved (locale
    \<open>await_invariant\<close>, interpreted at the rights in memory and the clock readings). \<open>Server_Store\<close>: the disk
    under it, for any property of keystores that requests keep (locale \<open>kept_by_server\<close>, whose instances
    give instances of \<open>await_invariant\<close>); what the disk may be besides a keystore with the property is a
    \<open>disk_may\<close>: without one, or, if writes may fail, with one that cannot be read. \<open>Await_Properties\<close>, and
    concrete runs in \<open>Await_Run\<close>. \<open>Await_Refinement\<close>: a lemma that ties the two models of the server, every run
    of \<open>Server_System\<close> being a run of \<open>Server_Awaits\<close>. \<open>Await_Commands\<close>: the server at its awaits beside the
    local commands.
  \<^item> \<open>Command_Awaits\<close> and \<open>Pairing_Awaits\<close>: the local commands and the pairing command cut at their awaits, with
    the proofs that the segments make up the functions. \<open>Process_System\<close>: any number of these processes, each
    with its own process id, on one disk, and what they keep of it (locale \<open>contents_law\<close>); \<open>Process_Updates\<close>:
    what they do to each other. \<open>Start_Awaits\<close>: the start of the server (\<open>server/mod.rs\<close>) at its awaits, with the
    proof that the segments make up \<open>server_start\<close>. \<open>Machine_Awaits\<close>: the server, its start included, at its
    awaits and the command processes at theirs (locale \<open>machine_law\<close>, which extends \<open>contents_law\<close> and gives \<open>kept_by_server\<close>); concrete runs in \<open>Machine_Run\<close>.
    \<open>Machine_Unreadable\<close>: a machine whose keystore cannot be read, on which nothing starts and nothing is written.
  \<^item> \<open>Unit_Tests\<close>, \<open>Crypto_Tests\<close> and \<open>Protocol_Tests\<close>: the tests inside \<open>reauth.rs\<close> and \<open>keystore/mod.rs\<close>, and those of
    \<open>core/tests/crypto_units.rs\<close> and \<open>protocol_dynamic.rs\<close>, proved to hold of the model for every input, but for
    one that fails for one pairing code (\<open>wrong_code_test_fails_for_the_last_code\<close>).
  \<^item> \<open>Debug_Text\<close>: the \<open>Debug\<close> text of the state of the server, and that it tells the private key.
  \<^item> \<open>Daemon_Service\<close> (\<open>service.rs\<close>) and \<open>Daemon_Main\<close> (\<open>main.rs\<close>, \<open>cli.rs\<close>): the entry points, and what each
    command promises (\<open>promised\<close>, \<open>refused\<close>) from the arguments of the process to its exit code.
    \<open>Library_Facade\<close>: the wrappers of \<open>lib.rs\<close>.

  \<^bold>\<open>How code is read.\<close> Structs are records, enums datatypes, machine integers words of their width, errors
  the left side of a sum. A function that changes something takes it and returns it updated, in the
  order of the code; a \<open>return\<close> or \<open>?\<close> is a branch. Loops are recursions that are proved to end
  (\<open>read_envelope\<close>, \<open>conn_loop\<close>, \<open>pair_loop\<close>), but for the rejection sampling of the pairing code, which is
  a partial function and returns exactly when some draw is in range. No fuel is used. Listeners are
  the lists of what their \<open>select!\<close> will see, and a process that is still waiting at the end of its list
  has the result \<open>None\<close>. A stream is the bytes that will arrive on it and then the end or an error: a
  peer that falls silent, which neither \<open>connection.rs\<close> nor \<open>pairing_flow.rs\<close> limits by a time-out, is not a
  stream of \<open>conn_run\<close> or \<open>handle_pair_attempt\<close>. In \<open>Server_Awaits\<close> it is a task that takes no further step,
  which every interleaving allows; in the pairing loop it is the end of the list of events. So what is
  proved of the loops' ends is about peers that send, close or fail. Log messages are left out; formatted error texts keep their fixed part.

  \<^bold>\<open>What is a parameter.\<close> \<open>postcard\<close>, \<open>rustls\<close>, \<open>rcgen\<close>, \<open>x509-parser\<close> and \<open>sha2\<close>, DPAPI, Win32, the service
  control manager, the TLS handshake, the random source and the clock are arguments. What is relied
  on is named: the laws of \<open>payload_codec\<close> and \<open>dpapi_ok\<close> (together \<open>ks_ok\<close>), \<open>encodes_responses\<close> (responses
  fit a frame), \<open>handshake_verifies\<close> (a completed handshake presented a certificate that the verifier
  accepted), \<open>decodes_wf\<close> (decoded names are text, hashes have 32 bytes), \<open>rejects_cuts\<close> (a strict prefix of
  a ciphertext does not decrypt; only where writes of the server may fail). Each is shown to hold of an
  instance, and the witnesses run on it.

  \<^bold>\<open>What the lemmas show.\<close> The decoder accepts exactly the encodings, and in pieces as at once; replayed
  nonces are never accepted; a window evaluates at most five codes; every TLS configuration is
  pinned to TLS 1.3 without resumption. A save is atomic under every failure, loads fail closed, only
  ciphertext reaches the disk. A connection is its session over envelopes, commands reach the host
  only through the gate, and nothing over the network changes who is paired, under every
  interleaving of frames and of awaits, with any failures. A phone gets the
  answers to its frames in order over any chunking. The keystore stays well-formed, with every phone's
  key at most once, through everything a deployment does; at the granularity of awaits the command
  processes keep it complete under every failure and kill, and together with the server it can at worst
  become unreadable, if a write fails, and then every later start fails and nothing is overwritten. Nobody
  is ever in it who was not there at the start or let in at a step of the run (\<open>lets_in\<close>): on a connection that a
  pairing command accepted there, with the certificate of that connection, they sent the code which this
  command had printed. A pairing window adds at most one phone, one that sent the code on a connection of
  its listener, and connections that arrive cannot hold it open past its time. Every command of the
  binary does what its name says or leaves the keystore as it was. Revoking locks a phone out of every
  server started later. Some theorems state what the code does against its documents:
  \<open>running_server_undoes_revocation\<close>, \<open>overlapping_saves_can_lose_the_keystore\<close>,
  \<open>acknowledged_interval_can_be_lost\<close>, \<open>pairing_undoes_a_revocation\<close>, \<open>fresh_daemon_starts_locked\<close>, \<open>reauth_off_opens_gate\<close>.

  \<^bold>\<open>What is not modelled.\<close> The parser of the arguments (\<open>clap\<close>, an argument of \<open>daemon_process\<close>) and the set-up
  of logging; the desktop window and the generated bindings; re-exports; the tests that try \<open>rustls\<close> or
  run the daemon over sockets. \<open>Server_System\<close> takes one turn of a connection (a frame, its effect and save, its
  answer) and one local command as one step; nothing is claimed there of the disk under overlapping saves.
  \<open>Server_Awaits\<close>, \<open>Process_System\<close> and \<open>Machine_Awaits\<close> cut at every await, and what holds of the disk under every
  interleaving is stated on them. Writes fail in all of them; under overlapping saves of the server this can leave a cut ciphertext as the keystore
  (\<open>overlapping_saves_can_lose_the_keystore\<close>). A write of a file is atomic towards other tasks and processes
  in all of them, and what a failing one leaves is a prefix. In \<open>Await_Commands\<close> the local commands are whole,
  and it follows the memory of the server through any change of the disk. Time-outs are events, not durations.
\<close>

end
